(* ===== verification/Prelude.thy ===== *)
theory Prelude
  imports Main "HOL-Library.Multiset"
begin

text \<open>
  Shared vocabulary of the development: the collections of handler and invariant
  facts that the component theories fill, and generic lemmas on lists, stable
  sorting and options that the leaderboard, quiz and application proofs use.
\<close>

named_theorems handler_defs "unfolding rules of the modelled event handlers"
named_theorems app_inv_defs "unfolding rules of the application invariants"

subsection \<open>Stable sorting of a sorted list with one element appended\<close>

text \<open>
  Inserting by \<open>foldr\<close> from the right puts the appended element in first; each
  earlier element then goes in front of it when its key is not larger.  On a list
  already sorted by the key, the appended element therefore lands behind every
  element whose key is not larger than its own.
\<close>

lemma sort_key_snoc_sorted:
  assumes "sorted (map f xs)"
  shows "sort_key f (xs @ [x]) =
           takeWhile (\<lambda>y. f y \<le> f x) xs @ x # dropWhile (\<lambda>y. f y \<le> f x) xs"
  using assms
proof (induction xs)
  case Nil
  then show ?case by simp
next
  case (Cons y ys)
  then have ys: "sorted (map f ys)" and y_le: "\<forall>z\<in>set ys. f y \<le> f z"
    by auto
  show ?case
  proof (cases "f y \<le> f x")
    case True
    have "insort_key f y (takeWhile (\<lambda>z. f z \<le> f x) ys @ x # dropWhile (\<lambda>z. f z \<le> f x) ys)
          = y # takeWhile (\<lambda>z. f z \<le> f x) ys @ x # dropWhile (\<lambda>z. f z \<le> f x) ys"
      using True y_le by (intro insort_is_Cons) (auto dest: set_takeWhileD set_dropWhileD)
    with True Cons.IH[OF ys] show ?thesis by simp
  next
    case False
    then have "\<forall>z\<in>set ys. \<not> f z \<le> f x" using y_le by auto
    then have tw: "takeWhile (\<lambda>z. f z \<le> f x) ys = []"
      and dw: "dropWhile (\<lambda>z. f z \<le> f x) ys = ys"
      by (simp_all add: takeWhile_eq_Nil_iff dropWhile_eq_self_iff)
         (metis list.set_sel(1))
    have "insort_key f y ys = y # ys" using y_le by (rule insort_is_Cons)
    with False Cons.IH[OF ys] tw dw show ?thesis by simp
  qed
qed

lemma takeWhile_le_filter:
  assumes "sorted (map f xs)"
  shows "takeWhile (\<lambda>y. f y \<le> c) xs = filter (\<lambda>y. f y \<le> c) xs"
proof -
  have "filter (\<lambda>y. f y \<le> c) xs = []" if "sorted (map f xs)" "\<not> f x \<le> c"
    "\<forall>y\<in>set xs. f x \<le> f y" for x xs
    using that by (auto simp: filter_empty_conv dest: order_trans)
  with assms show ?thesis by (induction xs) auto
qed

text \<open>
  A stable sort of a list with one element appended sees the earlier elements only
  through their stable order: sorting them first changes nothing.
\<close>

lemma sort_key_snoc: "sort_key f (xs @ [x]) = sort_key f (sort_key f xs @ [x])"
proof (rule properties_for_sort_key)
  show "mset (sort_key f (sort_key f xs @ [x])) = mset (xs @ [x])" by simp
  show "sorted (map f (sort_key f (sort_key f xs @ [x])))" by simp
  fix k
  have "filter (\<lambda>y. f y = f k) (sort_key f (sort_key f xs @ [x]))
        = filter (\<lambda>y. f y = f k) (xs @ [x])"
    by (simp add: sort_key_stable)
  then show "filter (\<lambda>y. f k = f y) (sort_key f (sort_key f xs @ [x]))
             = filter (\<lambda>y. f k = f y) (xs @ [x])"
    by (simp add: eq_commute [of "f k"])
qed

text \<open>Truncating a list keeps, of each filtered sublist, a prefix.\<close>

lemma filter_take_prefix: "\<exists>n. filter P (take m xs) = take n (filter P xs)"
proof
  have "filter P xs = filter P (take m xs) @ filter P (drop m xs)"
    by (metis append_take_drop_id filter_append)
  then show "filter P (take m xs) = take (length (filter P (take m xs))) (filter P xs)"
    by (metis append_eq_conv_conj)
qed

lemma sorted_const: "set xs \<subseteq> {x} \<Longrightarrow> sorted xs"
  by (induction xs) auto

end
