(* ===== verification/Types.thy ===== *)
theory Types
  imports Prelude
begin

text \<open>
  The data model of \<open>src/types.ts\<close>: the five screens of the application
  (\<open>AppState\<close>), a generated multiple-choice question (\<open>Question\<close>), a row of
  the leaderboard (\<open>LeaderboardEntry\<close>) and the unused \<open>QuizConfig\<close>.
  JavaScript numbers that the program only ever fills with integers are \<open>int\<close>;
  the fields \<open>id\<close> and \<open>text\<close> are renamed \<open>question_id\<close>,
  \<open>question_text\<close> and \<open>entry_id\<close> because \<open>id\<close> is a constant of HOL.
\<close>

datatype AppState = WELCOME | LOADING | QUIZ | RESULT | ERROR

record Question =
  question_id :: int
  question_text :: string
  options :: "string list"
  correctAnswerIndex :: int
  explanation :: string

record LeaderboardEntry =
  entry_id :: string
  name :: string
  score :: int
  timestamp :: int

record QuizConfig =
  questionCount :: nat
  topics :: "string list"

text \<open>
  The screens in the order a successful session visits them, with the error screen
  last; this order makes \<open>AppState\<close> a linear order, so that a run's screens can
  be stated to be visited in order (\<open>sorted\<close>).
\<close>

fun screen_rank :: "AppState \<Rightarrow> nat" where
  "screen_rank WELCOME = 0"
| "screen_rank LOADING = 1"
| "screen_rank QUIZ = 2"
| "screen_rank RESULT = 3"
| "screen_rank ERROR = 4"

instantiation AppState :: linorder
begin

definition less_eq_AppState :: "AppState \<Rightarrow> AppState \<Rightarrow> bool" where
  "x \<le> y \<longleftrightarrow> screen_rank x \<le> screen_rank y"

definition less_AppState :: "AppState \<Rightarrow> AppState \<Rightarrow> bool" where
  "x < y \<longleftrightarrow> screen_rank x < screen_rank y"

instance
proof
  fix x y z :: AppState
  show "x < y \<longleftrightarrow> x \<le> y \<and> \<not> y \<le> x" by (auto simp: less_eq_AppState_def less_AppState_def)
  show "x \<le> x" by (simp add: less_eq_AppState_def)
  show "x \<le> y \<Longrightarrow> y \<le> z \<Longrightarrow> x \<le> z" by (simp add: less_eq_AppState_def)
  show "x \<le> y \<Longrightarrow> y \<le> x \<Longrightarrow> x = y"
    by (cases x; cases y) (simp_all add: less_eq_AppState_def)
  show "x \<le> y \<or> y \<le> x" by (auto simp: less_eq_AppState_def)
qed

end

text \<open>
  The invariant \<open>types.ts\<close> states only in comments (and the provider's schema
  asks for): four options and a 0-based correct index among them.
\<close>

definition question_wf :: "Question \<Rightarrow> bool" where
  "question_wf q \<longleftrightarrow> length (options q) = 4 \<and> 0 \<le> correctAnswerIndex q \<and> correctAnswerIndex q \<le> 3"

end
