(* ===== verification/JS_Runtime.thy ===== *)
theory JS_Runtime
  imports Prelude Complex_Main
begin

text \<open>
  The JavaScript built-ins the program calls, modelled by what the ECMAScript
  standard specifies for them on the values the program passes:
  \<^item> \<open>Math.round\<close> on a finite number: the nearest integer, halves upward;
  \<^item> \<open>String.prototype.trim\<close>: strip white space and line terminators at both ends
    (characters are the 8-bit \<open>char\<close> of HOL, read as U+0000--U+00FF, so the white
    space modelled is tab, line feed, vertical tab, form feed, carriage return, space and
    the no-break space U+00A0);
  \<^item> \<open>Array.prototype.sort\<close> with a consistent comparator: stable since ES2019, so its
    result is the unique stable sorted permutation, computed here by insertion.
\<close>

text \<open>Reading \<open>xs[i]\<close> of an array: \<open>undefined\<close> (here \<open>None\<close>) past its end.\<close>

definition js_index :: "'a list \<Rightarrow> nat \<Rightarrow> 'a option" where
  "js_index xs i = (if i < length xs then Some (xs ! i) else None)"

definition js_round :: "real \<Rightarrow> int" where
  "js_round x = \<lfloor>x + 1 / 2\<rfloor>"

text \<open>
  The white space \<open>String.prototype.trim\<close> strips (ECMA-262 WhiteSpace and
  LineTerminator) among 8-bit characters, read as the code points U+0000--U+00FF as the
  JSON lexer reads them: tab, line feed, vertical tab, form feed, carriage return,
  space, and the no-break space U+00A0.
\<close>

definition js_whitespace :: "char \<Rightarrow> bool" where
  "js_whitespace c \<longleftrightarrow>
     of_char c = (32::nat) \<or> (9 \<le> (of_char c::nat) \<and> (of_char c::nat) \<le> 13) \<or> of_char c = (160::nat)"

definition js_trim :: "string \<Rightarrow> string" where
  "js_trim s = rev (dropWhile js_whitespace (rev (dropWhile js_whitespace s)))"

text \<open>
  The comparator returns a negative number when its first argument goes first; a
  stable sort keeps the input order where it returns 0.  Inserting each element, from
  the last to the first, in front of the first element it does not compare above,
  builds exactly that order.
\<close>

fun js_sort_insert :: "('a \<Rightarrow> 'a \<Rightarrow> int) \<Rightarrow> 'a \<Rightarrow> 'a list \<Rightarrow> 'a list" where
  "js_sort_insert cmp x [] = [x]"
| "js_sort_insert cmp x (y # ys) =
     (if cmp x y \<le> 0 then x # y # ys else y # js_sort_insert cmp x ys)"

definition js_sort :: "('a \<Rightarrow> 'a \<Rightarrow> int) \<Rightarrow> 'a list \<Rightarrow> 'a list" where
  "js_sort cmp xs = foldr (js_sort_insert cmp) xs []"

lemma js_index_Some: "i < length xs \<Longrightarrow> js_index xs i = Some (xs ! i)"
  by (simp add: js_index_def)

lemma js_index_None: "\<not> i < length xs \<Longrightarrow> js_index xs i = None"
  by (simp add: js_index_def)

subsection \<open>Math.round\<close>

lemma js_round_of_int [simp]: "js_round (of_int n) = n"
  by (simp add: js_round_def floor_eq_iff)

lemma js_round_of_nat [simp]: "js_round (of_nat n) = int n"
  using js_round_of_int [of "int n"] by simp

lemma js_round_mono: "x \<le> y \<Longrightarrow> js_round x \<le> js_round y"
  by (simp add: js_round_def floor_mono)

lemma js_round_bounds:
  assumes "of_int lo \<le> x" and "x \<le> of_int hi"
  shows "lo \<le> js_round x \<and> js_round x \<le> hi"
  using js_round_mono [OF assms(1)] js_round_mono [OF assms(2)] by simp

subsection \<open>String.prototype.trim\<close>

lemma js_trim_no_leading:
  assumes "js_trim s = c # cs"
  shows "\<not> js_whitespace c"
proof -
  let ?d = "dropWhile js_whitespace s"
  let ?r = "dropWhile js_whitespace (rev ?d)"
  have "rev ?d = takeWhile js_whitespace (rev ?d) @ ?r" by simp
  then have "?d = rev ?r @ rev (takeWhile js_whitespace (rev ?d))"
    by (metis rev_append rev_rev_ident)
  moreover from assms have "rev ?r = c # cs" by (simp add: js_trim_def)
  ultimately have "?d = c # cs @ rev (takeWhile js_whitespace (rev ?d))" by simp
  then show ?thesis using hd_dropWhile by (metis list.distinct(1) list.sel(1))
qed

lemma js_trim_no_trailing:
  assumes "js_trim s = cs @ [c]"
  shows "\<not> js_whitespace c"
proof -
  from assms have "dropWhile js_whitespace (rev (dropWhile js_whitespace s)) = c # rev cs"
    by (simp add: js_trim_def rev_swap)
  then show ?thesis by (metis hd_dropWhile list.sel(1) list.simps(3))
qed

lemma js_trim_Nil_iff: "js_trim s = [] \<longleftrightarrow> (\<forall>c\<in>set s. js_whitespace c)"
proof -
  have "js_trim s = [] \<longleftrightarrow> dropWhile js_whitespace (rev (dropWhile js_whitespace s)) = []"
    by (simp add: js_trim_def)
  also have "\<dots> \<longleftrightarrow> dropWhile js_whitespace s = []"
    by (auto dest: set_dropWhileD)
       (metis dropWhile_eq_Nil_conv hd_dropWhile list.set_sel(1))
  also have "\<dots> \<longleftrightarrow> (\<forall>c\<in>set s. js_whitespace c)"
    by simp
  finally show ?thesis .
qed

subsection \<open>Array.prototype.sort with a numeric-difference comparator\<close>

text \<open>
  A comparator of the form \<open>(a, b) => k(a) - k(b)\<close> sorts ascending by the key \<open>k\<close>;
  its stable result is the library's \<open>sort_key\<close>.
\<close>

lemma js_sort_insert_key:
  "js_sort_insert (\<lambda>a b. k a - k b) x xs = insort_key k x xs"
  by (induction xs) auto

lemma js_sort_key: "js_sort (\<lambda>a b. k a - k b) xs = sort_key k xs"
  by (induction xs) (simp_all add: js_sort_def js_sort_insert_key)

end
