(* ===== verification/Storage.thy ===== *)
theory Storage
  imports Types JS_Runtime
begin

text \<open>
  The leaderboard store of \<open>src/services/storage.ts\<close>.  The browser's
  \<open>localStorage\<close> is a map from keys to stored values.  The value under the
  leaderboard's key is kept at the level of what \<open>JSON.parse\<close> makes of it: the
  array of entries that \<open>JSON.stringify\<close> wrote (strings and integers survive the
  round trip unchanged), or text that does not parse.  \<open>crypto.randomUUID()\<close> and
  \<open>Date.now()\<close> are inputs of \<open>saveScore\<close>.
\<close>

datatype StoredBlob = Json_entries "LeaderboardEntry list" | Unparsable

type_synonym local_storage = "string \<rightharpoonup> StoredBlob"

definition STORAGE_KEY :: string where
  "STORAGE_KEY = ''ai_quiz_leaderboard''"

definition getLeaderboard :: "local_storage \<Rightarrow> LeaderboardEntry list" where
  "getLeaderboard st =
     (case st STORAGE_KEY of
        None \<Rightarrow> []
      | Some Unparsable \<Rightarrow> []
      | Some (Json_entries es) \<Rightarrow> es)"

definition score_cmp :: "LeaderboardEntry \<Rightarrow> LeaderboardEntry \<Rightarrow> int" where
  "score_cmp a b = score b - score a"

definition saveScore ::
  "local_storage \<Rightarrow> string \<Rightarrow> int \<Rightarrow> string \<Rightarrow> int \<Rightarrow> LeaderboardEntry list \<times> local_storage" where
  "saveScore st nm sc uuid now =
     (let current = getLeaderboard st;
          newEntry = \<lparr>entry_id = uuid, name = nm, score = sc, timestamp = now\<rparr>;
          updated = take 100 (js_sort score_cmp (current @ [newEntry]))
      in (updated, st(STORAGE_KEY \<mapsto> Json_entries updated)))"

definition resetLeaderboard :: "local_storage \<Rightarrow> local_storage" where
  "resetLeaderboard st = st(STORAGE_KEY := None)"

subsection \<open>The leaderboard invariant\<close>

definition sorted_desc :: "LeaderboardEntry list \<Rightarrow> bool" where
  "sorted_desc es \<longleftrightarrow> sorted (map (\<lambda>e. - score e) es)"

definition leaderboard_ok :: "LeaderboardEntry list \<Rightarrow> bool" where
  "leaderboard_ok es \<longleftrightarrow> sorted_desc es \<and> length es \<le> 100"

definition storage_ok :: "local_storage \<Rightarrow> bool" where
  "storage_ok st =
     (case st STORAGE_KEY of Some (Json_entries es) \<Rightarrow> leaderboard_ok es | _ \<Rightarrow> True)"

subsection \<open>The sort that saveScore calls\<close>

lemma js_sort_score_cmp: "js_sort score_cmp es = sort_key (\<lambda>e. - score e) es"
  using js_sort_key [of "\<lambda>e. - score e" es] by (simp add: score_cmp_def [abs_def])

lemma saveScore_fst:
  "fst (saveScore st nm sc uuid now) =
     take 100 (sort_key (\<lambda>e. - score e)
       (getLeaderboard st @ [\<lparr>entry_id = uuid, name = nm, score = sc, timestamp = now\<rparr>]))"
  by (simp add: saveScore_def Let_def js_sort_score_cmp)

lemma saveScore_snd:
  "snd (saveScore st nm sc uuid now) = st(STORAGE_KEY \<mapsto> Json_entries (fst (saveScore st nm sc uuid now)))"
  by (simp add: saveScore_def Let_def)

text \<open>
  The new entry is appended last, so the stable sort puts it behind every current
  entry whose score is at least its own: saveScore is an insertion into the
  current leaderboard in its stable order, followed by truncation to 100.
\<close>

lemma saveScore_insert:
  "fst (saveScore st nm sc uuid now) =
     take 100 (takeWhile (\<lambda>y. sc \<le> score y) (sort_key (\<lambda>e. - score e) (getLeaderboard st))
       @ \<lparr>entry_id = uuid, name = nm, score = sc, timestamp = now\<rparr>
       # dropWhile (\<lambda>y. sc \<le> score y) (sort_key (\<lambda>e. - score e) (getLeaderboard st)))"
proof -
  let ?f = "\<lambda>e::LeaderboardEntry. - score e"
  let ?e = "\<lparr>entry_id = uuid, name = nm, score = sc, timestamp = now\<rparr>"
  have "sort_key ?f (getLeaderboard st @ [?e]) = sort_key ?f (sort_key ?f (getLeaderboard st) @ [?e])"
    by (rule sort_key_snoc)
  also have "\<dots> = takeWhile (\<lambda>y. ?f y \<le> ?f ?e) (sort_key ?f (getLeaderboard st))
      @ ?e # dropWhile (\<lambda>y. ?f y \<le> ?f ?e) (sort_key ?f (getLeaderboard st))"
    by (rule sort_key_snoc_sorted) simp
  finally show ?thesis by (simp add: saveScore_fst)
qed

lemma sorted_desc_sort_key: "sorted_desc es \<Longrightarrow> sort_key (\<lambda>e. - score e) es = es"
  by (simp add: sorted_desc_def sort_key_id_if_sorted)

lemma length_filter_sort_key: "length (filter P (sort_key f xs)) = length (filter P xs)"
  by (metis mset_filter mset_sort size_mset)

lemma takeWhile_score_length:
  "length (takeWhile (\<lambda>y. sc \<le> score y) (sort_key (\<lambda>e. - score e) es))
     = length (filter (\<lambda>y. sc \<le> score y) es)"
proof -
  have "takeWhile (\<lambda>y. - score y \<le> - sc) (sort_key (\<lambda>e. - score e) es)
        = filter (\<lambda>y. - score y \<le> - sc) (sort_key (\<lambda>e. - score e) es)"
    by (rule takeWhile_le_filter) simp
  then show ?thesis by (simp add: length_filter_sort_key)
qed

lemma in_take_split:
  assumes "x \<notin> set as" "x \<notin> set bs"
  shows "x \<in> set (take n (as @ x # bs)) \<longleftrightarrow> length as < n"
  using assms by (auto simp: in_set_conv_nth nth_append)

lemma saveScore_ok: "leaderboard_ok (fst (saveScore st nm sc uuid now))"
  by (simp add: saveScore_fst leaderboard_ok_def sorted_desc_def take_map [symmetric])

lemma getLeaderboard_ok: "storage_ok st \<Longrightarrow> leaderboard_ok (getLeaderboard st)"
  by (auto simp: storage_ok_def getLeaderboard_def leaderboard_ok_def sorted_desc_def
           split: option.splits StoredBlob.splits)

lemma getLeaderboard_saveScore: "getLeaderboard (snd (saveScore st nm sc uuid now)) = fst (saveScore st nm sc uuid now)"
  by (subst saveScore_snd) (simp add: getLeaderboard_def)

lemma storage_ok_saveScore: "storage_ok (snd (saveScore st nm sc uuid now))"
  by (subst saveScore_snd) (simp add: storage_ok_def saveScore_ok)

lemma getLeaderboard_reset [simp]: "getLeaderboard (resetLeaderboard st) = []"
  by (simp add: resetLeaderboard_def getLeaderboard_def)

lemma storage_ok_reset: "storage_ok (resetLeaderboard st)"
  by (simp add: resetLeaderboard_def storage_ok_def)

subsection \<open>Properties of saveScore, resetLeaderboard and getLeaderboard\<close>

text \<open>
  C8: whatever the stored leaderboard was, the one saveScore returns (and persists)
  is sorted by descending score, has \<open>min 100 (n + 1)\<close> entries for \<open>n\<close> stored
  ones, and holds only stored entries and the new one, each at most as often as there:
  with fewer than 100 stored entries it holds exactly the stored entries plus the new one.
\<close>

theorem saveScore_sorted_bounded:
  "leaderboard_ok (fst (saveScore st nm sc uuid now)) \<and>
   length (fst (saveScore st nm sc uuid now)) = min 100 (Suc (length (getLeaderboard st))) \<and>
   mset (fst (saveScore st nm sc uuid now)) \<subseteq>#
     add_mset \<lparr>entry_id = uuid, name = nm, score = sc, timestamp = now\<rparr> (mset (getLeaderboard st))"
proof -
  let ?xs = "sort_key (\<lambda>e. - score e)
               (getLeaderboard st @ [\<lparr>entry_id = uuid, name = nm, score = sc, timestamp = now\<rparr>])"
  have "mset (take 100 ?xs) \<subseteq># mset ?xs" by (metis append_take_drop_id mset_append mset_subset_eq_add_left)
  then show ?thesis by (simp add: saveScore_ok) (simp add: saveScore_fst)
qed

text \<open>
  C13: on a leaderboard sorted by descending score, saveScore inserts the new entry
  behind every entry whose score is at least the new score, in front of the rest, and
  keeps the first 100.
\<close>

theorem saveScore_as_insertion:
  assumes "sorted_desc (getLeaderboard st)"
  shows "fst (saveScore st nm sc uuid now) =
     take 100 (takeWhile (\<lambda>y. sc \<le> score y) (getLeaderboard st)
       @ \<lparr>entry_id = uuid, name = nm, score = sc, timestamp = now\<rparr>
       # dropWhile (\<lambda>y. sc \<le> score y) (getLeaderboard st))"
  using saveScore_insert [of st nm sc uuid now] sorted_desc_sort_key [OF assms] by simp

theorem saveScore_as_insertion_witness:
  "sorted_desc (getLeaderboard Map.empty) \<and>
   fst (saveScore Map.empty ''Amy'' 80 ''u1'' 7) = [\<lparr>entry_id = ''u1'', name = ''Amy'', score = 80, timestamp = 7\<rparr>]"
proof -
  have h: "sorted_desc (getLeaderboard Map.empty)"
    by (simp add: getLeaderboard_def sorted_desc_def)
  show ?thesis using saveScore_as_insertion [OF h, of "''Amy''" 80 "''u1''" 7] h
    by (simp add: getLeaderboard_def)
qed

text \<open>
  C11: when the new entry's id is fresh, it survives the truncation exactly when fewer
  than 100 stored entries have a score at least as high as the new one (ties go to the
  older entries).
\<close>

theorem saveScore_keeps_new_iff:
  assumes "uuid \<notin> entry_id ` set (getLeaderboard st)"
  shows "uuid \<in> entry_id ` set (fst (saveScore st nm sc uuid now)) \<longleftrightarrow>
         length (filter (\<lambda>y. sc \<le> score y) (getLeaderboard st)) < 100"
proof -
  let ?S = "sort_key (\<lambda>e. - score e) (getLeaderboard st)"
  let ?A = "takeWhile (\<lambda>y. sc \<le> score y) ?S"
  let ?B = "dropWhile (\<lambda>y. sc \<le> score y) ?S"
  let ?e = "\<lparr>entry_id = uuid, name = nm, score = sc, timestamp = now\<rparr>"
  have ids: "uuid \<notin> entry_id ` set ?A" "uuid \<notin> entry_id ` set ?B"
    using assms by (auto dest: set_takeWhileD set_dropWhileD)
  then have notin: "?e \<notin> set ?A" "?e \<notin> set ?B" by force+
  let ?T = "take 100 (?A @ ?e # ?B)"
  have sub: "set ?T \<subseteq> insert ?e (set ?A \<union> set ?B)"
    using set_take_subset [of 100 "?A @ ?e # ?B"] by auto
  have "uuid \<in> entry_id ` set ?T \<longleftrightarrow> ?e \<in> set ?T"
  proof
    assume "uuid \<in> entry_id ` set ?T"
    then obtain x where x: "x \<in> set ?T" "entry_id x = uuid" by blast
    with sub ids have "x = ?e" by blast
    with x show "?e \<in> set ?T" by simp
  next
    assume "?e \<in> set ?T"
    then show "uuid \<in> entry_id ` set ?T" by (metis LeaderboardEntry.select_convs(1) imageI)
  qed
  also have "\<dots> \<longleftrightarrow> length ?A < 100" using notin by (rule in_take_split)
  finally show ?thesis by (simp add: saveScore_insert takeWhile_score_length)
qed

theorem saveScore_keeps_new_iff_witness:
  "''u1'' \<notin> entry_id ` set (getLeaderboard Map.empty) \<and>
   ''u1'' \<in> entry_id ` set (fst (saveScore Map.empty ''Amy'' 80 ''u1'' 7))"
proof -
  have h: "''u1'' \<notin> entry_id ` set (getLeaderboard Map.empty)" by (simp add: getLeaderboard_def)
  show ?thesis using saveScore_keeps_new_iff [OF h, of "''Amy''" 80 7] h
    by (simp add: getLeaderboard_def)
qed

text \<open>
  C12: the new entry is not always in the returned leaderboard: on a full board of
  100 entries scoring at least as much, the just-recorded attempt is cut off.  The
  design's testable property "record returns a sequence containing the new entry
  exactly once" does not hold for the code.
\<close>

theorem saveScore_may_drop_new_entry:
  "let full = replicate 100 \<lparr>entry_id = ''a'', name = ''A'', score = 100, timestamp = 0\<rparr>;
       st = [STORAGE_KEY \<mapsto> Json_entries full]
   in ''b'' \<notin> entry_id ` set (getLeaderboard st) \<and>
      ''b'' \<notin> entry_id ` set (fst (saveScore st ''B'' 50 ''b'' 1))"
proof -
  let ?a = "\<lparr>entry_id = ''a'', name = ''A'', score = 100, timestamp = 0\<rparr>"
  let ?full = "replicate 100 ?a"
  have sorted: "sorted_desc ?full" by (simp add: sorted_desc_def)
  have "fst (saveScore [STORAGE_KEY \<mapsto> Json_entries ?full] ''B'' 50 ''b'' 1) = ?full"
    using saveScore_insert [of "[STORAGE_KEY \<mapsto> Json_entries ?full]" "''B''" 50 "''b''" 1]
    by (simp add: getLeaderboard_def sorted_desc_sort_key [OF sorted])
  then show ?thesis by (simp add: getLeaderboard_def Let_def)
qed

text \<open>
  C14: saveScore is stable: the entries of any one score appear in the result in the
  order they had in the stored leaderboard followed by the new entry (a prefix of that
  order, since truncation may cut the tail).
\<close>

theorem saveScore_stable:
  "\<exists>n. filter (\<lambda>y. score y = k) (fst (saveScore st nm sc uuid now)) =
       take n (filter (\<lambda>y. score y = k)
         (getLeaderboard st @ [\<lparr>entry_id = uuid, name = nm, score = sc, timestamp = now\<rparr>]))"
proof -
  let ?L = "getLeaderboard st @ [\<lparr>entry_id = uuid, name = nm, score = sc, timestamp = now\<rparr>]"
  have P: "(\<lambda>y. score y = k) = (\<lambda>y. - score y = - k)" by auto
  obtain n where "filter (\<lambda>y. score y = k) (take 100 (sort_key (\<lambda>e. - score e) ?L))
      = take n (filter (\<lambda>y. score y = k) (sort_key (\<lambda>e. - score e) ?L))"
    using filter_take_prefix by blast
  moreover have "filter (\<lambda>y. score y = k) (sort_key (\<lambda>e. - score e) ?L) = filter (\<lambda>y. score y = k) ?L"
    unfolding P by (rule sort_key_stable)
  ultimately show ?thesis by (auto simp: saveScore_fst)
qed

text \<open>
  C15: recording into a full leaderboard of 100 entries removes exactly one entry of
  the 100 stored ones and the new one, and the removed entry scores no more than any
  entry that is kept.
\<close>

theorem saveScore_truncation:
  assumes "length (getLeaderboard st) = 100"
  shows "\<exists>x. mset (getLeaderboard st) + {#\<lparr>entry_id = uuid, name = nm, score = sc, timestamp = now\<rparr>#}
              = mset (fst (saveScore st nm sc uuid now)) + {#x#}
           \<and> (\<forall>y\<in>set (fst (saveScore st nm sc uuid now)). score x \<le> score y)"
proof -
  let ?e = "\<lparr>entry_id = uuid, name = nm, score = sc, timestamp = now\<rparr>"
  define L where "L = sort_key (\<lambda>e. - score e) (getLeaderboard st @ [?e])"
  have len: "length L = Suc 100" using assms by (simp add: L_def)
  have "take (Suc 100) L = take 100 L @ [L ! 100]"
    by (rule take_Suc_conv_app_nth) (simp only: len lessI)
  moreover have "take (Suc 100) L = L" by (simp only: len take_all order.refl)
  ultimately have split: "L = take 100 L @ [L ! 100]" by simp
  have "mset (getLeaderboard st) + {#?e#} = mset L" by (simp add: L_def)
  also from split have "\<dots> = mset (take 100 L @ [L ! 100])" by (rule arg_cong)
  finally have ms: "mset (getLeaderboard st) + {#?e#} = mset (take 100 L) + {#L ! 100#}" by simp
  have "sorted (map (\<lambda>e. - score e) L)" by (simp add: L_def)
  with split have "sorted (map (\<lambda>e. - score e) (take 100 L @ [L ! 100]))" by metis
  then have "\<forall>y\<in>set (take 100 L). score (L ! 100) \<le> score y"
    by (simp add: sorted_append)
  with ms show ?thesis by (auto simp: saveScore_fst L_def)
qed

theorem saveScore_truncation_witness:
  "let st = [STORAGE_KEY \<mapsto> Json_entries (replicate 100 \<lparr>entry_id = ''a'', name = ''A'', score = 90, timestamp = 0\<rparr>)]
   in length (getLeaderboard st) = 100 \<and>
      (\<exists>x. mset (getLeaderboard st) + {#\<lparr>entry_id = ''b'', name = ''B'', score = 95, timestamp = 1\<rparr>#}
              = mset (fst (saveScore st ''B'' 95 ''b'' 1)) + {#x#}
           \<and> (\<forall>y\<in>set (fst (saveScore st ''B'' 95 ''b'' 1)). score x \<le> score y))"
  unfolding Let_def
proof (rule conjI)
  let ?st = "[STORAGE_KEY \<mapsto> Json_entries (replicate 100 \<lparr>entry_id = ''a'', name = ''A'', score = 90, timestamp = 0\<rparr>)]"
  show h: "length (getLeaderboard ?st) = 100" by (simp add: getLeaderboard_def)
  show "\<exists>x. mset (getLeaderboard ?st) + {#\<lparr>entry_id = ''b'', name = ''B'', score = 95, timestamp = 1\<rparr>#}
              = mset (fst (saveScore ?st ''B'' 95 ''b'' 1)) + {#x#}
           \<and> (\<forall>y\<in>set (fst (saveScore ?st ''B'' 95 ''b'' 1)). score x \<le> score y)"
    by (rule saveScore_truncation [OF h])
qed

text \<open>
  C24: what saveScore returns is what it persists: a later getLeaderboard reads
  exactly the returned list, the stored value is a well-formed leaderboard, and no
  other key of the storage changes.
\<close>

theorem saveScore_persists:
  "getLeaderboard (snd (saveScore st nm sc uuid now)) = fst (saveScore st nm sc uuid now) \<and>
   storage_ok (snd (saveScore st nm sc uuid now)) \<and>
   (snd (saveScore st nm sc uuid now))(STORAGE_KEY := None) = st(STORAGE_KEY := None)"
proof -
  have "(snd (saveScore st nm sc uuid now))(STORAGE_KEY := None) = st(STORAGE_KEY := None)"
    by (subst saveScore_snd) simp
  with getLeaderboard_saveScore storage_ok_saveScore show ?thesis by blast
qed

text \<open>
  After resetLeaderboard the leaderboard reads as empty, the storage is
  well-formed, and the next saveScore returns exactly the one new entry.
\<close>

lemma resetLeaderboard_clears:
  "getLeaderboard (resetLeaderboard st) = [] \<and> storage_ok (resetLeaderboard st) \<and>
   fst (saveScore (resetLeaderboard st) nm sc uuid now) =
     [\<lparr>entry_id = uuid, name = nm, score = sc, timestamp = now\<rparr>]"
  by (simp add: storage_ok_reset saveScore_fst)

end
