(* ===== verification/Gemini.thy ===== *)
theory Gemini
  imports Types JS_Runtime
begin

text \<open>
  The question provider of \<open>src/services/gemini.ts\<close>.  The API key is read once,
  when the module loads, from \<open>process.env\<close> (absent in a plain browser).  The
  upstream call is an input: it fails, or answers with a \<open>text\<close> that is absent or
  empty, or with text that \<open>JSON.parse\<close> rejects, or parses to a non-array, or
  parses to an array of question objects (whatever the schema asked for: nothing on
  the client checks the number of items, the number of options or the range of the
  correct index).  Every \<open>throw\<close> is a value of \<open>GenError\<close>.  The parameter \<open>count\<close> is renamed \<open>requested\<close> (\<open>count\<close> is a constant of the multiset library); it only enters the prompt.
\<close>

definition getApiKey :: "(string \<rightharpoonup> string) option \<Rightarrow> string option" where
  "getApiKey process_env = (case process_env of None \<Rightarrow> None | Some env \<Rightarrow> env ''API_KEY'')"

text \<open>JavaScript truthiness of a value that is a string or \<open>undefined\<close>.\<close>

definition js_truthy_str :: "string option \<Rightarrow> bool" where
  "js_truthy_str v = (case v of None \<Rightarrow> False | Some s \<Rightarrow> s \<noteq> [])"

definition client_api_key :: "string option \<Rightarrow> string" where
  "client_api_key apiKey = (if js_truthy_str apiKey then the apiKey else ''MISSING_KEY'')"

datatype ParsedText = Json_array "Question list" | Json_non_array | Json_syntax_error

datatype GeminiReply = Request_failed | Response "ParsedText option"

datatype GenError = Missing_api_key | Upstream_error | No_data | Syntax_error | Map_not_a_function

definition reindex :: "Question list \<Rightarrow> Question list" where
  "reindex qs = map (\<lambda>(i, q). q\<lparr>question_id := int i + 1\<rparr>) (enumerate 0 qs)"

definition generateQuizQuestions :: "string option \<Rightarrow> nat \<Rightarrow> GeminiReply \<Rightarrow> GenError + Question list" where
  "generateQuizQuestions apiKey requested reply =
     (if \<not> js_truthy_str apiKey then Inl Missing_api_key
      else case reply of
        Request_failed \<Rightarrow> Inl Upstream_error
      | Response None \<Rightarrow> Inl No_data
      | Response (Some Json_syntax_error) \<Rightarrow> Inl Syntax_error
      | Response (Some Json_non_array) \<Rightarrow> Inl Map_not_a_function
      | Response (Some (Json_array data)) \<Rightarrow> Inr (reindex data))"

subsection \<open>Re-indexing\<close>

lemma length_reindex [simp]: "length (reindex qs) = length qs"
  by (simp add: reindex_def)

lemma nth_reindex:
  "i < length qs \<Longrightarrow> reindex qs ! i = (qs ! i)\<lparr>question_id := int i + 1\<rparr>"
  by (simp add: reindex_def nth_enumerate_eq)

lemma reindex_ids: "map question_id (reindex qs) = map (\<lambda>i. int i + 1) [0..<length qs]"
proof (rule nth_equalityI)
  show "length (map question_id (reindex qs)) = length (map (\<lambda>i. int i + 1) [0..<length qs])"
    by simp
  fix i
  assume "i < length (map question_id (reindex qs))"
  then show "map question_id (reindex qs) ! i = map (\<lambda>i. int i + 1) [0..<length qs] ! i"
    by (simp add: nth_reindex)
qed

lemma reindex_from_fields:
  "map (\<lambda>q. q\<lparr>question_id := 0\<rparr>) (map (\<lambda>(i, q). q\<lparr>question_id := int i + 1\<rparr>) (enumerate n qs))
   = map (\<lambda>q. q\<lparr>question_id := 0\<rparr>) qs"
  by (induction qs arbitrary: n) simp_all

lemma reindex_fields:
  "map (\<lambda>q. q\<lparr>question_id := 0\<rparr>) (reindex qs) = map (\<lambda>q. q\<lparr>question_id := 0\<rparr>) qs"
  unfolding reindex_def by (rule reindex_from_fields)

lemma reindex_Nil_iff [simp]: "reindex qs = [] \<longleftrightarrow> qs = []"
  by (metis length_reindex length_0_conv)

lemma generateQuizQuestions_Inr:
  "generateQuizQuestions apiKey requested reply = Inr qs' \<longleftrightarrow>
     js_truthy_str apiKey \<and> (\<exists>data. reply = Response (Some (Json_array data)) \<and> qs' = reindex data)"
  by (auto simp: generateQuizQuestions_def split: GeminiReply.splits option.splits ParsedText.splits)


subsection \<open>Properties of generateQuizQuestions\<close>

text \<open>
  C29: a successful batch is the parsed array with its ids replaced by 1, 2, ..., n
  in order, every other field of every question unchanged.
\<close>

theorem generateQuizQuestions_renumbers:
  assumes "generateQuizQuestions apiKey requested reply = Inr qs'"
  shows "map question_id qs' = map (\<lambda>i. int i + 1) [0..<length qs'] \<and>
         (\<exists>data. reply = Response (Some (Json_array data)) \<and>
                 map (\<lambda>q. q\<lparr>question_id := 0\<rparr>) qs' = map (\<lambda>q. q\<lparr>question_id := 0\<rparr>) data)"
  using assms by (auto simp: generateQuizQuestions_Inr reindex_ids reindex_fields)

theorem generateQuizQuestions_renumbers_witness:
  "let q = \<lparr>question_id = 42, question_text = ''Q'', options = [''a'', ''b'', ''c'', ''d''],
            correctAnswerIndex = 3, explanation = ''E''\<rparr>
   in generateQuizQuestions (Some ''key'') 20 (Response (Some (Json_array [q, q]))) =
        Inr [q\<lparr>question_id := 1\<rparr>, q\<lparr>question_id := 2\<rparr>] \<and>
      map question_id [q\<lparr>question_id := 1\<rparr>, q\<lparr>question_id := 2\<rparr>] = map (\<lambda>i. int i + 1) [0..<2]"
proof -
  let ?q = "\<lparr>question_id = 42, question_text = ''Q'', options = [''a'', ''b'', ''c'', ''d''],
             correctAnswerIndex = 3, explanation = ''E''\<rparr>"
  have h: "generateQuizQuestions (Some ''key'') 20 (Response (Some (Json_array [?q, ?q]))) =
             Inr [?q\<lparr>question_id := 1\<rparr>, ?q\<lparr>question_id := 2\<rparr>]"
    by (simp add: generateQuizQuestions_def js_truthy_str_def reindex_def)
  show ?thesis using generateQuizQuestions_renumbers [OF h] h by (simp add: Let_def upt_rec)
qed

text \<open>
  C31: generateQuizQuestions fails exactly when the key is unusable or the reply is
  not a text that parses to an array: every upstream failure, empty answer, syntax
  error and non-array payload is a rejection, never a partial batch.
\<close>

theorem generateQuizQuestions_fails_iff:
  "isl (generateQuizQuestions apiKey requested reply) \<longleftrightarrow>
     \<not> js_truthy_str apiKey \<or> (\<forall>data. reply \<noteq> Response (Some (Json_array data)))"
  by (auto simp: generateQuizQuestions_def split: GeminiReply.splits option.splits ParsedText.splits)

theorem generateQuizQuestions_fails_iff_witness:
  "isl (generateQuizQuestions (Some ''key'') 20 Request_failed)"
proof -
  have "\<forall>data. Request_failed \<noteq> Response (Some (Json_array data))" by simp
  then show ?thesis using generateQuizQuestions_fails_iff [of "Some ''key''" 20 Request_failed] by blast
qed

text \<open>
  C32: nothing checks the batch: a parsed array with one question of one option and
  an out-of-range correct index is accepted as a batch of one although 20 were asked
  for, and so is an empty array.
\<close>

theorem generateQuizQuestions_unvalidated:
  "let bad = \<lparr>question_id = 7, question_text = ''Q'', options = [''a''],
              correctAnswerIndex = 5, explanation = ''E''\<rparr>
   in generateQuizQuestions (Some ''key'') 20 (Response (Some (Json_array [bad]))) =
        Inr [bad\<lparr>question_id := 1\<rparr>] \<and>
      \<not> question_wf (bad\<lparr>question_id := 1\<rparr>) \<and> length [bad] \<noteq> 20 \<and>
      generateQuizQuestions (Some ''key'') 20 (Response (Some (Json_array []))) = Inr []"
  by (simp add: generateQuizQuestions_def js_truthy_str_def reindex_def question_wf_def)

end
