(* ===== verification/Quiz.thy ===== *)
theory Quiz
  imports Types JS_Runtime
begin

text \<open>
  The quiz screen of \<open>src/App.tsx\<close> (\<open>QuizScreen\<close>, lines 99--218).  Its
  local React state is a record; \<open>handleOptionClick\<close> and \<open>handleNext\<close> are
  functions of the question list and that state.  The running score is a JavaScript
  number accumulated by \<open>+ 100 / questions.length\<close>; it is modelled as a real
  number (the exact sum; floating-point rounding is not modelled).  The screen renders
  only while \<open>questions[currentIndex]\<close> exists; its option buttons are disabled once
  the question is answered, and the next button is rendered only then.
\<close>

record QuizScreenState =
  currentIndex :: nat
  quiz_score :: real
  selectedOption :: "nat option"
  isAnswered :: bool

definition quiz_init :: QuizScreenState where
  "quiz_init = \<lparr>currentIndex = 0, quiz_score = 0, selectedOption = None, isAnswered = False\<rparr>"

text \<open>Reading \<open>correctAnswerIndex\<close> of an undefined question throws a TypeError.\<close>

datatype QuizError = Undefined_question

definition handleOptionClick :: "Question list \<Rightarrow> nat \<Rightarrow> QuizScreenState \<Rightarrow> QuizError + QuizScreenState" where
  "handleOptionClick qs index s =
     (if isAnswered s then Inr s
      else case js_index qs (currentIndex s) of
        None \<Rightarrow> Inl Undefined_question
      | Some q \<Rightarrow> Inr (s\<lparr>selectedOption := Some index, isAnswered := True,
                       quiz_score := (if int index = correctAnswerIndex q
                                      then quiz_score s + 100 / real (length qs)
                                      else quiz_score s)\<rparr>))"

text \<open>\<open>handleNext\<close> either moves on or calls \<open>onFinish(Math.round(score))\<close>.\<close>

datatype NextResult = Continue QuizScreenState | Finish int

definition handleNext :: "Question list \<Rightarrow> QuizScreenState \<Rightarrow> NextResult" where
  "handleNext qs s =
     (if int (currentIndex s) < int (length qs) - 1
      then Continue (s\<lparr>currentIndex := currentIndex s + 1, selectedOption := None, isAnswered := False\<rparr>)
      else Finish (js_round (quiz_score s)))"

text \<open>The render reads \<open>currentQuestion.text\<close> and \<open>currentQuestion.options\<close>.\<close>

definition quiz_renders :: "Question list \<Rightarrow> QuizScreenState \<Rightarrow> bool" where
  "quiz_renders qs s \<longleftrightarrow> currentIndex s < length qs"

definition option_enabled :: "Question list \<Rightarrow> QuizScreenState \<Rightarrow> nat \<Rightarrow> bool" where
  "option_enabled qs s i \<longleftrightarrow>
     \<not> isAnswered s \<and> (case js_index qs (currentIndex s) of None \<Rightarrow> False | Some q \<Rightarrow> i < length (options q))"

datatype QuizEvent = Click_option nat | Click_next

text \<open>
  One user event on the quiz screen: a click on an enabled option button runs
  \<open>handleOptionClick\<close>, a click on the next button (present once answered) runs
  \<open>handleNext\<close>; a click on a control that is disabled or absent does nothing.
\<close>

definition quiz_event :: "Question list \<Rightarrow> QuizScreenState \<Rightarrow> QuizEvent \<Rightarrow> NextResult" where
  "quiz_event qs s ev =
     (case ev of
        Click_option i \<Rightarrow>
          (if option_enabled qs s i
           then (case handleOptionClick qs i s of Inl _ \<Rightarrow> Continue s | Inr s' \<Rightarrow> Continue s')
           else Continue s)
      | Click_next \<Rightarrow> (if isAnswered s then handleNext qs s else Continue s))"

fun quiz_run :: "Question list \<Rightarrow> QuizScreenState \<Rightarrow> QuizEvent list \<Rightarrow> NextResult" where
  "quiz_run qs s [] = Continue s"
| "quiz_run qs s (ev # evs) =
     (case quiz_event qs s ev of Continue s' \<Rightarrow> quiz_run qs s' evs | Finish sc \<Rightarrow> Finish sc)"

subsection \<open>The scoring the quiz promises\<close>

text \<open>
  The abstract specification: answering question \<open>i\<close> with option \<open>ans ! i\<close>, the
  final score is the number of correct answers times \<open>100 / n\<close>, rounded once.
\<close>

definition correct_count :: "Question list \<Rightarrow> nat list \<Rightarrow> nat" where
  "correct_count qs ans = length (filter (\<lambda>(q, a). int a = correctAnswerIndex q) (zip qs ans))"

definition quiz_spec :: "Question list \<Rightarrow> nat list \<Rightarrow> int" where
  "quiz_spec qs ans = js_round (real (correct_count qs ans) * (100 / real (length qs)))"

definition play :: "nat list \<Rightarrow> QuizEvent list" where
  "play ans = concat (map (\<lambda>a. [Click_option a, Click_next]) ans)"

definition answers_valid :: "Question list \<Rightarrow> nat list \<Rightarrow> bool" where
  "answers_valid qs ans \<longleftrightarrow>
     length ans = length qs \<and> list_all2 (\<lambda>q a. a < length (options q)) qs ans"


text \<open>
  The invariant of a mounted quiz screen: the current question exists, a selection is
  recorded exactly when the question is answered, and the score is a whole number of
  per-question points, at most one per question answered so far.
\<close>

definition quiz_inv :: "Question list \<Rightarrow> QuizScreenState \<Rightarrow> bool" where
  "quiz_inv qs s \<longleftrightarrow>
     currentIndex s < length qs \<and> (selectedOption s = None) = (\<not> isAnswered s) \<and>
     (\<exists>m. m \<le> currentIndex s + (if isAnswered s then 1 else 0) \<and>
          quiz_score s = real m * (100 / real (length qs)))"

text \<open>\<open>m\<close> rounds of "click the first option, then next".\<close>

definition quiz_rounds :: "nat \<Rightarrow> QuizEvent list" where
  "quiz_rounds m = concat (replicate m [Click_option 0, Click_next])"

subsection \<open>Run of a whole quiz\<close>

lemma play_Cons [simp]: "play (a # ans) = Click_option a # Click_next # play ans"
  by (simp add: play_def)

lemma play_Nil [simp]: "play [] = []"
  by (simp add: play_def)

lemma correct_count_Cons [simp]:
  "correct_count (q # qs) (a # ans) = (if int a = correctAnswerIndex q then 1 else 0) + correct_count qs ans"
  by (simp add: correct_count_def)

lemma correct_count_Nil [simp]: "correct_count qs [] = 0"
  by (simp add: correct_count_def)

lemma quiz_run_play_from:
  assumes "\<not> isAnswered s" and "currentIndex s = k" and "k + length rest = length qs"
    and "list_all2 (\<lambda>q a. a < length (options q)) (drop k qs) rest" and "rest \<noteq> []"
  shows "quiz_run qs s (play rest) =
           Finish (js_round (quiz_score s + real (correct_count (drop k qs) rest) * (100 / real (length qs))))"
  using assms
proof (induction rest arbitrary: s k)
  case Nil
  then show ?case by simp
next
  case (Cons a rest)
  let ?n = "length qs"
  let ?c = "100 / real ?n"
  have k: "k < ?n" using Cons.prems(3) by simp
  then have drop: "drop k qs = qs ! k # drop (Suc k) qs" by (simp add: Cons_nth_drop_Suc)
  let ?q = "qs ! k"
  let ?b = "int a = correctAnswerIndex ?q"
  have a: "a < length (options ?q)" and rest: "list_all2 (\<lambda>q a. a < length (options q)) (drop (Suc k) qs) rest"
    using Cons.prems(4) drop by simp_all
  let ?s1 = "s\<lparr>selectedOption := Some a, isAnswered := True,
                quiz_score := (if ?b then quiz_score s + ?c else quiz_score s)\<rparr>"
  have click: "quiz_event qs s (Click_option a) = Continue ?s1"
    using Cons.prems(1,2) k a
    by (simp add: quiz_event_def option_enabled_def handleOptionClick_def js_index_Some)
  show ?case
  proof (cases "rest = []")
    case True
    then have "k = ?n - 1" using Cons.prems(3) by simp
    then have "quiz_event qs ?s1 Click_next = Finish (js_round (quiz_score ?s1))"
      using Cons.prems(2) k by (simp add: quiz_event_def handleNext_def)
    with click True drop show ?thesis by simp
  next
    case False
    let ?s2 = "?s1\<lparr>currentIndex := Suc k, selectedOption := None, isAnswered := False\<rparr>"
    have "0 < length rest" using False by simp
    moreover have "k + Suc (length rest) = ?n" using Cons.prems(3) by simp
    ultimately have "Suc k < ?n" by linarith
    then have "int k < int ?n - 1" by linarith
    then have nxt: "quiz_event qs ?s1 Click_next = Continue ?s2"
      using Cons.prems(2) by (simp add: quiz_event_def handleNext_def)
    have IH: "quiz_run qs ?s2 (play rest) =
        Finish (js_round (quiz_score ?s2 + real (correct_count (drop (Suc k) qs) rest) * ?c))"
      using Cons.prems(3) rest False by (intro Cons.IH) simp_all
    have "quiz_score ?s2 + real (correct_count (drop (Suc k) qs) rest) * ?c
          = quiz_score s + real (correct_count (drop k qs) (a # rest)) * ?c"
      by (simp add: drop algebra_simps)
    with click nxt IH show ?thesis by simp
  qed
qed


subsection \<open>Invariant of the quiz screen\<close>

lemma list_all2_replicate_left:
  "list_all2 P (replicate n x) ys \<longleftrightarrow> length ys = n \<and> (\<forall>y\<in>set ys. P x y)"
proof (induction ys arbitrary: n)
  case Nil
  then show ?case by auto
next
  case (Cons y ys)
  then show ?case by (cases n) auto
qed

lemma quiz_inv_init: "qs \<noteq> [] \<Longrightarrow> quiz_inv qs quiz_init"
  by (simp add: quiz_inv_def quiz_init_def)

lemma quiz_inv_renders: "quiz_inv qs s \<Longrightarrow> quiz_renders qs s"
  by (simp add: quiz_inv_def quiz_renders_def)

lemma option_enabled_click:
  assumes "option_enabled qs s i"
  shows "handleOptionClick qs i s =
           Inr (s\<lparr>selectedOption := Some i, isAnswered := True,
                  quiz_score := (if int i = correctAnswerIndex (qs ! currentIndex s)
                                 then quiz_score s + 100 / real (length qs) else quiz_score s)\<rparr>)"
  using assms by (auto simp: option_enabled_def handleOptionClick_def js_index_def split: if_splits)

lemma units_le_100:
  assumes "m \<le> n" and "0 < n"
  shows "0 \<le> real m * (100 / real n) \<and> real m * (100 / real n) \<le> 100"
proof -
  have "real m * (100 / real n) \<le> real n * (100 / real n)"
    using assms(1) by (intro mult_right_mono) simp_all
  also have "\<dots> = 100" using assms(2) by simp
  finally show ?thesis by simp
qed

lemma quiz_event_option_inv:
  assumes "quiz_inv qs s" and "quiz_event qs s (Click_option i) = Continue s'"
  shows "quiz_inv qs s'"
proof (cases "option_enabled qs s i")
  case True
  then have na: "\<not> isAnswered s" by (simp add: option_enabled_def)
  obtain m where m: "m \<le> currentIndex s" "quiz_score s = real m * (100 / real (length qs))"
    using assms(1) na by (auto simp: quiz_inv_def)
  have s': "s' = s\<lparr>selectedOption := Some i, isAnswered := True,
                  quiz_score := (if int i = correctAnswerIndex (qs ! currentIndex s)
                                 then quiz_score s + 100 / real (length qs) else quiz_score s)\<rparr>"
    using assms(2) True by (simp add: quiz_event_def option_enabled_click)
  have "\<exists>m'. m' \<le> currentIndex s + 1 \<and> quiz_score s' = real m' * (100 / real (length qs))"
  proof (cases "int i = correctAnswerIndex (qs ! currentIndex s)")
    case True
    then show ?thesis using m s' by (intro exI [of _ "Suc m"]) (simp add: add_divide_distrib algebra_simps)
  next
    case False
    then show ?thesis using m s' by (intro exI [of _ m]) simp
  qed
  with assms(1) s' show ?thesis by (simp add: quiz_inv_def)
next
  case False
  with assms show ?thesis by (simp add: quiz_event_def)
qed

lemma quiz_event_next_inv:
  assumes "quiz_inv qs s" and "quiz_event qs s Click_next = Continue s'"
  shows "quiz_inv qs s'"
proof (cases "isAnswered s")
  case True
  with assms have s': "s' = s\<lparr>currentIndex := currentIndex s + 1, selectedOption := None, isAnswered := False\<rparr>"
    and lt: "int (currentIndex s) < int (length qs) - 1"
    by (auto simp: quiz_event_def handleNext_def split: if_splits)
  obtain m where "m \<le> currentIndex s + 1" "quiz_score s = real m * (100 / real (length qs))"
    using assms(1) True by (auto simp: quiz_inv_def)
  with s' lt show ?thesis by (auto simp: quiz_inv_def)
next
  case False
  with assms show ?thesis by (simp add: quiz_event_def)
qed


lemma quiz_event_inv:
  assumes "quiz_inv qs s" and "quiz_event qs s ev = Continue s'"
  shows "quiz_inv qs s'"
  using assms by (cases ev) (auto intro: quiz_event_option_inv quiz_event_next_inv)

lemma quiz_event_finish_bounds:
  assumes "quiz_inv qs s" and "quiz_event qs s ev = Finish sc"
  shows "0 \<le> sc \<and> sc \<le> 100"
proof -
  have a: "isAnswered s" and sc: "sc = js_round (quiz_score s)"
    using assms(2) by (auto simp: quiz_event_def handleNext_def split: QuizEvent.splits if_splits NextResult.splits sum.splits)
  obtain m where m: "m \<le> currentIndex s + 1" "quiz_score s = real m * (100 / real (length qs))"
    and k: "currentIndex s < length qs"
    using assms(1) a by (auto simp: quiz_inv_def)
  then have "m \<le> length qs" and "0 < length qs" by linarith+
  then have "0 \<le> quiz_score s \<and> quiz_score s \<le> 100" using units_le_100 m(2) by simp
  then show ?thesis using js_round_bounds [of 0 "quiz_score s" 100] sc by simp
qed

subsection \<open>Progress of the quiz screen\<close>

lemma quiz_run_append:
  "quiz_run qs s (xs @ ys) =
     (case quiz_run qs s xs of Continue s' \<Rightarrow> quiz_run qs s' ys | Finish sc \<Rightarrow> Finish sc)"
  by (induction xs arbitrary: s) (simp_all split: NextResult.splits)

text \<open>
  Clicking the first option and then next answers the current question (the click is
  ignored if it is already answered) and either finishes the quiz or moves to the next
  question, keeping the invariant.
\<close>

lemma quiz_answer_step:
  assumes "quiz_inv qs s" and "options (qs ! currentIndex s) \<noteq> []"
  shows "(\<exists>sc. quiz_run qs s [Click_option 0, Click_next] = Finish sc) \<or>
         (\<exists>s'. quiz_run qs s [Click_option 0, Click_next] = Continue s' \<and> quiz_inv qs s' \<and>
               currentIndex s' = Suc (currentIndex s))"
proof -
  obtain s1 where s1: "quiz_event qs s (Click_option 0) = Continue s1"
    by (cases "option_enabled qs s 0"; cases "handleOptionClick qs 0 s") (auto simp: quiz_event_def)
  have inv1: "quiz_inv qs s1" using quiz_event_option_inv [OF assms(1) s1] .
  have ans1: "isAnswered s1" and idx1: "currentIndex s1 = currentIndex s"
  proof -
    have k: "currentIndex s < length qs" using assms(1) by (simp add: quiz_inv_def)
    have "isAnswered s1 \<and> currentIndex s1 = currentIndex s"
    proof (cases "isAnswered s")
      case True
      then show ?thesis using s1 by (simp add: quiz_event_def option_enabled_def)
    next
      case False
      then have "option_enabled qs s 0"
        using k assms(2) by (simp add: option_enabled_def js_index_Some)
      then show ?thesis using s1 by (auto simp: quiz_event_def option_enabled_click)
    qed
    then show "isAnswered s1" and "currentIndex s1 = currentIndex s" by simp_all
  qed
  show ?thesis
  proof (cases "quiz_event qs s1 Click_next")
    case (Continue s2)
    then have "currentIndex s2 = Suc (currentIndex s1)"
      using ans1 by (auto simp: quiz_event_def handleNext_def split: if_splits)
    then show ?thesis
      using Continue s1 idx1 quiz_event_next_inv [OF inv1 Continue] by simp
  next
    case (Finish sc)
    then show ?thesis using s1 by simp
  qed
qed

text \<open>When every remaining question offers an option, some clicks finish the quiz.\<close>

lemma quiz_finishes:
  assumes "quiz_inv qs s" and "list_all (\<lambda>q. options q \<noteq> []) (drop (currentIndex s) qs)"
  shows "\<exists>evs sc. quiz_run qs s evs = Finish sc"
  using assms
proof (induction "length qs - currentIndex s" arbitrary: s rule: less_induct)
  case less
  have k: "currentIndex s < length qs" using less.prems(1) by (simp add: quiz_inv_def)
  then have "drop (currentIndex s) qs = qs ! currentIndex s # drop (Suc (currentIndex s)) qs"
    by (simp add: Cons_nth_drop_Suc)
  then have opt: "options (qs ! currentIndex s) \<noteq> []"
    and rest: "list_all (\<lambda>q. options q \<noteq> []) (drop (Suc (currentIndex s)) qs)"
    using less.prems(2) by simp_all
  from quiz_answer_step [OF less.prems(1) opt] show ?case
  proof
    assume "\<exists>sc. quiz_run qs s [Click_option 0, Click_next] = Finish sc"
    then show ?thesis by blast
  next
    assume "\<exists>s'. quiz_run qs s [Click_option 0, Click_next] = Continue s' \<and> quiz_inv qs s' \<and>
               currentIndex s' = Suc (currentIndex s)"
    then obtain s' where r: "quiz_run qs s [Click_option 0, Click_next] = Continue s'"
      and inv: "quiz_inv qs s'" and idx: "currentIndex s' = Suc (currentIndex s)" by blast
    have "length qs - currentIndex s' < length qs - currentIndex s" using idx k by simp
    then obtain evs sc where "quiz_run qs s' evs = Finish sc"
      using less.hyps inv rest idx by fastforce
    then have "quiz_run qs s ([Click_option 0, Click_next] @ evs) = Finish sc"
      by (simp only: quiz_run_append r) simp
    then show ?thesis by blast
  qed
qed

lemma quiz_rounds_Suc: "quiz_rounds (Suc m) = [Click_option 0, Click_next] @ quiz_rounds m"
  by (simp add: quiz_rounds_def)

text \<open>A round on a question before the last moves to the next question.\<close>

lemma quiz_round_continue:
  assumes "quiz_inv qs s" and "options (qs ! currentIndex s) \<noteq> []" and "Suc (currentIndex s) < length qs"
  shows "\<exists>s'. quiz_run qs s [Click_option 0, Click_next] = Continue s' \<and> quiz_inv qs s' \<and>
              currentIndex s' = Suc (currentIndex s)"
proof -
  have "\<not> (\<exists>sc. quiz_run qs s [Click_option 0, Click_next] = Finish sc)"
  proof
    assume "\<exists>sc. quiz_run qs s [Click_option 0, Click_next] = Finish sc"
    then obtain s1 sc where "quiz_event qs s (Click_option 0) = Continue s1"
      and fin: "quiz_event qs s1 Click_next = Finish sc"
      by (auto simp: quiz_event_def split: if_splits sum.splits NextResult.splits)
    moreover have "currentIndex s1 = currentIndex s"
      using calculation(1)
      by (auto simp: quiz_event_def handleOptionClick_def split: if_splits sum.splits option.splits)
    ultimately show False
      using assms(3) by (auto simp: quiz_event_def handleNext_def split: if_splits)
  qed
  then show ?thesis using quiz_answer_step [OF assms(1,2)] by blast
qed

subsection \<open>Properties of the quiz screen\<close>

text \<open>
  C5: refinement of the scoring specification: answering every question of a
  non-empty batch with an offered option, clicking next after each, ends the quiz with
  \<open>Math.round\<close> of (correct answers) times \<open>100 / n\<close>, rounded once at the end,
  for every batch size \<open>n\<close> that divides 100.  For those \<open>n\<close> each increment
  \<open>100 / n\<close> is an integer, so the double-precision sum of the code is exact and
  equals the real sum of the model; for other \<open>n\<close> the code's sum can round the other
  way (24 questions with 15 correct finish with 62, not 63).
\<close>

theorem quiz_run_refines_spec:
  assumes "answers_valid qs ans" and "qs \<noteq> []" and "length qs dvd 100"
  shows "quiz_run qs quiz_init (play ans) = Finish (quiz_spec qs ans)"
proof -
  have "ans \<noteq> []" and "0 + length ans = length qs"
    and "list_all2 (\<lambda>q a. a < length (options q)) (drop 0 qs) ans"
    using assms by (auto simp: answers_valid_def)
  then show ?thesis
    by (subst quiz_run_play_from [of quiz_init 0]) (simp_all add: quiz_init_def quiz_spec_def)
qed

theorem quiz_run_refines_spec_witness:
  "let q = \<lparr>question_id = 1, question_text = ''Q'', options = [''a'', ''b'', ''c'', ''d''],
            correctAnswerIndex = 1, explanation = ''E''\<rparr>
   in answers_valid [q, q] [1, 0] \<and> [q, q] \<noteq> [] \<and> length [q, q] dvd 100 \<and>
      quiz_run [q, q] quiz_init (play [1, 0]) = Finish (quiz_spec [q, q] [1, 0]) \<and>
      quiz_spec [q, q] [1, 0] = 50"
proof -
  let ?q = "\<lparr>question_id = 1, question_text = ''Q'', options = [''a'', ''b'', ''c'', ''d''],
             correctAnswerIndex = 1, explanation = ''E''\<rparr>"
  have h: "answers_valid [?q, ?q] [1, 0]" by (simp add: answers_valid_def)
  have "quiz_spec [?q, ?q] [1, 0] = 50"
    using js_round_of_int [of 50] by (simp add: quiz_spec_def correct_count_def)
  moreover have d: "length [?q, ?q] dvd 100" unfolding dvd_def by (rule exI [of _ 50]) simp
  ultimately show ?thesis using h quiz_run_refines_spec [OF h _ d] by (simp add: Let_def)
qed

text \<open>
  C6: the design's scoring example: playing a quiz of the 20 questions the application
  asks for, each correct answer is worth exactly 5 points and the quiz screen finishes
  with \<open>5 K\<close> for \<open>K\<close> correct answers (16 correct give 80, 7 give 35).
\<close>

theorem twenty_question_score:
  assumes "length qs = 20" and "answers_valid qs ans"
  shows "quiz_run qs quiz_init (play ans) = Finish (5 * int (correct_count qs ans))"
proof -
  have "ans \<noteq> []" and "0 + length ans = length qs"
    and "list_all2 (\<lambda>q a. a < length (options q)) (drop 0 qs) ans"
    using assms by (auto simp: answers_valid_def)
  then have "quiz_run qs quiz_init (play ans) =
               Finish (js_round (real (correct_count qs ans) * (100 / real (length qs))))"
    by (subst quiz_run_play_from [of quiz_init 0]) (simp_all add: quiz_init_def)
  also have "real (correct_count qs ans) * (100 / real (length qs)) = of_int (5 * int (correct_count qs ans))"
    using assms(1) by simp
  finally show ?thesis by (simp only: js_round_of_int)
qed

theorem twenty_question_score_witness:
  "let q = \<lparr>question_id = 1, question_text = ''Q'', options = [''a'', ''b'', ''c'', ''d''],
            correctAnswerIndex = 1, explanation = ''E''\<rparr>
   in quiz_run (replicate 20 q) quiz_init (play (replicate 16 1 @ replicate 4 0)) = Finish 80 \<and>
      quiz_run (replicate 20 q) quiz_init (play (replicate 7 1 @ replicate 13 2)) = Finish 35"
proof -
  let ?q = "\<lparr>question_id = 1, question_text = ''Q'', options = [''a'', ''b'', ''c'', ''d''],
             correctAnswerIndex = 1, explanation = ''E''\<rparr>"
  have h: "length (replicate 20 ?q) = 20" by simp
  have v1: "answers_valid (replicate 20 ?q) (replicate 16 1 @ replicate 4 0)"
    and v2: "answers_valid (replicate 20 ?q) (replicate 7 1 @ replicate 13 2)"
    by (simp_all add: answers_valid_def list_all2_replicate_left)
  have "correct_count (replicate 20 ?q) (replicate 16 1 @ replicate 4 0) = 16"
    and "correct_count (replicate 20 ?q) (replicate 7 1 @ replicate 13 2) = 7"
    by (simp_all add: correct_count_def numeral_eq_Suc)
  then show ?thesis
    using twenty_question_score [OF h v1] twenty_question_score [OF h v2]
    by (simp add: Let_def)
qed

text \<open>
  C16: the first answer is binding: once handleOptionClick has run on a question,
  every further click on that question leaves the state (selection and score)
  unchanged.
\<close>

theorem handleOptionClick_locks:
  assumes "handleOptionClick qs i s = Inr s'"
  shows "handleOptionClick qs j s' = Inr s'"
proof -
  have "isAnswered s'"
    using assms by (auto simp: handleOptionClick_def split: if_splits option.splits)
  then show ?thesis by (simp add: handleOptionClick_def)
qed

theorem handleOptionClick_locks_witness:
  "let q = \<lparr>question_id = 1, question_text = ''Q'', options = [''a'', ''b'', ''c'', ''d''],
            correctAnswerIndex = 2, explanation = ''E''\<rparr>;
       s1 = quiz_init\<lparr>selectedOption := Some 1, isAnswered := True\<rparr>
   in handleOptionClick [q] 1 quiz_init = Inr s1 \<and>
      handleOptionClick [q] 2 s1 = Inr s1 \<and> selectedOption s1 = Some 1 \<and> quiz_score s1 = 0"
proof -
  let ?q = "\<lparr>question_id = 1, question_text = ''Q'', options = [''a'', ''b'', ''c'', ''d''],
             correctAnswerIndex = 2, explanation = ''E''\<rparr>"
  let ?s1 = "quiz_init\<lparr>selectedOption := Some 1, isAnswered := True\<rparr>"
  have h: "handleOptionClick [?q] 1 quiz_init = Inr ?s1"
    by (simp add: handleOptionClick_def quiz_init_def js_index_def)
  show ?thesis using handleOptionClick_locks [OF h, of 2] h by (simp add: quiz_init_def Let_def)
qed


text \<open>
  C21: the quiz-screen invariant holds after any sequence of user events that leaves
  the quiz running (the current question exists, selection and answered flag agree,
  the score is at most one question's points per answered question).
\<close>

theorem quiz_run_inv:
  assumes "quiz_inv qs s" and "quiz_run qs s evs = Continue s'"
  shows "quiz_inv qs s'"
  using assms
proof (induction evs arbitrary: s)
  case Nil
  then show ?case by simp
next
  case (Cons ev evs)
  show ?case
  proof (cases "quiz_event qs s ev")
    case (Continue s1)
    with Cons.prems have "quiz_inv qs s1" by (blast intro: quiz_event_inv)
    with Cons.IH Cons.prems(2) Continue show ?thesis by simp
  next
    case (Finish sc)
    with Cons.prems(2) show ?thesis by simp
  qed
qed

theorem quiz_run_inv_witness:
  "let q = \<lparr>question_id = 1, question_text = ''Q'', options = [''a'', ''b'', ''c'', ''d''],
            correctAnswerIndex = 0, explanation = ''E''\<rparr>;
       s' = quiz_init\<lparr>currentIndex := 1, quiz_score := 50\<rparr>
   in quiz_inv [q, q] quiz_init \<and> quiz_run [q, q] quiz_init [Click_option 0, Click_next] = Continue s' \<and>
      quiz_inv [q, q] s'"
proof -
  let ?q = "\<lparr>question_id = 1, question_text = ''Q'', options = [''a'', ''b'', ''c'', ''d''],
             correctAnswerIndex = 0, explanation = ''E''\<rparr>"
  let ?s' = "quiz_init\<lparr>currentIndex := 1, quiz_score := 50\<rparr>"
  have h1: "quiz_inv [?q, ?q] quiz_init" by (rule quiz_inv_init) simp
  have h2: "quiz_run [?q, ?q] quiz_init [Click_option 0, Click_next] = Continue ?s'"
    by (simp add: quiz_event_def option_enabled_def handleOptionClick_def handleNext_def
                  quiz_init_def js_index_def)
  show ?thesis using quiz_run_inv [OF h1 h2] h1 h2 by (simp add: Let_def)
qed

text \<open>
  C22: whenever a sequence of user events finishes the quiz from a screen satisfying
  the invariant, the rounded score handed to onFinish lies between 0 and 100.
\<close>

theorem quiz_run_finish_bounds:
  assumes "quiz_inv qs s" and "quiz_run qs s evs = Finish sc"
  shows "0 \<le> sc \<and> sc \<le> 100"
  using assms
proof (induction evs arbitrary: s)
  case Nil
  then show ?case by simp
next
  case (Cons ev evs)
  show ?case
  proof (cases "quiz_event qs s ev")
    case (Continue s1)
    with Cons.prems have "quiz_inv qs s1" by (blast intro: quiz_event_inv)
    with Cons.IH Cons.prems(2) Continue show ?thesis by simp
  next
    case (Finish sc')
    with Cons.prems show ?thesis using quiz_event_finish_bounds by simp
  qed
qed

theorem quiz_run_finish_bounds_witness:
  "let q = \<lparr>question_id = 1, question_text = ''Q'', options = [''a'', ''b'', ''c'', ''d''],
            correctAnswerIndex = 0, explanation = ''E''\<rparr>
   in quiz_inv [q] quiz_init \<and> quiz_run [q] quiz_init (play [0]) = Finish 100 \<and>
      0 \<le> (100::int) \<and> (100::int) \<le> 100"
proof -
  let ?q = "\<lparr>question_id = 1, question_text = ''Q'', options = [''a'', ''b'', ''c'', ''d''],
             correctAnswerIndex = 0, explanation = ''E''\<rparr>"
  have h1: "quiz_inv [?q] quiz_init" by (rule quiz_inv_init) simp
  have "js_round 100 = 100" using js_round_of_int [of 100] by simp
  then have h2: "quiz_run [?q] quiz_init (play [0]) = Finish 100"
    by (simp add: quiz_event_def option_enabled_def handleOptionClick_def handleNext_def
                  quiz_init_def js_index_def)
  show ?thesis using quiz_run_finish_bounds [OF h1 h2] h1 h2 by (simp add: Let_def)
qed

text \<open>
  C23: termination of the question loop: on a mounted quiz screen whose remaining
  questions each offer an option, answering and clicking next finishes the quiz after
  exactly as many rounds as questions remain, and not before.
\<close>

theorem quiz_loop_terminates:
  assumes "quiz_inv qs s" and "list_all (\<lambda>q. options q \<noteq> []) (drop (currentIndex s) qs)"
  shows "(\<exists>sc. quiz_run qs s (quiz_rounds (length qs - currentIndex s)) = Finish sc) \<and>
         (\<forall>m < length qs - currentIndex s. \<exists>s'. quiz_run qs s (quiz_rounds m) = Continue s')"
  using assms
proof (induction "length qs - currentIndex s" arbitrary: s rule: less_induct)
  case less
  have k: "currentIndex s < length qs" using less.prems(1) by (simp add: quiz_inv_def)
  then have drop: "drop (currentIndex s) qs = qs ! currentIndex s # drop (Suc (currentIndex s)) qs"
    by (simp add: Cons_nth_drop_Suc)
  then have opt: "options (qs ! currentIndex s) \<noteq> []"
    and rest: "list_all (\<lambda>q. options q \<noteq> []) (drop (Suc (currentIndex s)) qs)"
    using less.prems(2) by simp_all
  show ?case
  proof (cases "Suc (currentIndex s) < length qs")
    case True
    obtain s' where r: "quiz_run qs s [Click_option 0, Click_next] = Continue s'"
      and inv: "quiz_inv qs s'" and idx: "currentIndex s' = Suc (currentIndex s)"
      using quiz_round_continue [OF less.prems(1) opt True] by blast
    have d: "length qs - currentIndex s = Suc (length qs - currentIndex s')" using idx True by simp
    have IH: "(\<exists>sc. quiz_run qs s' (quiz_rounds (length qs - currentIndex s')) = Finish sc) \<and>
              (\<forall>m < length qs - currentIndex s'. \<exists>s''. quiz_run qs s' (quiz_rounds m) = Continue s'')"
      using less.hyps [of s'] d inv rest idx by simp
    have run: "quiz_run qs s (quiz_rounds (Suc m)) = quiz_run qs s' (quiz_rounds m)" for m
      by (simp only: quiz_rounds_Suc quiz_run_append r) simp
    have "\<exists>s''. quiz_run qs s (quiz_rounds m) = Continue s''" if "m < length qs - currentIndex s" for m
    proof (cases m)
      case 0
      then show ?thesis by (simp add: quiz_rounds_def)
    next
      case (Suc m')
      then show ?thesis using IH that d run by simp
    qed
    then show ?thesis using IH d run by simp
  next
    case False
    then have last: "length qs - currentIndex s = 1" using k by simp
    obtain sc where "quiz_run qs s [Click_option 0, Click_next] = Finish sc"
      using quiz_answer_step [OF less.prems(1) opt] False by (auto simp: quiz_inv_def)
    then show ?thesis using last by (simp add: quiz_rounds_def)
  qed
qed

theorem quiz_loop_terminates_witness:
  "quiz_inv [\<lparr>question_id = 1, question_text = ''Q'', options = [''a''], correctAnswerIndex = 0, explanation = ''E''\<rparr>,
             \<lparr>question_id = 2, question_text = ''R'', options = [''b''], correctAnswerIndex = 0, explanation = ''F''\<rparr>]
     quiz_init \<and>
   list_all (\<lambda>q. options q \<noteq> [])
     (drop (currentIndex quiz_init)
       [\<lparr>question_id = 1, question_text = ''Q'', options = [''a''], correctAnswerIndex = 0, explanation = ''E''\<rparr>,
        \<lparr>question_id = 2, question_text = ''R'', options = [''b''], correctAnswerIndex = 0, explanation = ''F''\<rparr>]) \<and>
   (\<exists>sc. quiz_run
          [\<lparr>question_id = 1, question_text = ''Q'', options = [''a''], correctAnswerIndex = 0, explanation = ''E''\<rparr>,
           \<lparr>question_id = 2, question_text = ''R'', options = [''b''], correctAnswerIndex = 0, explanation = ''F''\<rparr>]
          quiz_init (quiz_rounds 2) = Finish sc) \<and>
   (\<exists>s'. quiz_run
          [\<lparr>question_id = 1, question_text = ''Q'', options = [''a''], correctAnswerIndex = 0, explanation = ''E''\<rparr>,
           \<lparr>question_id = 2, question_text = ''R'', options = [''b''], correctAnswerIndex = 0, explanation = ''F''\<rparr>]
          quiz_init (quiz_rounds 1) = Continue s')"
proof -
  let ?qs = "[\<lparr>question_id = 1, question_text = ''Q'', options = [''a''], correctAnswerIndex = 0, explanation = ''E''\<rparr>,
              \<lparr>question_id = 2, question_text = ''R'', options = [''b''], correctAnswerIndex = (0::int), explanation = ''F''\<rparr>]"
  have h1: "quiz_inv ?qs quiz_init" by (rule quiz_inv_init) simp
  have h2: "list_all (\<lambda>q. options q \<noteq> []) (drop (currentIndex quiz_init) ?qs)" by (simp add: quiz_init_def)
  have "length ?qs - currentIndex quiz_init = 2" by (simp add: quiz_init_def)
  then have "(\<exists>sc. quiz_run ?qs quiz_init (quiz_rounds 2) = Finish sc) \<and>
             (\<forall>m < 2. \<exists>s'. quiz_run ?qs quiz_init (quiz_rounds m) = Continue s')"
    using quiz_loop_terminates [OF h1 h2] by simp
  then show ?thesis using h1 h2 by auto
qed

end
