(* ===== verification/App.thy ===== *)
theory App
  imports Storage Gemini Quiz
begin

text \<open>
  The session state machine: the \<open>App\<close> component of \<open>src/App.tsx\<close> (lines
  295--395) with the handlers of the screens it renders.  Its React state hooks, the
  state of the mounted \<open>QuizScreen\<close>, the outstanding provider call, the browser's
  \<open>localStorage\<close> and the provider's API key (a module constant of
  \<open>gemini.ts\<close>) form one record.  A user event or the settling of the provider
  call is one step; a control that the current screen does not render cannot be
  clicked, so its event leaves the state unchanged.  A render that throws (the quiz
  screen without a current question) unmounts the whole tree, after which no event has
  any effect.
\<close>

datatype UiMessage = Msg_generation_failed

record AppModel =
  appState :: AppState
  userName :: string
  questions :: "Question list"
  leaderboard :: "LeaderboardEntry list"
  currentScore :: int
  errorMsg :: "UiMessage option"
  quiz :: QuizScreenState
  pending :: bool
  storage :: local_storage
  gemini_apiKey :: "string option"

text \<open>
  The initial state: the \<open>useState\<close> defaults, with the leaderboard loaded by the
  mount effect, and the key read from the environment when \<open>gemini.ts\<close> loads.
\<close>

definition app_init :: "(string \<rightharpoonup> string) option \<Rightarrow> local_storage \<Rightarrow> AppModel" where
  "app_init env st =
     \<lparr>appState = WELCOME, userName = [], questions = [], leaderboard = getLeaderboard st,
      currentScore = 0, errorMsg = None, quiz = quiz_init, pending = False, storage = st,
      gemini_apiKey = getApiKey env\<rparr>"

text \<open>
  \<open>handleStart\<close> runs up to its \<open>await\<close>: it stores the name, shows the loading
  screen and leaves the provider call outstanding.  \<open>handleStartDone\<close> is the rest
  of the async function, run when the call settles; on success the quiz screen mounts
  with fresh state.
\<close>

definition handleStart :: "string \<Rightarrow> AppModel \<Rightarrow> AppModel" where
  "handleStart nm s = s\<lparr>userName := nm, appState := LOADING, pending := True\<rparr>"

definition handleStartDone :: "GeminiReply \<Rightarrow> AppModel \<Rightarrow> AppModel" where
  "handleStartDone reply s =
     (case generateQuizQuestions (gemini_apiKey s) 20 reply of
        Inr q \<Rightarrow> s\<lparr>questions := q, appState := QUIZ, quiz := quiz_init, pending := False\<rparr>
      | Inl _ \<Rightarrow> s\<lparr>errorMsg := Some Msg_generation_failed, appState := ERROR, pending := False\<rparr>)"

definition handleQuizFinish :: "int \<Rightarrow> string \<Rightarrow> int \<Rightarrow> AppModel \<Rightarrow> AppModel" where
  "handleQuizFinish sc uuid now s =
     (let (newLeaderboard, st') = saveScore (storage s) (userName s) sc uuid now
      in s\<lparr>currentScore := sc, leaderboard := newLeaderboard, storage := st', appState := RESULT\<rparr>)"

definition handleResetLeaderboard :: "bool \<Rightarrow> AppModel \<Rightarrow> AppModel" where
  "handleResetLeaderboard confirmed s =
     (if confirmed then s\<lparr>storage := resetLeaderboard (storage s), leaderboard := []\<rparr> else s)"

definition handleRestart :: "AppModel \<Rightarrow> AppModel" where
  "handleRestart s = s\<lparr>appState := WELCOME, userName := [], currentScore := 0\<rparr>"

text \<open>The welcome form's \<open>handleSubmit\<close>: start only with a non-blank name, trimmed.\<close>

definition handleSubmit :: "string \<Rightarrow> AppModel \<Rightarrow> AppModel" where
  "handleSubmit raw s = (if js_trim raw \<noteq> [] then handleStart (js_trim raw) s else s)"

text \<open>The error screen's two buttons.\<close>

definition handleRetry :: "AppModel \<Rightarrow> AppModel" where
  "handleRetry s = (if userName s \<noteq> [] then handleStart (userName s) s else s\<lparr>appState := WELCOME\<rparr>)"

definition handleHome :: "AppModel \<Rightarrow> AppModel" where
  "handleHome s = s\<lparr>appState := WELCOME\<rparr>"

text \<open>Whether rendering the current screen succeeds.\<close>

definition app_renders :: "AppModel \<Rightarrow> bool" where
  "app_renders s = (case appState s of QUIZ \<Rightarrow> quiz_renders (questions s) (quiz s) | _ \<Rightarrow> True)"

datatype AppEvent =
    Submit_name string
  | Click_reset_leaderboard bool
  | Provider_settled GeminiReply
  | Quiz_input QuizEvent string int
  | Click_restart
  | Click_retry
  | Click_home

text \<open>
  One step.  \<open>Click_reset_leaderboard\<close> carries the answer to the confirmation
  dialog; \<open>Quiz_input\<close> carries the UUID and the clock that \<open>saveScore\<close> reads
  if the event finishes the quiz.
\<close>

definition app_step :: "AppModel \<Rightarrow> AppEvent \<Rightarrow> AppModel" where
  "app_step s e =
     (if \<not> app_renders s then s
      else case e of
        Submit_name raw \<Rightarrow> (if appState s = WELCOME then handleSubmit raw s else s)
      | Click_reset_leaderboard c \<Rightarrow>
          (if appState s = WELCOME \<and> leaderboard s \<noteq> [] then handleResetLeaderboard c s else s)
      | Provider_settled reply \<Rightarrow> (if pending s then handleStartDone reply s else s)
      | Quiz_input ev uuid now \<Rightarrow>
          (if appState s = QUIZ
           then (case quiz_event (questions s) (quiz s) ev of
                   Continue q' \<Rightarrow> s\<lparr>quiz := q'\<rparr>
                 | Finish sc \<Rightarrow> handleQuizFinish sc uuid now s)
           else s)
      | Click_restart \<Rightarrow> (if appState s = RESULT then handleRestart s else s)
      | Click_retry \<Rightarrow> (if appState s = ERROR then handleRetry s else s)
      | Click_home \<Rightarrow> (if appState s = ERROR then handleHome s else s))"

definition app_run :: "AppModel \<Rightarrow> AppEvent list \<Rightarrow> AppModel" where
  "app_run s es = foldl app_step s es"

fun app_trace :: "AppModel \<Rightarrow> AppEvent list \<Rightarrow> AppModel list" where
  "app_trace s [] = [s]"
| "app_trace s (e # es) = s # app_trace (app_step s e) es"

subsection \<open>Reachable states\<close>

text \<open>
  The states reachable from a start in any environment and storage, by events that
  satisfy \<open>ok\<close> (\<open>\<lambda>_. True\<close> for all runs; a restriction on the provider's replies
  for the runs the design assumes).
\<close>

inductive reach :: "(AppEvent \<Rightarrow> bool) \<Rightarrow> AppModel \<Rightarrow> bool" for ok where
  init: "reach ok (app_init env st)"
| step: "reach ok s \<Longrightarrow> ok e \<Longrightarrow> reach ok (app_step s e)"

definition nonempty_batches :: "AppEvent \<Rightarrow> bool" where
  "nonempty_batches e =
     (case e of Provider_settled (Response (Some (Json_array data))) \<Rightarrow> data \<noteq> [] | _ \<Rightarrow> True)"


text \<open>A question and an environment with an API key, used by the witnesses below.\<close>

definition sample_question :: Question where
  "sample_question = \<lparr>question_id = 9, question_text = ''Q'', options = [''a'', ''b'', ''c'', ''d''],
                      correctAnswerIndex = 2, explanation = ''E''\<rparr>"

definition sample_env :: "(string \<rightharpoonup> string) option" where
  "sample_env = Some [''API_KEY'' \<mapsto> ''k'']"

subsection \<open>The application invariant\<close>

text \<open>
  The in-memory leaderboard mirrors the stored one; a provider call is outstanding
  exactly while the loading screen shows; a quiz screen with questions satisfies the
  quiz-screen invariant.  With the design's assumption that a batch is never empty,
  the quiz screen always has questions.
\<close>

definition app_inv :: "AppModel \<Rightarrow> bool" where
  "app_inv s \<longleftrightarrow>
     leaderboard s = getLeaderboard (storage s) \<and> pending s = (appState s = LOADING) \<and>
     (case appState s of QUIZ \<Rightarrow> questions s = [] \<or> quiz_inv (questions s) (quiz s) | _ \<Rightarrow> True)"

definition quiz_has_questions :: "AppModel \<Rightarrow> bool" where
  "quiz_has_questions s = (case appState s of QUIZ \<Rightarrow> questions s \<noteq> [] | _ \<Rightarrow> True)"

lemma app_inv_init: "app_inv (app_init env st)"
  by (simp add: app_inv_def app_init_def)

lemma app_inv_handleSubmit:
  "app_inv s \<Longrightarrow> appState s = WELCOME \<Longrightarrow> app_inv (handleSubmit raw s)"
  by (simp add: app_inv_def handleSubmit_def handleStart_def)

lemma app_inv_handleResetLeaderboard:
  "app_inv s \<Longrightarrow> app_inv (handleResetLeaderboard c s)"
  by (cases c) (simp_all add: app_inv_def handleResetLeaderboard_def split: AppState.splits)

lemma quiz_init_inv_or_empty: "qs = [] \<or> quiz_inv qs quiz_init"
  using quiz_inv_init by blast

lemma app_inv_handleStartDone:
  "app_inv s \<Longrightarrow> pending s \<Longrightarrow> app_inv (handleStartDone reply s)"
  by (auto simp: app_inv_def handleStartDone_def quiz_init_inv_or_empty split: sum.splits)

lemma app_inv_handleQuizFinish:
  "app_inv s \<Longrightarrow> appState s = QUIZ \<Longrightarrow> app_inv (handleQuizFinish sc uuid now s)"
  by (simp add: app_inv_def handleQuizFinish_def getLeaderboard_saveScore split_beta)

lemma app_inv_quiz_continue:
  assumes "app_inv s" and "appState s = QUIZ" and "quiz_renders (questions s) (quiz s)"
    and "quiz_event (questions s) (quiz s) ev = Continue q'"
  shows "app_inv (s\<lparr>quiz := q'\<rparr>)"
proof -
  have "questions s \<noteq> []" using assms(3) by (auto simp: quiz_renders_def)
  with assms(1,2) have "quiz_inv (questions s) (quiz s)" by (simp add: app_inv_def)
  then have "quiz_inv (questions s) q'" using assms(4) by (rule quiz_event_inv)
  with assms(1,2) show ?thesis by (simp add: app_inv_def)
qed

lemma app_inv_handleRestart: "app_inv s \<Longrightarrow> appState s = RESULT \<Longrightarrow> app_inv (handleRestart s)"
  by (simp add: app_inv_def handleRestart_def)

lemma app_inv_handleRetry: "app_inv s \<Longrightarrow> appState s = ERROR \<Longrightarrow> app_inv (handleRetry s)"
  by (simp add: app_inv_def handleRetry_def handleStart_def)

lemma app_inv_handleHome: "app_inv s \<Longrightarrow> appState s = ERROR \<Longrightarrow> app_inv (handleHome s)"
  by (simp add: app_inv_def handleHome_def)

lemma app_renders_quiz: "app_renders s \<Longrightarrow> appState s = QUIZ \<Longrightarrow> quiz_renders (questions s) (quiz s)"
  by (simp add: app_renders_def)

lemma app_inv_step: "app_inv s \<Longrightarrow> app_inv (app_step s e)"
proof (cases "app_renders s")
  case True
  assume inv: "app_inv s"
  show ?thesis
  proof (cases e)
    case (Quiz_input ev uuid now)
    show ?thesis
    proof (cases "appState s = QUIZ")
      case q: True
      show ?thesis
      proof (cases "quiz_event (questions s) (quiz s) ev")
        case (Continue q')
        with inv q True Quiz_input show ?thesis
          by (simp add: app_step_def app_inv_quiz_continue app_renders_quiz)
      next
        case (Finish sc)
        with inv q True Quiz_input show ?thesis by (simp add: app_step_def app_inv_handleQuizFinish)
      qed
    next
      case False
      with inv True Quiz_input show ?thesis by (simp add: app_step_def)
    qed
  qed (use inv True in \<open>simp_all add: app_step_def app_inv_handleSubmit app_inv_handleResetLeaderboard
        app_inv_handleStartDone app_inv_handleRestart app_inv_handleRetry app_inv_handleHome\<close>)
next
  case False
  assume "app_inv s"
  with False show ?thesis by (simp add: app_step_def)
qed

lemma reach_app_inv: "reach ok s \<Longrightarrow> app_inv s"
  by (induction rule: reach.induct) (simp_all add: app_inv_init app_inv_step)


declare app_step_def [handler_defs] handleSubmit_def [handler_defs] handleStart_def [handler_defs]
  handleStartDone_def [handler_defs] handleQuizFinish_def [handler_defs]
  handleResetLeaderboard_def [handler_defs] handleRestart_def [handler_defs]
  handleRetry_def [handler_defs] handleHome_def [handler_defs] app_renders_def [handler_defs]
  app_init_def [handler_defs] quiz_event_def [handler_defs] handleOptionClick_def [handler_defs]
  handleNext_def [handler_defs] option_enabled_def [handler_defs] quiz_renders_def [handler_defs]
  quiz_init_def [handler_defs] generateQuizQuestions_def [handler_defs] getApiKey_def [handler_defs]
  js_truthy_str_def [handler_defs] reindex_def [handler_defs] js_index_def [handler_defs]

lemma app_step_not_renders: "\<not> app_renders s \<Longrightarrow> app_step s e = s"
  by (simp add: app_step_def)

lemma quiz_has_questions_iff: "quiz_has_questions s \<longleftrightarrow> (appState s = QUIZ \<longrightarrow> questions s \<noteq> [])"
  by (cases "appState s") (simp_all add: quiz_has_questions_def)

lemma handleStartDone_QUIZ:
  assumes "appState (handleStartDone reply s) = QUIZ"
  shows "\<exists>data. reply = Response (Some (Json_array data)) \<and> questions (handleStartDone reply s) = reindex data"
proof (cases "generateQuizQuestions (gemini_apiKey s) 20 reply")
  case (Inl err)
  with assms show ?thesis by (simp add: handleStartDone_def)
next
  case (Inr q)
  then have "questions (handleStartDone reply s) = q" by (simp add: handleStartDone_def)
  with Inr show ?thesis by (auto simp: generateQuizQuestions_Inr)
qed

lemma nonempty_batches_quiz:
  assumes "quiz_has_questions s" and "nonempty_batches e"
  shows "quiz_has_questions (app_step s e)"
proof (cases "app_renders s")
  case False
  with assms(1) show ?thesis by (simp add: app_step_not_renders)
next
  case True
  show ?thesis
  proof (cases e)
    case (Provider_settled reply)
    show ?thesis
    proof (cases "pending s \<and> appState (handleStartDone reply s) = QUIZ")
      case p: True
      then obtain data where d: "reply = Response (Some (Json_array data))"
        and q: "questions (handleStartDone reply s) = reindex data"
        using handleStartDone_QUIZ by blast
      with assms(2) Provider_settled have "data \<noteq> []" by (simp add: nonempty_batches_def)
      with True p q Provider_settled show ?thesis by (simp add: quiz_has_questions_iff app_step_def)
    next
      case False
      with True assms(1) Provider_settled show ?thesis by (auto simp: quiz_has_questions_iff app_step_def)
    qed
  next
    case (Quiz_input ev uuid now)
    with True assms(1) show ?thesis
      by (auto simp: quiz_has_questions_iff app_step_def handleQuizFinish_def split_beta
               split: NextResult.splits)
  qed (use True assms(1) in \<open>auto simp: quiz_has_questions_iff app_step_def handleSubmit_def
         handleStart_def handleResetLeaderboard_def handleRestart_def handleRetry_def handleHome_def\<close>)
qed

lemma reach_nonempty_quiz: "reach nonempty_batches s \<Longrightarrow> quiz_has_questions s"
proof (induction rule: reach.induct)
  case (init env st)
  show ?case by (simp add: quiz_has_questions_iff app_init_def)
next
  case (step s e)
  from step.IH step.hyps(2) show ?case by (rule nonempty_batches_quiz)
qed


subsection \<open>Runs through the quiz phase\<close>

lemma correct_count_cong:
  "map correctAnswerIndex xs = map correctAnswerIndex ys \<Longrightarrow> correct_count xs ans = correct_count ys ans"
proof (induction xs arbitrary: ys ans)
  case Nil
  then show ?case by (simp add: correct_count_def)
next
  case (Cons x xs)
  then obtain y ys' where "ys = y # ys'" by (cases ys) auto
  with Cons show ?case by (cases ans) (simp_all add: correct_count_def)
qed

lemma reindex_map_field:
  assumes "\<And>q. f (q\<lparr>question_id := 0\<rparr>) = f q"
  shows "map f (reindex qs) = map f qs"
proof -
  have "map f (reindex qs) = map f (map (\<lambda>q. q\<lparr>question_id := 0\<rparr>) (reindex qs))" by (simp add: assms)
  also have "\<dots> = map f (map (\<lambda>q. q\<lparr>question_id := 0\<rparr>) qs)" by (simp only: reindex_fields)
  finally show ?thesis by (simp add: assms)
qed

lemma quiz_spec_reindex: "quiz_spec (reindex qs) ans = quiz_spec qs ans"
  using correct_count_cong [OF reindex_map_field [of correctAnswerIndex]] by (simp add: quiz_spec_def)

lemma answers_valid_reindex: "answers_valid (reindex qs) ans = answers_valid qs ans"
proof -
  have "map options (reindex qs) = map options qs" by (rule reindex_map_field) simp
  then show ?thesis
    by (simp add: answers_valid_def list_all2_map1 [of "\<lambda>opts a. a < length opts" options, symmetric])
qed

lemma app_run_result_quiz_inputs:
  "appState s = RESULT \<Longrightarrow> app_run s (map (\<lambda>ev. Quiz_input ev uuid now) evs) = s"
  by (induction evs) (simp_all add: app_run_def app_step_def app_renders_def)

lemma app_trace_result_quiz_inputs:
  "appState s = RESULT \<Longrightarrow> set (app_trace s (map (\<lambda>ev. Quiz_input ev uuid now) evs)) = {s}"
  by (induction evs) (simp_all add: app_step_def app_renders_def)

lemma app_run_Cons: "app_run s (e # es) = app_run (app_step s e) es"
  by (simp add: app_run_def)

lemma app_trace_hd: "hd (app_trace s es) = s"
  by (cases es) simp_all

lemma app_trace_last: "last (app_trace s es) = app_run s es"
proof (induction es arbitrary: s)
  case Nil
  then show ?case by (simp add: app_run_def)
next
  case (Cons e es)
  have "app_trace (app_step s e) es \<noteq> []" by (cases es) simp_all
  with Cons.IH show ?case by (simp add: app_run_Cons)
qed

lemma sorted_quiz_result:
  assumes "\<forall>y\<in>set ys. y \<in> {QUIZ, RESULT}" and "sorted ys"
  shows "sorted (QUIZ # ys)"
  using assms by (auto simp: less_eq_AppState_def)

lemma quiz_phase:
  assumes "appState s = QUIZ" and "quiz_inv (questions s) (quiz s)"
    and "quiz_run (questions s) (quiz s) evs = Finish sc"
  shows "(\<exists>q. app_run s (map (\<lambda>ev. Quiz_input ev uuid now) evs) = handleQuizFinish sc uuid now (s\<lparr>quiz := q\<rparr>)) \<and>
         (\<forall>x\<in>set (app_trace s (map (\<lambda>ev. Quiz_input ev uuid now) evs)). appState x \<in> {QUIZ, RESULT}) \<and>
         sorted (map appState (app_trace s (map (\<lambda>ev. Quiz_input ev uuid now) evs)))"
  using assms
proof (induction evs arbitrary: s)
  case Nil
  then show ?case by simp
next
  case (Cons ev evs)
  have r: "app_renders s" using Cons.prems(1,2) by (simp add: app_renders_def quiz_inv_renders)
  show ?case
  proof (cases "quiz_event (questions s) (quiz s) ev")
    case (Continue s1)
    let ?t = "s\<lparr>quiz := s1\<rparr>"
    have step: "app_step s (Quiz_input ev uuid now) = ?t" using r Cons.prems(1) Continue by (simp add: app_step_def)
    have t1: "appState ?t = QUIZ" using Cons.prems(1) by simp
    have t2: "quiz_inv (questions ?t) (quiz ?t)" using Cons.prems(2) Continue by (simp add: quiz_event_inv)
    have t3: "quiz_run (questions ?t) (quiz ?t) evs = Finish sc" using Cons.prems(3) Continue by simp
    note IH = Cons.IH [OF t1 t2 t3]
    then have "sorted (QUIZ # map appState (app_trace ?t (map (\<lambda>ev. Quiz_input ev uuid now) evs)))"
      by (intro sorted_quiz_result) auto
    with IH step Cons.prems(1) show ?thesis by (auto simp: app_run_Cons)
  next
    case (Finish sc')
    then have sc: "sc' = sc" using Cons.prems(3) by simp
    let ?t = "handleQuizFinish sc uuid now s"
    have step: "app_step s (Quiz_input ev uuid now) = ?t" using r Cons.prems(1) Finish sc by (simp add: app_step_def)
    have res: "appState ?t = RESULT" by (simp add: handleQuizFinish_def split_beta)
    have "\<exists>q. app_run s (map (\<lambda>ev. Quiz_input ev uuid now) (ev # evs)) = handleQuizFinish sc uuid now (s\<lparr>quiz := q\<rparr>)"
      using step app_run_result_quiz_inputs [OF res] by (intro exI [of _ "quiz s"]) (simp add: app_run_Cons)
    moreover have tr: "set (app_trace ?t (map (\<lambda>ev. Quiz_input ev uuid now) evs)) = {?t}"
      by (rule app_trace_result_quiz_inputs [OF res])
    moreover have "sorted (QUIZ # map appState (app_trace ?t (map (\<lambda>ev. Quiz_input ev uuid now) evs)))"
    proof (rule sorted_quiz_result)
      have "set (map appState (app_trace ?t (map (\<lambda>ev. Quiz_input ev uuid now) evs))) = {RESULT}"
        using tr res by simp
      then show "sorted (map appState (app_trace ?t (map (\<lambda>ev. Quiz_input ev uuid now) evs)))"
        by (intro sorted_const) simp
    qed (use tr res in auto)
    ultimately show ?thesis using step res Cons.prems(1) by (auto simp: app_run_Cons)
  qed
qed

subsection \<open>Properties of the session state machine\<close>

text \<open>
  C1: in every reachable state the leaderboard on screen is the one stored in
  localStorage, and a provider call is outstanding exactly while the loading screen
  shows (so there is never a second call in flight).
\<close>

theorem reachable_mirror:
  assumes "reach ok s"
  shows "leaderboard s = getLeaderboard (storage s) \<and> pending s = (appState s = LOADING)"
  using reach_app_inv [OF assms] by (simp add: app_inv_def)

theorem reachable_mirror_witness:
  "leaderboard (app_init None Map.empty) = getLeaderboard (storage (app_init None Map.empty)) \<and>
   pending (app_init None Map.empty) = (appState (app_init None Map.empty) = LOADING)"
  using reachable_mirror [OF reach.init [of "\<lambda>_. True" None Map.empty]] .

text \<open>
  C2: if the provider never returns an empty batch (the design's assumption), then
  whenever the quiz screen shows, its current question exists (the render cannot throw)
  and the quiz-screen invariant holds.
\<close>

theorem nonempty_batches_quiz_renders:
  assumes "reach nonempty_batches s" and "appState s = QUIZ"
  shows "quiz_renders (questions s) (quiz s) \<and> quiz_inv (questions s) (quiz s)"
proof -
  have "questions s \<noteq> []" using reach_nonempty_quiz [OF assms(1)] assms(2) by (simp add: quiz_has_questions_iff)
  moreover have "app_inv s" using assms(1) by (rule reach_app_inv)
  ultimately have "quiz_inv (questions s) (quiz s)" using assms(2) by (simp add: app_inv_def)
  then show ?thesis by (simp add: quiz_inv_renders)
qed

theorem nonempty_batches_quiz_renders_witness:
  "let s = app_run (app_init sample_env Map.empty)
             [Submit_name ''  Amy  '', Provider_settled (Response (Some (Json_array [sample_question])))]
   in appState s = QUIZ \<and> quiz_renders (questions s) (quiz s) \<and> quiz_inv (questions s) (quiz s)"
proof -
  let ?s0 = "app_init sample_env Map.empty"
  let ?s1 = "app_step ?s0 (Submit_name ''  Amy  '')"
  let ?s2 = "app_step ?s1 (Provider_settled (Response (Some (Json_array [sample_question]))))"
  have r: "reach nonempty_batches ?s2"
    by (intro reach.step reach.init) (simp_all add: nonempty_batches_def)
  have q: "appState ?s2 = QUIZ"
    by (simp add: handler_defs sample_env_def js_trim_def js_whitespace_def)
  show ?thesis using nonempty_batches_quiz_renders [OF r q] q by (simp add: app_run_def)
qed

text \<open>
  C3: the code does not guard the LOADING to QUIZ transition with "at least one
  question": an empty batch from the provider leads to a reachable quiz screen with no
  current question, whose render throws, after which no event has any effect.
\<close>

theorem empty_batch_breaks_quiz:
  "let s = app_run (app_init sample_env Map.empty)
             [Submit_name ''Amy'', Provider_settled (Response (Some (Json_array [])))]
   in reach (\<lambda>_. True) s \<and> appState s = QUIZ \<and> questions s = [] \<and> \<not> app_renders s \<and>
      (\<forall>e. app_step s e = s)"
proof -
  let ?s0 = "app_init sample_env Map.empty"
  let ?s1 = "app_step ?s0 (Submit_name ''Amy'')"
  let ?s2 = "app_step ?s1 (Provider_settled (Response (Some (Json_array []))))"
  have r: "reach (\<lambda>_. True) ?s2" by (intro reach.step reach.init) simp_all
  have q: "appState ?s2 = QUIZ \<and> questions ?s2 = [] \<and> \<not> app_renders ?s2"
    by (simp add: handler_defs sample_env_def js_trim_def js_whitespace_def)
  then have "\<forall>e. app_step ?s2 e = ?s2" by (simp add: app_step_not_renders)
  with r q show ?thesis by (simp add: app_run_def)
qed

text \<open>
  C17: on the welcome screen, submitting a name starts loading with the trimmed name
  when it is not blank, and does nothing when it is empty or all white space (the no-break
  space U+00A0 included, as \<open>String.prototype.trim\<close> strips it).
\<close>

theorem submit_name_trims:
  assumes "appState s = WELCOME"
  shows "app_step s (Submit_name raw) =
           (if js_trim raw = [] then s
            else s\<lparr>userName := js_trim raw, appState := LOADING, pending := True\<rparr>)"
  using assms by (simp add: app_step_def app_renders_def handleSubmit_def handleStart_def)

theorem submit_name_trims_witness:
  "appState (app_init None Map.empty) = WELCOME \<and>
   app_step (app_init None Map.empty) (Submit_name ''  Amy  '') =
     (app_init None Map.empty)\<lparr>userName := ''Amy'', appState := LOADING, pending := True\<rparr> \<and>
   app_step (app_init None Map.empty) (Submit_name ''   '') = app_init None Map.empty \<and>
   app_step (app_init None Map.empty) (Submit_name []) = app_init None Map.empty \<and>
   app_step (app_init None Map.empty) (Submit_name [char_of (160::nat)]) = app_init None Map.empty"
proof -
  have h: "appState (app_init None Map.empty) = WELCOME" by (simp add: app_init_def)
  show ?thesis
    using submit_name_trims [OF h, of "''  Amy  ''"] submit_name_trims [OF h, of "''   ''"]
          submit_name_trims [OF h, of "[]"] submit_name_trims [OF h, of "[char_of (160::nat)]"] h
    by (simp add: js_trim_def js_whitespace_def)
qed

text \<open>
  C18: while the loading screen shows, every event other than the provider call
  settling leaves the state unchanged: no quiz-advancing or restarting intent applies.
\<close>

theorem loading_ignores_user_input:
  assumes "appState s = LOADING" and "\<forall>r. e \<noteq> Provider_settled r"
  shows "app_step s e = s"
  using assms by (cases e) (simp_all add: app_step_def)

theorem loading_ignores_user_input_witness:
  "let s = (app_init None Map.empty)\<lparr>appState := LOADING, pending := True\<rparr>
   in app_step s Click_restart = s \<and> app_step s (Submit_name ''Bob'') = s \<and>
      app_step s (Quiz_input Click_next ''u'' 0) = s"
proof -
  let ?s = "(app_init None Map.empty)\<lparr>appState := LOADING, pending := True\<rparr>"
  have h: "appState ?s = LOADING" by simp
  show ?thesis
    using loading_ignores_user_input [OF h, of Click_restart]
          loading_ignores_user_input [OF h, of "Submit_name ''Bob''"]
          loading_ignores_user_input [OF h, of "Quiz_input Click_next ''u'' 0"]
    by (simp add: Let_def)
qed

text \<open>
  C7: the event that finishes the quiz records the rounded score once: the score is
  saved under the stored user name, the leaderboard shown becomes the one saveScore
  returns, and the result screen shows that score.
\<close>

theorem finish_records_score:
  assumes "appState s = QUIZ" and "quiz_renders (questions s) (quiz s)"
    and "quiz_event (questions s) (quiz s) ev = Finish sc"
  shows "app_step s (Quiz_input ev uuid now) =
           s\<lparr>currentScore := sc, leaderboard := fst (saveScore (storage s) (userName s) sc uuid now),
             storage := snd (saveScore (storage s) (userName s) sc uuid now), appState := RESULT\<rparr>"
  using assms by (simp add: app_step_def app_renders_def handleQuizFinish_def split_beta)

theorem finish_records_score_witness:
  "let s = (app_init None Map.empty)\<lparr>userName := ''Amy'', appState := QUIZ, questions := [sample_question],
              quiz := quiz_init\<lparr>selectedOption := Some 2, isAnswered := True, quiz_score := 100\<rparr>\<rparr>
   in app_step s (Quiz_input Click_next ''u1'' 5) =
        s\<lparr>currentScore := 100, leaderboard := [\<lparr>entry_id = ''u1'', name = ''Amy'', score = 100, timestamp = 5\<rparr>],
          storage := [STORAGE_KEY \<mapsto> Json_entries [\<lparr>entry_id = ''u1'', name = ''Amy'', score = 100, timestamp = 5\<rparr>]],
          appState := RESULT\<rparr>"
proof -
  let ?s = "(app_init None Map.empty)\<lparr>userName := ''Amy'', appState := QUIZ, questions := [sample_question],
              quiz := quiz_init\<lparr>selectedOption := Some 2, isAnswered := True, quiz_score := 100\<rparr>\<rparr>"
  have h1: "appState ?s = QUIZ" by simp
  have h2: "quiz_renders (questions ?s) (quiz ?s)" by (simp add: quiz_renders_def quiz_init_def)
  have "js_round 100 = 100" using js_round_of_int [of 100] by simp
  then have h3: "quiz_event (questions ?s) (quiz ?s) Click_next = Finish 100"
    by (simp add: quiz_event_def handleNext_def quiz_init_def)
  have sv: "saveScore Map.empty ''Amy'' 100 ''u1'' 5 =
      ([\<lparr>entry_id = ''u1'', name = ''Amy'', score = 100, timestamp = 5\<rparr>],
       [STORAGE_KEY \<mapsto> Json_entries [\<lparr>entry_id = ''u1'', name = ''Amy'', score = 100, timestamp = 5\<rparr>]])"
    by (simp add: saveScore_def getLeaderboard_def js_sort_def Let_def)
  show ?thesis using finish_records_score [OF h1 h2 h3, of "''u1''" 5] sv by (simp add: app_init_def Let_def)
qed

text \<open>
  C19: restart on the result screen returns to the welcome screen with the name and
  score cleared; retry on the error screen reloads with the stored name, or returns to
  the welcome screen when there is none; the error screen's home button returns to the
  welcome screen keeping the stored name.
\<close>

theorem return_transitions:
  "(appState s = RESULT \<longrightarrow>
      app_step s Click_restart = s\<lparr>appState := WELCOME, userName := [], currentScore := 0\<rparr>) \<and>
   (appState s = ERROR \<longrightarrow>
      app_step s Click_retry =
        (if userName s = [] then s\<lparr>appState := WELCOME\<rparr> else s\<lparr>appState := LOADING, pending := True\<rparr>) \<and>
      app_step s Click_home = s\<lparr>appState := WELCOME\<rparr>)"
  by (simp add: app_step_def app_renders_def handleRestart_def handleRetry_def handleStart_def handleHome_def)

theorem return_transitions_witness:
  "let e = (app_init None Map.empty)\<lparr>appState := ERROR, userName := ''Amy''\<rparr>;
       r = (app_init None Map.empty)\<lparr>appState := RESULT, userName := ''Amy'', currentScore := 80\<rparr>
   in app_step r Click_restart = app_init None Map.empty \<and>
      app_step e Click_retry = e\<lparr>appState := LOADING, pending := True\<rparr> \<and>
      app_step (e\<lparr>userName := []\<rparr>) Click_retry = app_init None Map.empty \<and>
      userName (app_step e Click_home) = ''Amy''"
  using return_transitions [of "(app_init None Map.empty)\<lparr>appState := RESULT, userName := ''Amy'', currentScore := 80\<rparr>"]
        return_transitions [of "(app_init None Map.empty)\<lparr>appState := ERROR, userName := ''Amy''\<rparr>"]
        return_transitions [of "(app_init None Map.empty)\<lparr>appState := ERROR, userName := []\<rparr>"]
  by (simp add: app_init_def Let_def)

text \<open>
  C20: from a reachable state whose stored leaderboard is well-formed, every step keeps
  it well-formed, and the leaderboard on screen is sorted by descending score with at
  most 100 entries.
\<close>

theorem step_keeps_storage_ok:
  assumes "reach ok s" and "storage_ok (storage s)"
  shows "storage_ok (storage (app_step s e)) \<and> leaderboard_ok (leaderboard (app_step s e))"
proof -
  have st: "storage_ok (storage (app_step s e))"
    using assms(2)
    by (auto simp: app_step_def handleSubmit_def handleStart_def handleResetLeaderboard_def
                   handleStartDone_def handleQuizFinish_def handleRestart_def handleRetry_def handleHome_def
                   split_beta storage_ok_saveScore storage_ok_reset
             split: AppEvent.splits NextResult.splits sum.splits)
  have "app_inv (app_step s e)" using reach_app_inv [OF assms(1)] by (rule app_inv_step)
  then have "leaderboard (app_step s e) = getLeaderboard (storage (app_step s e))" by (simp add: app_inv_def)
  with st show ?thesis by (simp add: getLeaderboard_ok)
qed

theorem step_keeps_storage_ok_witness:
  "storage_ok (storage (app_step (app_init None Map.empty) (Submit_name ''Amy''))) \<and>
   leaderboard_ok (leaderboard (app_step (app_init None Map.empty) (Submit_name ''Amy'')))"
proof -
  have h: "storage_ok (storage (app_init None Map.empty))" by (simp add: app_init_def storage_ok_def)
  show ?thesis using step_keeps_storage_ok [OF reach.init h] .
qed

end
