(* ===== verification/Liveness.thy ===== *)
theory Liveness
  imports App
begin

text \<open>
  Progress of the session machine of \<open>App\<close> and the shape of the question batch in
  its reachable states.  The design promises that the machine has no terminal state:
  RESULT and ERROR lead back to WELCOME, and the worst a failure can do is leave the
  user on the error screen until they retry or go home.  Here a user event is a click
  or a submission; the settling of the provider call is not the user's to give.
\<close>

definition user_event :: "AppEvent \<Rightarrow> bool" where
  "user_event e = (case e of Provider_settled _ \<Rightarrow> False | _ \<Rightarrow> True)"

text \<open>On the quiz screen, every question still to come offers at least one option.\<close>

definition quiz_answerable :: "AppModel \<Rightarrow> bool" where
  "quiz_answerable s =
     (case appState s of
        QUIZ \<Rightarrow> list_all (\<lambda>q. options q \<noteq> []) (drop (currentIndex (quiz s)) (questions s))
      | _ \<Rightarrow> True)"

text \<open>The ids of a batch are \<open>1, 2, ..., n\<close> in order, as \<open>types.ts\<close> documents.\<close>

definition ids_sequential :: "Question list \<Rightarrow> bool" where
  "ids_sequential qs \<longleftrightarrow> map question_id qs = map (\<lambda>i. int i + 1) [0..<length qs]"

text \<open>The session after Amy submits her name and the provider returns \<open>qs\<close>.\<close>

definition sample_session :: "Question list \<Rightarrow> AppModel" where
  "sample_session qs =
     app_run (app_init sample_env Map.empty)
       [Submit_name ''Amy'', Provider_settled (Response (Some (Json_array qs)))]"

subsection \<open>Runs\<close>

lemma app_run_append: "app_run s (xs @ ys) = app_run (app_run s xs) ys"
  by (simp add: app_run_def)

lemma app_run_Nil [simp]: "app_run s [] = s"
  by (simp add: app_run_def)

lemma reach_app_run: "reach ok s \<Longrightarrow> list_all ok es \<Longrightarrow> reach ok (app_run s es)"
  by (induction es arbitrary: s) (simp_all add: app_run_Cons reach.step)

lemma user_event_quiz_inputs: "list_all user_event (map (\<lambda>ev. Quiz_input ev uuid now) evs)"
  by (induction evs) (simp_all add: user_event_def)

text \<open>Each screen other than the quiz screen has a user event leading home.\<close>

lemma home_in_one_click:
  assumes "app_inv s" and "appState s \<in> {WELCOME, RESULT, ERROR}"
  shows "\<exists>es. list_all user_event es \<and> appState (app_run s es) = WELCOME"
proof -
  have "appState s = WELCOME \<or> appState s = RESULT \<or> appState s = ERROR" using assms(2) by simp
  then show ?thesis
  proof (elim disjE)
    assume "appState s = WELCOME"
    then show ?thesis by (intro exI [of _ "[]"]) simp
  next
    assume "appState s = RESULT"
    then show ?thesis
      by (intro exI [of _ "[Click_restart]"])
         (simp add: app_run_Cons user_event_def app_step_def app_renders_def handleRestart_def)
  next
    assume "appState s = ERROR"
    then show ?thesis
      by (intro exI [of _ "[Click_home]"])
         (simp add: app_run_Cons user_event_def app_step_def app_renders_def handleHome_def)
  qed
qed

text \<open>On a rendered quiz screen whose remaining questions all offer an option, some
  clicks reach the result screen.\<close>

lemma quiz_reaches_result:
  assumes "app_inv s" and "app_renders s" and "appState s = QUIZ" and "quiz_answerable s"
  shows "\<exists>es. list_all user_event es \<and> appState (app_run s es) = RESULT"
proof -
  have "quiz_renders (questions s) (quiz s)" using assms(2,3) by (rule app_renders_quiz)
  then have "questions s \<noteq> []" by (auto simp: quiz_renders_def)
  then have inv: "quiz_inv (questions s) (quiz s)" using assms(1,3) by (simp add: app_inv_def)
  obtain evs sc where run: "quiz_run (questions s) (quiz s) evs = Finish sc"
    using quiz_finishes [OF inv] assms(3,4) by (auto simp: quiz_answerable_def)
  obtain q where "app_run s (map (\<lambda>ev. Quiz_input ev ''id'' 0) evs) = handleQuizFinish sc ''id'' 0 (s\<lparr>quiz := q\<rparr>)"
    using quiz_phase [OF assms(3) inv run, of "''id''" 0] by blast
  then have "appState (app_run s (map (\<lambda>ev. Quiz_input ev ''id'' 0) evs)) = RESULT"
    by (simp add: handleQuizFinish_def split_beta)
  then show ?thesis using user_event_quiz_inputs by blast
qed

lemma quiz_reaches_home:
  assumes "app_inv s" and "app_renders s" and "appState s = QUIZ" and "quiz_answerable s"
  shows "\<exists>es. list_all user_event es \<and> appState (app_run s es) = WELCOME"
proof -
  obtain es where es: "list_all user_event es" and r: "appState (app_run s es) = RESULT"
    using quiz_reaches_result [OF assms] by blast
  have "app_inv (app_run s es)" using assms(1) by (induction es arbitrary: s) (simp_all add: app_run_Cons app_inv_step)
  then obtain es' where "list_all user_event es'" and "appState (app_run (app_run s es) es') = WELCOME"
    using home_in_one_click r by blast
  then show ?thesis using es by (intro exI [of _ "es @ es'"]) (simp add: app_run_append)
qed

text \<open>
  On a quiz screen showing an unanswered question without options, no option button
  exists and the next button is not rendered: every event leaves the state as it is.
\<close>

lemma quiz_trap_step:
  assumes "appState s = QUIZ" and "\<not> pending s" and "\<not> isAnswered (quiz s)"
    and "currentIndex (quiz s) < length (questions s)"
    and "options (questions s ! currentIndex (quiz s)) = []"
  shows "app_step s e = s"
proof (cases e)
  case (Quiz_input ev uuid now)
  have "quiz_event (questions s) (quiz s) ev = Continue (quiz s)"
    using assms(3-5)
    by (cases ev) (simp_all add: quiz_event_def option_enabled_def js_index_Some)
  then show ?thesis using Quiz_input assms(1) by (simp add: app_step_def)
qed (use assms in \<open>simp_all add: app_step_def\<close>)

lemma quiz_trap_run:
  assumes "appState s = QUIZ" and "\<not> pending s" and "\<not> isAnswered (quiz s)"
    and "currentIndex (quiz s) < length (questions s)"
    and "options (questions s ! currentIndex (quiz s)) = []"
  shows "app_run s es = s"
  by (induction es) (simp_all add: app_run_Cons quiz_trap_step [OF assms])

lemma ids_sequential_reindex: "ids_sequential (reindex qs)"
  by (simp add: ids_sequential_def reindex_ids)

lemma ids_sequential_step: "ids_sequential (questions s) \<Longrightarrow> ids_sequential (questions (app_step s e))"
  by (auto simp: app_step_def handleSubmit_def handleStart_def handleStartDone_def handleQuizFinish_def
      handleResetLeaderboard_def handleRestart_def handleRetry_def handleHome_def
      generateQuizQuestions_def ids_sequential_reindex Let_def split_beta
      split: AppEvent.splits sum.splits NextResult.splits GeminiReply.splits option.splits ParsedText.splits)

lemma sample_session_eq:
  "sample_session qs =
     \<lparr>appState = QUIZ, userName = ''Amy'', questions = reindex qs, leaderboard = [],
      currentScore = 0, errorMsg = None, quiz = quiz_init, pending = False, storage = Map.empty,
      gemini_apiKey = Some ''k''\<rparr>"
  by (simp add: sample_session_def app_run_Cons app_step_def app_renders_def app_init_def
      handleSubmit_def handleStart_def handleStartDone_def generateQuizQuestions_def js_trim_def
      js_whitespace_def getLeaderboard_def getApiKey_def sample_env_def js_truthy_str_def)

lemma reach_sample_session: "reach (\<lambda>_. True) (sample_session qs)"
  unfolding sample_session_def by (rule reach_app_run [OF reach.init]) simp

subsection \<open>Properties\<close>

text \<open>
  C9: the session can always be brought home.  In every reachable state whose screen
  renders and whose quiz (if one is showing) offers an option in every remaining
  question: on the loading screen, whatever the provider replies moves the session to
  the quiz or the error screen; on every other screen, some sequence of user events
  leads back to WELCOME.
\<close>

theorem session_returns_home:
  assumes "reach ok s" and "app_renders s" and "quiz_answerable s"
  shows "if appState s = LOADING
         then (\<forall>r. appState (app_step s (Provider_settled r)) \<in> {QUIZ, ERROR})
         else (\<exists>es. list_all user_event es \<and> appState (app_run s es) = WELCOME)"
proof -
  have inv: "app_inv s" using assms(1) by (rule reach_app_inv)
  show ?thesis
  proof (cases "appState s")
    case LOADING
    then have "pending s" using inv by (simp add: app_inv_def)
    then have "appState (app_step s (Provider_settled r)) \<in> {QUIZ, ERROR}" for r
      using LOADING
      by (simp add: app_step_def app_renders_def handleStartDone_def split: sum.splits)
    then show ?thesis using LOADING by simp
  next
    case QUIZ
    then show ?thesis using quiz_reaches_home [OF inv assms(2) QUIZ assms(3)] by simp
  qed (use home_in_one_click [OF inv] in simp_all)
qed

theorem session_returns_home_witness:
  "reach (\<lambda>_. True) (sample_session [sample_question]) \<and> app_renders (sample_session [sample_question]) \<and>
   quiz_answerable (sample_session [sample_question]) \<and>
   (\<exists>es. list_all user_event es \<and> appState (app_run (sample_session [sample_question]) es) = WELCOME)"
proof -
  have h1: "reach (\<lambda>_. True) (sample_session [sample_question])" by (rule reach_sample_session)
  have h2: "app_renders (sample_session [sample_question])"
    by (simp add: sample_session_eq app_renders_def quiz_renders_def quiz_init_def)
  have h3: "quiz_answerable (sample_session [sample_question])"
    by (simp add: sample_session_eq quiz_answerable_def quiz_init_def sample_question_def reindex_def)
  show ?thesis using session_returns_home [OF h1 h2 h3] h1 h2 h3 by (simp add: sample_session_eq)
qed

text \<open>
  C10: the design's promise fails for a batch with a question without options, which
  nothing rejects: the session shows that question with no option to click and no next
  button, and no sequence of events whatsoever changes the state again.
\<close>

theorem optionless_question_traps_session:
  "reach (\<lambda>_. True) (sample_session [sample_question\<lparr>options := []\<rparr>]) \<and>
   appState (sample_session [sample_question\<lparr>options := []\<rparr>]) = QUIZ \<and>
   app_renders (sample_session [sample_question\<lparr>options := []\<rparr>]) \<and>
   (\<forall>es. app_run (sample_session [sample_question\<lparr>options := []\<rparr>]) es =
           sample_session [sample_question\<lparr>options := []\<rparr>])"
proof -
  let ?s = "sample_session [sample_question\<lparr>options := []\<rparr>]"
  have "app_run ?s es = ?s" for es
    by (rule quiz_trap_run) (simp_all add: sample_session_eq quiz_init_def reindex_def)
  then show ?thesis
    using reach_sample_session
    by (simp add: sample_session_eq app_renders_def quiz_renders_def quiz_init_def)
qed

text \<open>
  C38: the question ids of every reachable state are \<open>1, ..., n\<close> in order, whatever
  ids the provider sent (the field's type in \<open>types.ts\<close> is \<open>number\<close>; the design
  types it as a batch-local integer from 1).
\<close>

theorem reachable_question_ids: "reach ok s \<Longrightarrow> ids_sequential (questions s)"
  by (induction rule: reach.induct) (simp add: app_init_def ids_sequential_def, rule ids_sequential_step)

theorem reachable_question_ids_witness:
  "reach (\<lambda>_. True) (sample_session [sample_question, sample_question]) \<and>
   map question_id (questions (sample_session [sample_question, sample_question])) = [1, 2]"
proof -
  have h: "reach (\<lambda>_. True) (sample_session [sample_question, sample_question])"
    by (rule reach_sample_session)
  show ?thesis using reachable_question_ids [OF h] h
    by (simp add: ids_sequential_def sample_session_eq reindex_def)
qed

end
