(* ===== verification/Json.thy ===== *)
theory Json
  imports Prelude
begin

text \<open>
  \<open>JSON.stringify\<close> and \<open>JSON.parse\<close> (ECMA-262, section 25.5), which
  \<open>src/services/storage.ts\<close> calls to write and read the leaderboard text, for the
  values the program stores: \<open>null\<close>, booleans, integers, strings, arrays and
  objects.  \<open>json_stringify\<close> follows SerializeJSONProperty with no indentation
  (QuoteJSONString escapes the quote, the backslash, and every control character, the
  five with a short form as \<open>\\b \\t \\n \\f \\r\<close> and the others as
  \<open>\\u00XX\<close>).  \<open>json_parse\<close> is the grammar of ECMA-404: a lexer \<open>lex\<close>
  (a \<open>function\<close> whose termination proof is that every token consumes input)
  and a stack machine \<open>parse_run\<close> over the tokens, one step per token.
  Characters are HOL's 8-bit \<open>char\<close>, so a \<open>\\u\<close> escape above \<open>00FF\<close> is
  rejected; numbers are integers, so a fraction or exponent is rejected (the program
  writes neither).  The main lemma, \<open>json_roundtrip\<close>, is that parsing the text of
  any value gives the value back.
\<close>

text \<open>A JSON value; an object keeps its members in order, duplicates included.\<close>

datatype json = JNull | JBool bool | JNum int | JStr string | JArr "json list" | JObj "(string \<times> json) list"

text \<open>Reading a member of a parsed object: with duplicate keys \<open>JSON.parse\<close> keeps the
  last one.\<close>

definition json_field :: "(string \<times> json) list \<Rightarrow> string \<Rightarrow> json option" where
  "json_field kvs k = map_of (rev kvs) k"

subsection \<open>JSON.stringify\<close>

definition hex_char :: "nat \<Rightarrow> char" where
  "hex_char d = (if d < 10 then char_of (48 + d) else char_of (87 + d))"

definition json_escape_char :: "char \<Rightarrow> string" where
  "json_escape_char c =
     (if c = CHR 0x22 then [CHR 0x5C, CHR 0x22]
      else if c = CHR 0x5C then [CHR 0x5C, CHR 0x5C]
      else if c = CHR 0x08 then [CHR 0x5C, CHR ''b'']
      else if c = CHR 0x09 then [CHR 0x5C, CHR ''t'']
      else if c = CHR 0x0A then [CHR 0x5C, CHR ''n'']
      else if c = CHR 0x0C then [CHR 0x5C, CHR ''f'']
      else if c = CHR 0x0D then [CHR 0x5C, CHR ''r'']
      else if of_char c < (32::nat) then
        [CHR 0x5C, CHR ''u'', CHR ''0'', CHR ''0'', hex_char (of_char c div 16), hex_char (of_char c mod 16)]
      else [c])"

definition json_quote :: "string \<Rightarrow> string" where
  "json_quote s = CHR 0x22 # concat (map json_escape_char s) @ [CHR 0x22]"

fun nat_digits :: "nat \<Rightarrow> string" where
  "nat_digits n = (if n < 10 then [char_of (48 + n)] else nat_digits (n div 10) @ [char_of (48 + n mod 10)])"

definition int_digits :: "int \<Rightarrow> string" where
  "int_digits i = (if i < 0 then CHR ''-'' # nat_digits (nat (- i)) else nat_digits (nat i))"

fun json_join :: "string list \<Rightarrow> string" where
  "json_join [] = []"
| "json_join [s] = s"
| "json_join (s # ss) = s @ '','' @ json_join ss"

fun json_stringify :: "json \<Rightarrow> string" where
  "json_stringify JNull = ''null''"
| "json_stringify (JBool b) = (if b then ''true'' else ''false'')"
| "json_stringify (JNum i) = int_digits i"
| "json_stringify (JStr s) = json_quote s"
| "json_stringify (JArr vs) = ''['' @ json_join (map json_stringify vs) @ '']''"
| "json_stringify (JObj kvs) =
     ''{'' @ json_join (map (\<lambda>(k, v). json_quote k @ '':'' @ json_stringify v) kvs) @ ''}''"


subsection \<open>JSON.parse: the lexer\<close>

datatype token = LBrack | RBrack | LBrace | RBrace | Comma | Colon
  | TStr string | TNum int | TTrue | TFalse | TNull

definition json_ws :: "char \<Rightarrow> bool" where
  "json_ws c \<longleftrightarrow> c = CHR '' '' \<or> c = CHR 0x09 \<or> c = CHR 0x0A \<or> c = CHR 0x0D"

definition is_digit :: "char \<Rightarrow> bool" where
  "is_digit c \<longleftrightarrow> (48::nat) \<le> of_char c \<and> of_char c \<le> (57::nat)"

definition digit_val :: "char \<Rightarrow> nat" where
  "digit_val c = of_char c - (48::nat)"

definition hex_val :: "char \<Rightarrow> nat option" where
  "hex_val c =
     (let n = (of_char c :: nat)
      in if 48 \<le> n \<and> n \<le> 57 then Some (n - 48)
         else if 97 \<le> n \<and> n \<le> 102 then Some (n - 87)
         else if 65 \<le> n \<and> n \<le> 70 then Some (n - 55)
         else None)"

definition simple_escape :: "char \<Rightarrow> char option" where
  "simple_escape c =
     (if c = CHR 0x22 then Some (CHR 0x22) else if c = CHR 0x5C then Some (CHR 0x5C)
      else if c = CHR ''/'' then Some (CHR ''/'') else if c = CHR ''b'' then Some (CHR 0x08)
      else if c = CHR ''f'' then Some (CHR 0x0C) else if c = CHR ''n'' then Some (CHR 0x0A)
      else if c = CHR ''r'' then Some (CHR 0x0D) else if c = CHR ''t'' then Some (CHR 0x09)
      else None)"

definition hex4 :: "char \<Rightarrow> char \<Rightarrow> char \<Rightarrow> char \<Rightarrow> nat option" where
  "hex4 a b c d =
     (case (hex_val a, hex_val b, hex_val c, hex_val d) of
        (Some w, Some x, Some y, Some z) \<Rightarrow> Some (((w * 16 + x) * 16 + y) * 16 + z)
      | _ \<Rightarrow> None)"

fun lex_string :: "string \<Rightarrow> string \<Rightarrow> (string \<times> string) option" where
  "lex_string acc [] = None"
| "lex_string acc (c # r) =
     (if c = CHR 0x22 then Some (rev acc, r)
      else if c = CHR 0x5C then
        (case r of
           e # r' \<Rightarrow>
             (if e = CHR ''u'' then
                (case r' of
                   a # b # c' # d # r'' \<Rightarrow>
                     (case hex4 a b c' d of
                        Some v \<Rightarrow> (if v < 256 then lex_string (char_of v # acc) r'' else None)
                      | None \<Rightarrow> None)
                 | _ \<Rightarrow> None)
              else (case simple_escape e of Some ch \<Rightarrow> lex_string (ch # acc) r' | None \<Rightarrow> None))
         | [] \<Rightarrow> None)
      else if of_char c < (32::nat) then None
      else lex_string (c # acc) r)"

definition lex_number :: "string \<Rightarrow> (token \<times> string) option" where
  "lex_number s =
     (let neg = (s \<noteq> [] \<and> hd s = CHR ''-'');
          s1 = (if neg then tl s else s);
          ds = takeWhile is_digit s1;
          r = dropWhile is_digit s1
      in if ds = [] \<or> (hd ds = CHR ''0'' \<and> length ds > 1) then None
         else if r \<noteq> [] \<and> hd r \<in> {CHR ''.'', CHR ''e'', CHR ''E''} then None
         else Some (TNum ((if neg then -1 else 1) * int (foldl (\<lambda>n d. 10 * n + digit_val d) 0 ds)), r))"

definition punct_token :: "char \<Rightarrow> token option" where
  "punct_token c =
     (if c = CHR ''['' then Some LBrack else if c = CHR '']'' then Some RBrack
      else if c = CHR ''{'' then Some LBrace else if c = CHR ''}'' then Some RBrace
      else if c = CHR '','' then Some Comma else if c = CHR '':'' then Some Colon
      else None)"

definition lex_token :: "string \<Rightarrow> (token \<times> string) option" where
  "lex_token s =
     (case s of
        [] \<Rightarrow> None
      | c # r \<Rightarrow>
          (case punct_token c of
             Some t \<Rightarrow> Some (t, r)
           | None \<Rightarrow>
               if c = CHR 0x22 then map_option (\<lambda>(str, r'). (TStr str, r')) (lex_string [] r)
               else if c = CHR ''-'' \<or> is_digit c then lex_number s
               else if take 4 s = ''true'' then Some (TTrue, drop 4 s)
               else if take 5 s = ''false'' then Some (TFalse, drop 5 s)
               else if take 4 s = ''null'' then Some (TNull, drop 4 s)
               else None))"

lemma lex_string_shorter: "lex_string acc s = Some (x, r) \<Longrightarrow> length r < length s"
proof (induction acc s rule: lex_string.induct)
  case (1 acc)
  then show ?case by simp
next
  case (2 acc c r0)
  show ?case
  proof (cases "c = CHR 0x22 \<or> c \<noteq> CHR 0x5C")
    case True
    then show ?thesis using 2 by (auto split: if_splits)
  next
    case False
    then obtain e r' where r0: "r0 = e # r'" using 2(4) by (cases r0) auto
    show ?thesis
    proof (cases "e = CHR ''u''")
      case True
      then obtain a b c' d r'' v where "r' = a # b # c' # d # r''" and "hex4 a b c' d = Some v" and "v < 256"
        and "lex_string (char_of v # acc) r'' = Some (x, r)"
        using 2(4) False r0 by (auto split: list.splits option.splits if_splits)
      then show ?thesis using 2(1) False r0 True by fastforce
    next
      case eu: False
      then obtain ch where "simple_escape e = Some ch" and "lex_string (ch # acc) r' = Some (x, r)"
        using 2(4) False r0 by (auto split: option.splits)
      then show ?thesis using 2(2) False r0 eu by fastforce
    qed
  qed
qed

lemma length_dropWhile_le: "length (dropWhile P xs) \<le> length xs"
  by (induction xs) auto

lemma lex_number_shorter: "lex_number s = Some (t, r) \<Longrightarrow> length r < length s"
proof -
  assume a: "lex_number s = Some (t, r)"
  let ?neg = "s \<noteq> [] \<and> hd s = CHR ''-''"
  let ?s1 = "if ?neg then tl s else s"
  have ds: "takeWhile is_digit ?s1 \<noteq> []" and r: "r = dropWhile is_digit ?s1"
    using a by (auto simp: lex_number_def Let_def split: if_splits)
  have "length (dropWhile is_digit ?s1) < length ?s1"
  proof -
    have "length ?s1 = length (takeWhile is_digit ?s1) + length (dropWhile is_digit ?s1)"
      by (metis length_append takeWhile_dropWhile_id)
    then show ?thesis using ds by simp
  qed
  moreover have "length ?s1 \<le> length s" by auto
  ultimately show ?thesis unfolding r by (rule less_le_trans)
qed

lemma lex_token_shorter: "lex_token s = Some (t, r) \<Longrightarrow> length r < length s"
proof -
  assume a: "lex_token s = Some (t, r)"
  then obtain c cs where s: "s = c # cs" by (cases s) (simp_all add: lex_token_def)
  show ?thesis
  proof (cases "punct_token c")
    case (Some t')
    then show ?thesis using a s by (simp add: lex_token_def)
  next
    case None
    consider (str) x where "c = CHR 0x22" "lex_string [] cs = Some (x, r)"
      | (num) "lex_number s = Some (t, r)"
      | (kw) "r = drop 4 s \<or> r = drop 5 s"
      using a s None by (auto simp: lex_token_def split: if_splits)
    then show ?thesis
    proof cases
      case str
      then show ?thesis using s by (auto dest: lex_string_shorter)
    next
      case num
      then show ?thesis by (rule lex_number_shorter)
    next
      case kw
      then show ?thesis using s by auto
    qed
  qed
qed

function lex :: "string \<Rightarrow> token list option" where
  "lex s =
     (let s' = dropWhile json_ws s
      in if s' = [] then Some []
         else case lex_token s' of None \<Rightarrow> None | Some (t, r) \<Rightarrow> map_option (Cons t) (lex r))"
  by pat_completeness auto
termination
  by (relation "measure length")
     (auto dest!: lex_token_shorter intro: less_le_trans length_dropWhile_le)

declare lex.simps [simp del]

subsection \<open>JSON.parse: the parser\<close>

text \<open>
  The open containers: an array with its elements so far, an object with its members so
  far, and an object whose next member has its key read but not its value.
\<close>

datatype frame = Arr_frame "json list" | Obj_frame "(string \<times> json) list"
  | Key_frame "(string \<times> json) list" string

datatype pmode = Want_value | Want_value_or_close | Want_key | Want_key_or_close | Want_colon
  | Want_sep | Parsed json

definition close_value :: "json \<Rightarrow> frame list \<Rightarrow> (pmode \<times> frame list) option" where
  "close_value v st =
     (case st of
        [] \<Rightarrow> Some (Parsed v, [])
      | Arr_frame es # st' \<Rightarrow> Some (Want_sep, Arr_frame (v # es) # st')
      | Key_frame ms k # st' \<Rightarrow> Some (Want_sep, Obj_frame ((k, v) # ms) # st')
      | Obj_frame _ # _ \<Rightarrow> None)"

definition start_value :: "token \<Rightarrow> frame list \<Rightarrow> (pmode \<times> frame list) option" where
  "start_value t st =
     (case t of
        LBrack \<Rightarrow> Some (Want_value_or_close, Arr_frame [] # st)
      | LBrace \<Rightarrow> Some (Want_key_or_close, Obj_frame [] # st)
      | TStr s \<Rightarrow> close_value (JStr s) st
      | TNum i \<Rightarrow> close_value (JNum i) st
      | TTrue \<Rightarrow> close_value (JBool True) st
      | TFalse \<Rightarrow> close_value (JBool False) st
      | TNull \<Rightarrow> close_value JNull st
      | _ \<Rightarrow> None)"

definition close_container :: "token \<Rightarrow> frame list \<Rightarrow> (pmode \<times> frame list) option" where
  "close_container t st =
     (case (t, st) of
        (RBrack, Arr_frame es # st') \<Rightarrow> close_value (JArr (rev es)) st'
      | (RBrace, Obj_frame ms # st') \<Rightarrow> close_value (JObj (rev ms)) st'
      | _ \<Rightarrow> None)"

definition start_key :: "token \<Rightarrow> frame list \<Rightarrow> (pmode \<times> frame list) option" where
  "start_key t st =
     (case (t, st) of
        (TStr k, Obj_frame ms # st') \<Rightarrow> Some (Want_colon, Key_frame ms k # st')
      | _ \<Rightarrow> None)"

fun parse_step :: "token \<Rightarrow> pmode \<Rightarrow> frame list \<Rightarrow> (pmode \<times> frame list) option" where
  "parse_step t Want_value st = start_value t st"
| "parse_step t Want_value_or_close st = (if t = RBrack then close_container t st else start_value t st)"
| "parse_step t Want_key st = start_key t st"
| "parse_step t Want_key_or_close st = (if t = RBrace then close_container t st else start_key t st)"
| "parse_step t Want_colon st = (if t = Colon then Some (Want_value, st) else None)"
| "parse_step t Want_sep st =
     (if t = Comma then
        (case st of
           Arr_frame _ # _ \<Rightarrow> Some (Want_value, st)
         | Obj_frame _ # _ \<Rightarrow> Some (Want_key, st)
         | _ \<Rightarrow> None)
      else close_container t st)"
| "parse_step t (Parsed v) st = None"

fun parse_run :: "token list \<Rightarrow> pmode \<Rightarrow> frame list \<Rightarrow> json option" where
  "parse_run [] m st = (case (m, st) of (Parsed v, []) \<Rightarrow> Some v | _ \<Rightarrow> None)"
| "parse_run (t # ts) m st =
     (case parse_step t m st of None \<Rightarrow> None | Some (m', st') \<Rightarrow> parse_run ts m' st')"

definition json_parse :: "string \<Rightarrow> json option" where
  "json_parse s = (case lex s of None \<Rightarrow> None | Some ts \<Rightarrow> parse_run ts Want_value [])"


subsection \<open>Parsing the tokens of a value\<close>

text \<open>The tokens the text of a value consists of.\<close>

fun tok_join :: "token list list \<Rightarrow> token list" where
  "tok_join [] = []"
| "tok_join [ts] = ts"
| "tok_join (ts # tss) = ts @ Comma # tok_join tss"

fun json_tokens :: "json \<Rightarrow> token list" where
  "json_tokens JNull = [TNull]"
| "json_tokens (JBool b) = [if b then TTrue else TFalse]"
| "json_tokens (JNum i) = [TNum i]"
| "json_tokens (JStr s) = [TStr s]"
| "json_tokens (JArr vs) = LBrack # tok_join (map json_tokens vs) @ [RBrack]"
| "json_tokens (JObj kvs) = LBrace # tok_join (map (\<lambda>(k, v). TStr k # Colon # json_tokens v) kvs) @ [RBrace]"


text \<open>The tokens of one value, read in a position where a value is expected.\<close>

abbreviation value_pos :: "pmode \<Rightarrow> bool" where
  "value_pos m \<equiv> m = Want_value \<or> m = Want_value_or_close"

lemma parse_elems:
  assumes IH: "\<And>v ts m st. v \<in> set vs \<Longrightarrow> value_pos m \<Longrightarrow>
       parse_run (json_tokens v @ ts) m st =
         (case close_value v st of None \<Rightarrow> None | Some (m', st') \<Rightarrow> parse_run ts m' st')"
    and "vs \<noteq> []" and "value_pos m"
  shows "parse_run (tok_join (map json_tokens vs) @ RBrack # ts) m (Arr_frame acc # st) =
           (case close_value (JArr (rev acc @ vs)) st of None \<Rightarrow> None | Some (m', st') \<Rightarrow> parse_run ts m' st')"
  using assms
proof (induction vs arbitrary: acc m)
  case Nil
  then show ?case by simp
next
  case (Cons v vs)
  have hv: "parse_run (json_tokens v @ ts') m' st' =
      (case close_value v st' of None \<Rightarrow> None | Some (m'', st'') \<Rightarrow> parse_run ts' m'' st'')"
    if "value_pos m'" for ts' m' st'
    using Cons.prems(1) [of v] that by simp
  show ?case
  proof (cases "vs = []")
    case True
    then show ?thesis
      using hv [where ts' = "[RBrack] @ ts" and m' = m and st' = "Arr_frame acc # st"] Cons.prems(3)
      by (simp add: close_value_def close_container_def)
  next
    case False
    have "tok_join (map json_tokens (v # vs)) = json_tokens v @ Comma # tok_join (map json_tokens vs)"
      using False by (cases vs) simp_all
    then show ?thesis
      using hv [where ts' = "Comma # tok_join (map json_tokens vs) @ RBrack # ts" and m' = m and st' = "Arr_frame acc # st"]
        Cons.IH [where acc = "v # acc" and m = Want_value] Cons.prems(1) False Cons.prems(3)
      by (simp add: close_value_def)
  qed
qed

abbreviation key_pos :: "pmode \<Rightarrow> bool" where
  "key_pos m \<equiv> m = Want_key \<or> m = Want_key_or_close"

lemma parse_members:
  assumes IH: "\<And>v ts m st. v \<in> snd ` set kvs \<Longrightarrow> value_pos m \<Longrightarrow>
       parse_run (json_tokens v @ ts) m st =
         (case close_value v st of None \<Rightarrow> None | Some (m', st') \<Rightarrow> parse_run ts m' st')"
    and "kvs \<noteq> []" and "key_pos m"
  shows "parse_run (tok_join (map (\<lambda>(k, v). TStr k # Colon # json_tokens v) kvs) @ RBrace # ts) m
           (Obj_frame acc # st) =
         (case close_value (JObj (rev acc @ kvs)) st of None \<Rightarrow> None | Some (m', st') \<Rightarrow> parse_run ts m' st')"
  using assms
proof (induction kvs arbitrary: acc m)
  case Nil
  then show ?case by simp
next
  case (Cons kv kvs)
  obtain k v where kv: "kv = (k, v)" by (cases kv)
  have hv: "parse_run (json_tokens v @ ts') Want_value st' =
      (case close_value v st' of None \<Rightarrow> None | Some (m'', st'') \<Rightarrow> parse_run ts' m'' st'')" for ts' st'
    using Cons.prems(1) [of v Want_value] kv by simp
  have key: "parse_run (TStr k # Colon # xs) m (Obj_frame acc # st) =
      parse_run xs Want_value (Key_frame acc k # st)" for xs
    using Cons.prems(3) by (auto simp: start_key_def)
  show ?case
  proof (cases "kvs = []")
    case True
    then show ?thesis
      using key hv [where ts' = "[RBrace] @ ts" and st' = "Key_frame acc k # st"] kv
      by (simp add: close_value_def close_container_def)
  next
    case False
    have "tok_join (map (\<lambda>(k, v). TStr k # Colon # json_tokens v) (kv # kvs)) =
          (TStr k # Colon # json_tokens v) @ Comma # tok_join (map (\<lambda>(k, v). TStr k # Colon # json_tokens v) kvs)"
      using False kv by (cases kvs) simp_all
    then show ?thesis
      using key hv [where ts' = "Comma # tok_join (map (\<lambda>(k, v). TStr k # Colon # json_tokens v) kvs) @ RBrace # ts"
          and st' = "Key_frame acc k # st"]
        Cons.IH [where acc = "(k, v) # acc" and m = Want_key] Cons.prems(1) False kv
      by (simp add: close_value_def)
  qed
qed

lemma parse_value:
  "value_pos m \<Longrightarrow>
   parse_run (json_tokens v @ ts) m st =
     (case close_value v st of None \<Rightarrow> None | Some (m', st') \<Rightarrow> parse_run ts m' st')"
proof (induction v arbitrary: ts m st)
  case (JArr vs)
  show ?case
  proof (cases "vs = []")
    case True
    then show ?thesis using JArr.prems by (auto simp: start_value_def close_container_def)
  next
    case False
    have "parse_run (tok_join (map json_tokens vs) @ RBrack # ts) Want_value_or_close (Arr_frame [] # st) =
          (case close_value (JArr (rev [] @ vs)) st of None \<Rightarrow> None | Some (m', st') \<Rightarrow> parse_run ts m' st')"
      by (rule parse_elems) (use JArr.IH False in auto)
    then show ?thesis using JArr.prems by (auto simp: start_value_def)
  qed
next
  case (JObj kvs)
  show ?case
  proof (cases "kvs = []")
    case True
    then show ?thesis using JObj.prems by (auto simp: start_value_def close_container_def)
  next
    case False
    have "parse_run (tok_join (map (\<lambda>(k, v). TStr k # Colon # json_tokens v) kvs) @ RBrace # ts)
            Want_key_or_close (Obj_frame [] # st) =
          (case close_value (JObj (rev [] @ kvs)) st of None \<Rightarrow> None | Some (m', st') \<Rightarrow> parse_run ts m' st')"
      by (rule parse_members) (use JObj.IH False in \<open>auto simp: snd_def\<close>)
    then show ?thesis using JObj.prems by (auto simp: start_value_def)
  qed
qed (auto simp: start_value_def split: option.splits)

lemma parse_run_tokens: "parse_run (json_tokens v) Want_value [] = Some v"
  using parse_value [of Want_value v "[]" "[]"] by (simp add: close_value_def)

subsection \<open>Lexing the text of a value\<close>

lemma lex_Nil [simp]: "lex [] = Some []"
  by (subst lex.simps) simp

lemma lex_Cons_token:
  "\<not> json_ws c \<Longrightarrow> lex_token (c # s) = Some (t, r) \<Longrightarrow> lex (c # s) = map_option (Cons t) (lex r)"
  by (subst lex.simps) simp

lemma of_char_digit: "(d::nat) < 10 \<Longrightarrow> of_char (char_of (48 + d)) = 48 + d"
  by simp

lemma digit_char: "(d::nat) < 10 \<Longrightarrow> is_digit (char_of (48 + d)) \<and> digit_val (char_of (48 + d)) = d"
  using of_char_digit [of d] unfolding is_digit_def digit_val_def by simp

declare nat_digits.simps [simp del]

lemma nat_digits_small: "n < 10 \<Longrightarrow> nat_digits n = [char_of (48 + n)]"
  by (subst nat_digits.simps) simp

lemma nat_digits_big: "\<not> n < 10 \<Longrightarrow> nat_digits n = nat_digits (n div 10) @ [char_of (48 + n mod 10)]"
  by (subst nat_digits.simps) simp

lemma nat_digits_Nil [simp]: "nat_digits n \<noteq> []"
  by (cases "n < 10") (simp_all add: nat_digits_small nat_digits_big)

lemma nat_digits_digits: "\<forall>c\<in>set (nat_digits n). is_digit c"
proof (induction n rule: nat_digits.induct)
  case (1 n)
  then show ?case by (cases "n < 10") (auto simp: nat_digits_small nat_digits_big digit_char)
qed

lemma nat_digits_value: "foldl (\<lambda>n d. 10 * n + digit_val d) 0 (nat_digits n) = n"
proof (induction n rule: nat_digits.induct)
  case (1 n)
  then show ?case by (cases "n < 10") (auto simp: nat_digits_small nat_digits_big digit_char)
qed

lemma nat_digits_hd: "0 < n \<Longrightarrow> hd (nat_digits n) \<noteq> CHR ''0''"
proof (induction n rule: nat_digits.induct)
  case (1 n)
  show ?case
  proof (cases "n < 10")
    case True
    show ?thesis
    proof
      assume "hd (nat_digits n) = CHR ''0''"
      then have "of_char (char_of (48 + n)) = (of_char (CHR ''0'') :: nat)"
        using True by (simp add: nat_digits_small)
      then show False using of_char_digit [OF True] 1(2) by simp
    qed
  next
    case False
    then show ?thesis using 1 by (simp add: nat_digits_big)
  qed
qed

definition follow_ok :: "string \<Rightarrow> bool" where
  "follow_ok s \<longleftrightarrow> s = [] \<or> hd s = CHR '','' \<or> hd s = CHR '']'' \<or> hd s = CHR ''}''"

lemma follow_ok_not_digit: "follow_ok s \<Longrightarrow> s \<noteq> [] \<Longrightarrow> \<not> is_digit (hd s)"
  by (auto simp: follow_ok_def is_digit_def)

lemma digits_prefix:
  assumes "\<forall>c\<in>set ds. is_digit c" and "follow_ok s"
  shows "takeWhile is_digit (ds @ s) = ds \<and> dropWhile is_digit (ds @ s) = s"
proof -
  have "takeWhile is_digit s = [] \<and> dropWhile is_digit s = s"
    using follow_ok_not_digit [OF assms(2)] by (cases s) simp_all
  then show ?thesis using assms(1) by simp
qed

lemma lex_number_digits:
  assumes "follow_ok s"
  shows "lex_number (int_digits i @ s) = Some (TNum i, s)"
proof -
  let ?m = "nat \<bar>i\<bar>"
  let ?ds = "nat_digits ?m"
  have ds: "takeWhile is_digit (?ds @ s) = ?ds" "dropWhile is_digit (?ds @ s) = s"
    using digits_prefix [OF nat_digits_digits assms] by simp_all
  have lead: "\<not> (hd ?ds = CHR ''0'' \<and> 1 < length ?ds)"
    using nat_digits_hd [of ?m] by (cases "?m = 0") (simp_all add: nat_digits_small)
  have tail: "\<not> (s \<noteq> [] \<and> hd s \<in> {CHR ''.'', CHR ''e'', CHR ''E''})"
    using assms by (auto simp: follow_ok_def)
  have val: "int (foldl (\<lambda>n d. 10 * n + digit_val d) 0 ?ds) = \<bar>i\<bar>"
    by (simp add: nat_digits_value)
  show ?thesis
  proof (cases "i < 0")
    case True
    then show ?thesis using ds lead tail val
      by (simp add: lex_number_def int_digits_def Let_def)
  next
    case False
    have "hd (?ds @ s) \<noteq> CHR ''-''"
    proof -
      have "is_digit (hd ?ds)" using nat_digits_digits [of ?m] by simp
      then show ?thesis by (auto simp: is_digit_def)
    qed
    then show ?thesis using False ds lead tail val
      by (simp add: lex_number_def int_digits_def Let_def)
  qed
qed

lemma lex_int:
  assumes "follow_ok s"
  shows "lex (int_digits i @ s) = map_option (Cons (TNum i)) (lex s)"
proof -
  obtain c cs where c: "int_digits i = c # cs"
    by (cases "int_digits i") (auto simp: int_digits_def split: if_splits)
  have "c = CHR ''-'' \<or> is_digit c"
    using c nat_digits_digits [of "nat (- i)"] nat_digits_digits [of "nat i"]
    by (cases "nat_digits (nat i)") (auto simp: int_digits_def split: if_splits)
  then have "\<not> json_ws c" and "punct_token c = None" and "c \<noteq> CHR 0x22"
    by (auto simp: json_ws_def punct_token_def is_digit_def)
  moreover have "lex_token (c # cs @ s) = Some (TNum i, s)"
    using lex_number_digits [OF assms, of i] c \<open>c = CHR ''-'' \<or> is_digit c\<close> calculation
    by (simp add: lex_token_def)
  ultimately show ?thesis using c by (simp add: lex_Cons_token)
qed

lemma hex_val_hex_char: "d < 16 \<Longrightarrow> hex_val (hex_char d) = Some d"
  by (auto simp: hex_val_def hex_char_def Let_def)

lemma lex_string_escape: "lex_string acc (json_escape_char c @ r) = lex_string (c # acc) r"
proof -
  consider (special) "c \<in> {CHR 0x22, CHR 0x5C, CHR 0x08, CHR 0x09, CHR 0x0A, CHR 0x0C, CHR 0x0D}"
    | (ctrl) "c \<notin> {CHR 0x22, CHR 0x5C, CHR 0x08, CHR 0x09, CHR 0x0A, CHR 0x0C, CHR 0x0D}"
             "of_char c < (32::nat)"
    | (plain) "c \<notin> {CHR 0x22, CHR 0x5C, CHR 0x08, CHR 0x09, CHR 0x0A, CHR 0x0C, CHR 0x0D}"
              "\<not> of_char c < (32::nat)"
    by blast
  then show ?thesis
  proof cases
    case special
    then show ?thesis by (auto simp: json_escape_char_def simple_escape_def)
  next
    case ctrl
    let ?n = "of_char c :: nat"
    have h0: "hex_val (CHR ''0'') = Some 0" by (simp add: hex_val_def)
    have "?n div 16 < 16" using ctrl(2) by simp
    then have "hex4 (CHR ''0'') (CHR ''0'') (hex_char (?n div 16)) (hex_char (?n mod 16)) = Some ?n"
      by (simp add: hex4_def hex_val_hex_char h0)
    then show ?thesis using ctrl by (simp add: json_escape_char_def)
  next
    case plain
    then show ?thesis by (simp add: json_escape_char_def)
  qed
qed

lemma lex_string_body:
  "lex_string acc (concat (map json_escape_char str) @ CHR 0x22 # r) = Some (rev acc @ str, r)"
  by (induction str arbitrary: acc) (simp_all add: lex_string_escape)

lemma lex_quote: "lex (json_quote str @ s) = map_option (Cons (TStr str)) (lex s)"
proof -
  have "lex_token (CHR 0x22 # concat (map json_escape_char str) @ CHR 0x22 # s) = Some (TStr str, s)"
    using lex_string_body [of "[]" str s] by (simp add: lex_token_def punct_token_def)
  then show ?thesis by (simp add: json_quote_def lex_Cons_token json_ws_def)
qed

lemma lex_punct: "punct_token c = Some t \<Longrightarrow> lex (c # s) = map_option (Cons t) (lex s)"
  by (rule lex_Cons_token) (auto simp: lex_token_def punct_token_def json_ws_def split: if_splits)

lemma lex_keyword:
  "lex (''null'' @ s) = map_option (Cons TNull) (lex s)"
  "lex (''true'' @ s) = map_option (Cons TTrue) (lex s)"
  "lex (''false'' @ s) = map_option (Cons TFalse) (lex s)"
  by (simp_all add: lex_Cons_token lex_token_def punct_token_def json_ws_def is_digit_def)

lemma lex_join:
  assumes "list_all2 (\<lambda>str ts. \<forall>s. follow_ok s \<longrightarrow> lex (str @ s) = map_option ((@) ts) (lex s)) strs tss"
    and "follow_ok s"
  shows "lex (json_join strs @ s) = map_option ((@) (tok_join tss)) (lex s)"
  using assms
proof (induction strs tss rule: list_induct2')
  case (4 str strs ts tss)
  show ?case
  proof (cases "strs = []")
    case True
    then show ?thesis using 4 by simp
  next
    case False
    then obtain str' strs' ts' tss' where "strs = str' # strs'" and "tss = ts' # tss'"
      using 4(2) by (cases strs; cases tss) auto
    moreover have "lex (CHR '','' # json_join strs @ s) = map_option (Cons Comma) (lex (json_join strs @ s))"
      by (rule lex_punct) (simp add: punct_token_def)
    moreover have "follow_ok (CHR '','' # json_join strs @ s)" by (simp add: follow_ok_def)
    ultimately show ?thesis using 4 by (auto simp: option.map_comp comp_def)
  qed
qed (simp_all add: map_option_case split: option.splits)

lemma lex_stringify:
  "follow_ok s \<Longrightarrow> lex (json_stringify v @ s) = map_option ((@) (json_tokens v)) (lex s)"
proof (induction v arbitrary: s)
  case JNull
  then show ?case using lex_keyword(1) by (simp add: option.map_comp comp_def)
next
  case (JBool b)
  then show ?case using lex_keyword(2,3) by (simp add: option.map_comp comp_def)
next
  case (JNum i)
  then show ?case by (simp add: lex_int option.map_comp comp_def)
next
  case (JStr str)
  then show ?case by (simp add: lex_quote option.map_comp comp_def)
next
  case (JArr vs)
  have fo: "follow_ok (CHR '']'' # s)" by (simp add: follow_ok_def)
  have close: "lex (CHR '']'' # s) = map_option (Cons RBrack) (lex s)"
    by (rule lex_punct) (simp add: punct_token_def)
  have "lex (json_join (map json_stringify vs) @ CHR '']'' # s) =
        map_option ((@) (tok_join (map json_tokens vs))) (lex (CHR '']'' # s))"
    by (rule lex_join [OF _ fo]) (use JArr.IH in \<open>auto simp: list_all2_map1 list_all2_map2 list_all2_same\<close>)
  moreover have "lex (CHR ''['' # json_join (map json_stringify vs) @ CHR '']'' # s) =
        map_option (Cons LBrack) (lex (json_join (map json_stringify vs) @ CHR '']'' # s))"
    by (rule lex_punct) (simp add: punct_token_def)
  ultimately show ?case using close by (simp add: option.map_comp comp_def)
next
  case (JObj kvs)
  have fo: "follow_ok (CHR ''}'' # s)" by (simp add: follow_ok_def)
  have close: "lex (CHR ''}'' # s) = map_option (Cons RBrace) (lex s)"
    by (rule lex_punct) (simp add: punct_token_def)
  have colon: "lex (CHR '':'' # x) = map_option (Cons Colon) (lex x)" for x
    by (rule lex_punct) (simp add: punct_token_def)
  have mem: "lex (json_quote k @ CHR '':'' # json_stringify v @ s') =
             map_option ((@) (TStr k # Colon # json_tokens v)) (lex s')"
    if "(k, v) \<in> set kvs" and "follow_ok s'" for k v s'
  proof -
    have "v \<in> snd ` set kvs" using that(1) by force
    then have "lex (json_stringify v @ s') = map_option ((@) (json_tokens v)) (lex s')"
      using JObj.IH that(2) by (auto simp: snd_def)
    then show ?thesis
      by (simp add: lex_quote colon [of "json_stringify v @ s'"] map_option_case split: option.splits)
  qed
  have "lex (json_join (map (\<lambda>(k, v). json_quote k @ '':'' @ json_stringify v) kvs) @ CHR ''}'' # s) =
        map_option ((@) (tok_join (map (\<lambda>(k, v). TStr k # Colon # json_tokens v) kvs))) (lex (CHR ''}'' # s))"
    by (rule lex_join [OF _ fo]) (use mem in \<open>auto simp: list_all2_map1 list_all2_map2 list_all2_same\<close>)
  moreover have "lex (CHR ''{'' # json_join (map (\<lambda>(k, v). json_quote k @ '':'' @ json_stringify v) kvs) @ CHR ''}'' # s) =
        map_option (Cons LBrace) (lex (json_join (map (\<lambda>(k, v). json_quote k @ '':'' @ json_stringify v) kvs) @ CHR ''}'' # s))"
    by (rule lex_punct) (simp add: punct_token_def)
  ultimately show ?case using close by (simp add: option.map_comp comp_def)
qed

theorem json_roundtrip: "json_parse (json_stringify v) = Some v"
  using lex_stringify [of "[]" v] parse_run_tokens [of v]
  by (simp add: json_parse_def follow_ok_def)

end
