(* ===== verification/Storage_Text.thy ===== *)
theory Storage_Text
  imports Storage Json
begin

text \<open>
  The leaderboard store of \<open>src/services/storage.ts\<close> at the level of the text that
  \<open>localStorage\<close> really holds.  \<open>getLeaderboard_js\<close> is \<open>getLeaderboard\<close> with
  its result a JavaScript value: \<open>JSON.parse\<close> of the stored text, unchecked.
  \<open>saveScore_text\<close> writes \<open>JSON.stringify(updated)\<close>.  The theory \<open>Storage\<close>
  keeps the stored value as the entries it encodes (\<open>StoredBlob\<close>).
  \<open>abs_storage\<close> maps a text store to that view.  The lemmas show the view is
  exact for every text the program writes: saving and reading back round-trips, and
  on stores whose text is absent, unparsable or an encoded board (\<open>text_ok\<close>, kept
  by every write) the text-level operations refine the entry-level ones.  A stored
  text that parses to something else, such as \<open>null\<close>, is returned as it is.
\<close>

type_synonym text_storage = "string \<rightharpoonup> string"

text \<open>A leaderboard entry as \<open>JSON.stringify\<close> sees the object \<open>saveScore\<close> builds
  (its keys in the order of the literal).\<close>

definition json_of_entry :: "LeaderboardEntry \<Rightarrow> json" where
  "json_of_entry e =
     JObj [(''id'', JStr (entry_id e)), (''name'', JStr (name e)),
           (''score'', JNum (score e)), (''timestamp'', JNum (timestamp e))]"

definition json_of_entries :: "LeaderboardEntry list \<Rightarrow> json" where
  "json_of_entries es = JArr (map json_of_entry es)"

definition entry_of_json :: "json \<Rightarrow> LeaderboardEntry option" where
  "entry_of_json v =
     (case v of
        JObj kvs \<Rightarrow>
          (case (json_field kvs ''id'', json_field kvs ''name'', json_field kvs ''score'',
                 json_field kvs ''timestamp'') of
             (Some (JStr i), Some (JStr n), Some (JNum sc), Some (JNum t)) \<Rightarrow>
               Some \<lparr>entry_id = i, name = n, score = sc, timestamp = t\<rparr>
           | _ \<Rightarrow> None)
      | _ \<Rightarrow> None)"

definition entries_of_json :: "json \<Rightarrow> LeaderboardEntry list option" where
  "entries_of_json v = (case v of JArr vs \<Rightarrow> those (map entry_of_json vs) | _ \<Rightarrow> None)"

text \<open>
  \<open>getLeaderboard\<close> (lines 5--14): \<open>getItem\<close> gives \<open>null\<close> for an absent key;
  \<open>!data\<close> holds for \<open>null\<close> and the empty string; a parse error is caught.
\<close>

definition getLeaderboard_js :: "text_storage \<Rightarrow> json" where
  "getLeaderboard_js st =
     (case st STORAGE_KEY of
        None \<Rightarrow> JArr []
      | Some data \<Rightarrow>
          (if data = [] then JArr []
           else case json_parse data of None \<Rightarrow> JArr [] | Some v \<Rightarrow> v))"

text \<open>
  The spread \<open>[...current, newEntry]\<close> of \<open>saveScore\<close> (line 25) iterates its
  operand: an array gives its elements, a string its characters, and any other value
  throws a TypeError (\<open>None\<close>).
\<close>

definition js_spread :: "json \<Rightarrow> json list option" where
  "js_spread v = (case v of JArr vs \<Rightarrow> Some vs | JStr s \<Rightarrow> Some (map (\<lambda>c. JStr [c]) s) | _ \<Rightarrow> None)"

text \<open>What the entry-level model reads from a stored text.\<close>

definition stored_blob :: "string \<Rightarrow> StoredBlob" where
  "stored_blob data =
     (case json_parse data of
        Some v \<Rightarrow> (case entries_of_json v of Some es \<Rightarrow> Json_entries es | None \<Rightarrow> Unparsable)
      | None \<Rightarrow> Unparsable)"

definition abs_storage :: "text_storage \<Rightarrow> local_storage" where
  "abs_storage st = (\<lambda>k. map_option stored_blob (st k))"

text \<open>
  \<open>saveScore\<close> (lines 16--31) on the text store: the entries the stored text holds,
  the new entry appended, the stable sort, the slice, and \<open>setItem\<close> of
  \<open>JSON.stringify(updated)\<close>.
\<close>

definition saveScore_text ::
  "text_storage \<Rightarrow> string \<Rightarrow> int \<Rightarrow> string \<Rightarrow> int \<Rightarrow> LeaderboardEntry list \<times> text_storage" where
  "saveScore_text st nm sc uuid now =
     (let current = getLeaderboard (abs_storage st);
          newEntry = \<lparr>entry_id = uuid, name = nm, score = sc, timestamp = now\<rparr>;
          updated = take 100 (js_sort score_cmp (current @ [newEntry]))
      in (updated, st(STORAGE_KEY \<mapsto> json_stringify (json_of_entries updated))))"

definition resetLeaderboard_text :: "text_storage \<Rightarrow> text_storage" where
  "resetLeaderboard_text st = st(STORAGE_KEY := None)"

text \<open>The stores on which the entry-level view is exact.\<close>

definition text_ok :: "text_storage \<Rightarrow> bool" where
  "text_ok st =
     (case st STORAGE_KEY of
        None \<Rightarrow> True
      | Some data \<Rightarrow>
          (case json_parse data of
             None \<Rightarrow> True
           | Some v \<Rightarrow> (case entries_of_json v of None \<Rightarrow> False | Some es \<Rightarrow> json_of_entries es = v)))"

subsection \<open>Encoding entries\<close>

lemma entry_of_json_entry [simp]: "entry_of_json (json_of_entry e) = Some e"
  by (simp add: entry_of_json_def json_of_entry_def json_field_def)

lemma entries_of_json_entries [simp]: "entries_of_json (json_of_entries es) = Some es"
proof -
  have "those (map entry_of_json (map json_of_entry es)) = Some es"
    by (induction es) simp_all
  then show ?thesis by (simp add: entries_of_json_def json_of_entries_def)
qed

lemma json_parse_entries [simp]: "json_parse (json_stringify (json_of_entries es)) = Some (json_of_entries es)"
  by (rule json_roundtrip)

lemma json_stringify_entries_nonempty: "json_stringify (json_of_entries es) \<noteq> []"
  by (simp add: json_of_entries_def)

lemma stored_blob_entries [simp]: "stored_blob (json_stringify (json_of_entries es)) = Json_entries es"
  by (simp add: stored_blob_def)

lemma saveScore_text_fst: "fst (saveScore_text st nm sc uuid now) = fst (saveScore (abs_storage st) nm sc uuid now)"
  by (simp add: saveScore_text_def saveScore_def Let_def)

lemma saveScore_text_snd:
  "snd (saveScore_text st nm sc uuid now) =
     st(STORAGE_KEY \<mapsto> json_stringify (json_of_entries (fst (saveScore (abs_storage st) nm sc uuid now))))"
  by (simp add: saveScore_text_def saveScore_def Let_def)

lemma getLeaderboard_js_abs:
  assumes "text_ok st"
  shows "getLeaderboard_js st = json_of_entries (getLeaderboard (abs_storage st))"
proof (cases "st STORAGE_KEY")
  case None
  then show ?thesis by (simp add: getLeaderboard_js_def getLeaderboard_def abs_storage_def json_of_entries_def)
next
  case (Some data)
  show ?thesis
  proof (cases "json_parse data")
    case None
    moreover have "data = [] \<Longrightarrow> json_parse data = None"
      by (simp add: json_parse_def lex.simps)
    ultimately show ?thesis using Some
      by (simp add: getLeaderboard_js_def getLeaderboard_def abs_storage_def stored_blob_def json_of_entries_def)
  next
    case (Some v)
    then obtain es where es: "entries_of_json v = Some es" and v: "json_of_entries es = v"
      using assms \<open>st STORAGE_KEY = Some data\<close> by (auto simp: text_ok_def split: option.splits)
    have "data \<noteq> []" using Some by (auto simp: json_parse_def lex.simps)
    then show ?thesis using Some es v \<open>st STORAGE_KEY = Some data\<close>
      by (simp add: getLeaderboard_js_def getLeaderboard_def abs_storage_def stored_blob_def)
  qed
qed

lemma abs_storage_saveScore_text:
  "abs_storage (snd (saveScore_text st nm sc uuid now)) = snd (saveScore (abs_storage st) nm sc uuid now)"
  by (simp add: saveScore_text_snd saveScore_snd abs_storage_def fun_eq_iff)

lemma text_ok_saveScore_text: "text_ok (snd (saveScore_text st nm sc uuid now))"
  by (simp add: saveScore_text_snd text_ok_def)

lemma abs_storage_reset: "abs_storage (resetLeaderboard_text st) = resetLeaderboard (abs_storage st)"
  by (simp add: abs_storage_def resetLeaderboard_text_def resetLeaderboard_def fun_eq_iff)

lemma text_ok_reset: "text_ok (resetLeaderboard_text st)"
  by (simp add: text_ok_def resetLeaderboard_text_def)

subsection \<open>Properties\<close>

text \<open>
  C26: round trip through \<open>localStorage\<close>: the text \<open>saveScore\<close> stores is read
  back by \<open>getLeaderboard\<close> as exactly the board \<open>saveScore\<close> returned.
\<close>

theorem saveScore_text_roundtrip:
  "getLeaderboard_js (snd (saveScore_text st nm sc uuid now)) = json_of_entries (fst (saveScore_text st nm sc uuid now))"
  by (simp add: getLeaderboard_js_def saveScore_text_snd saveScore_text_fst json_stringify_entries_nonempty)



text \<open>
  C28: \<open>getLeaderboard\<close> does not check what it parsed: a stored \<open>null\<close> is returned
  as the leaderboard (the design says corrupt data reads as an empty board), and the
  spread in \<open>saveScore\<close> then throws; a stored object is returned as well, while text
  that does not parse gives the empty board.
\<close>

theorem stored_null_leaderboard:
  "getLeaderboard_js [STORAGE_KEY \<mapsto> ''null''] = JNull \<and>
   js_spread (getLeaderboard_js [STORAGE_KEY \<mapsto> ''null'']) = None \<and>
   getLeaderboard_js [STORAGE_KEY \<mapsto> ''{}''] = JObj [] \<and>
   getLeaderboard_js [STORAGE_KEY \<mapsto> ''[1,''] = JArr []"
proof -
  have "json_parse ''null'' = Some JNull" "json_parse ''{}'' = Some (JObj [])" "json_parse ''[1,'' = None"
    by code_simp+
  then show ?thesis by (simp add: getLeaderboard_js_def js_spread_def)
qed

end
