(* ===== verification/Gemini_Text.thy ===== *)
theory Gemini_Text
  imports Gemini Json
begin

text \<open>
  \<open>generateQuizQuestions\<close> of \<open>src/services/gemini.ts\<close> on the text of the
  provider's reply (lines 78--86).  \<open>response.text\<close> is parsed by
  \<open>JSON.parse\<close>, and \<open>data.map\<close> copies each element with the spread
  \<open>{...q, id: index + 1}\<close>.  An object is a member list whose last member of a key
  wins, so the spread appends \<open>id\<close>.  Spreading an array or a string copies its
  elements under the keys "0", "1", ...; spreading any other value copies nothing.
  \<open>Gemini\<close> takes the parsed reply as an input whose array holds questions.
  \<open>reply_abs\<close> reads a text reply as that input, where it can, and the refinement
  lemma shows the two definitions agree.
\<close>

datatype TextReply = Text_request_failed | Text_response "string option"

definition own_props :: "json \<Rightarrow> (string \<times> json) list" where
  "own_props v =
     (case v of
        JObj kvs \<Rightarrow> kvs
      | JArr vs \<Rightarrow> map (\<lambda>(i, x). (nat_digits i, x)) (enumerate 0 vs)
      | JStr s \<Rightarrow> map (\<lambda>(i, c). (nat_digits i, JStr [c])) (enumerate 0 s)
      | _ \<Rightarrow> [])"

definition spread_with_id :: "json \<Rightarrow> int \<Rightarrow> json" where
  "spread_with_id q n = JObj (own_props q @ [(''id'', JNum n)])"

text \<open>
  \<open>data.map\<close> throws unless \<open>data\<close> is an array (a TypeError, \<open>Map_not_a_function\<close>).
\<close>

definition generateQuizQuestions_text :: "string option \<Rightarrow> nat \<Rightarrow> TextReply \<Rightarrow> GenError + json list" where
  "generateQuizQuestions_text apiKey requested reply =
     (if \<not> js_truthy_str apiKey then Inl Missing_api_key
      else case reply of
        Text_request_failed \<Rightarrow> Inl Upstream_error
      | Text_response None \<Rightarrow> Inl No_data
      | Text_response (Some body) \<Rightarrow>
          (if body = [] then Inl No_data
           else case json_parse body of
             None \<Rightarrow> Inl Syntax_error
           | Some (JArr data) \<Rightarrow> Inr (map (\<lambda>(index, q). spread_with_id q (int index + 1)) (enumerate 0 data))
           | Some _ \<Rightarrow> Inl Map_not_a_function))"

subsection \<open>Reading a question from JSON\<close>

definition json_string :: "json \<Rightarrow> string option" where
  "json_string v = (case v of JStr s \<Rightarrow> Some s | _ \<Rightarrow> None)"

definition question_of_json :: "json \<Rightarrow> Question option" where
  "question_of_json v =
     (case v of
        JObj kvs \<Rightarrow>
          (case (json_field kvs ''id'', json_field kvs ''text'', json_field kvs ''options'',
                 json_field kvs ''correctAnswerIndex'', json_field kvs ''explanation'') of
             (Some (JNum i), Some (JStr t), Some (JArr os), Some (JNum c), Some (JStr e)) \<Rightarrow>
               map_option (\<lambda>opts. \<lparr>question_id = i, question_text = t, options = opts,
                                   correctAnswerIndex = c, explanation = e\<rparr>)
                 (those (map json_string os))
           | _ \<Rightarrow> None)
      | _ \<Rightarrow> None)"

definition json_of_question :: "Question \<Rightarrow> json" where
  "json_of_question q =
     JObj [(''id'', JNum (question_id q)), (''text'', JStr (question_text q)),
           (''options'', JArr (map JStr (options q))),
           (''correctAnswerIndex'', JNum (correctAnswerIndex q)), (''explanation'', JStr (explanation q))]"

text \<open>The abstract reply a text reply stands for, when its array holds questions.\<close>

definition reply_abs :: "TextReply \<Rightarrow> GeminiReply option" where
  "reply_abs r =
     (case r of
        Text_request_failed \<Rightarrow> Some Request_failed
      | Text_response None \<Rightarrow> Some (Response None)
      | Text_response (Some body) \<Rightarrow>
          (if body = [] then Some (Response None)
           else case json_parse body of
             None \<Rightarrow> Some (Response (Some Json_syntax_error))
           | Some (JArr vs) \<Rightarrow> map_option (\<lambda>qs. Response (Some (Json_array qs))) (those (map question_of_json vs))
           | Some _ \<Rightarrow> Some (Response (Some Json_non_array))))"

text \<open>A question as the provider sends it, used by the witnesses.\<close>

definition provider_sample :: Question where
  "provider_sample = \<lparr>question_id = 7, question_text = ''Q'', options = [''a'', ''b''],
                       correctAnswerIndex = 1, explanation = ''E''\<rparr>"

subsection \<open>Lemmas\<close>

lemma json_field_snoc:
  "json_field (kvs @ [(k, v)]) k' = (if k' = k then Some v else json_field kvs k')"
  by (simp add: json_field_def)

lemma question_of_spread:
  assumes "question_of_json q = Some x"
  shows "question_of_json (spread_with_id q n) = Some (x\<lparr>question_id := n\<rparr>)"
proof -
  obtain kvs where q: "q = JObj kvs"
    using assms by (cases q) (simp_all add: question_of_json_def)
  show ?thesis using assms
    by (auto simp: q question_of_json_def spread_with_id_def own_props_def json_field_snoc
        split: option.splits json.splits)
qed

lemma those_Some_iff: "those xs = Some ys \<longleftrightarrow> xs = map Some ys"
proof (induction xs arbitrary: ys)
  case Nil
  then show ?case by auto
next
  case (Cons x xs)
  then show ?case by (cases x; cases ys) (auto split: option.splits)
qed

lemma spread_reindex:
  assumes "those (map question_of_json vs) = Some qs"
  shows "map question_of_json (map (\<lambda>(index, q). spread_with_id q (int index + 1)) (enumerate 0 vs)) =
         map Some (reindex qs)"
proof -
  have m: "map question_of_json vs = map Some qs" using assms by (simp add: those_Some_iff)
  then have len: "length vs = length qs" by (metis length_map)
  show ?thesis
  proof (rule nth_equalityI)
    fix i
    assume "i < length (map question_of_json (map (\<lambda>(index, q). spread_with_id q (int index + 1)) (enumerate 0 vs)))"
    then have i: "i < length vs" by simp
    have "question_of_json (vs ! i) = Some (qs ! i)"
      using m i len by (metis nth_map)
    then show "map question_of_json (map (\<lambda>(index, q). spread_with_id q (int index + 1)) (enumerate 0 vs)) ! i =
               map Some (reindex qs) ! i"
      using i len question_of_spread by (simp add: nth_enumerate_eq nth_reindex)
  qed (simp add: len)
qed

lemma those_json_strings: "those (map (json_string \<circ> JStr) xs) = Some xs"
  by (induction xs) (simp_all add: json_string_def)

lemma question_json_roundtrip [simp]: "question_of_json (json_of_question q) = Some q"
  by (simp add: question_of_json_def json_of_question_def json_field_def those_json_strings)

lemma body_refines:
  assumes "js_truthy_str apiKey" and "body \<noteq> []"
    and "reply_abs (Text_response (Some body)) = Some r'"
  shows "map_sum id (map question_of_json) (generateQuizQuestions_text apiKey requested (Text_response (Some body))) =
         map_sum id (map Some) (generateQuizQuestions apiKey requested r')"
proof (cases "json_parse body")
  case None
  then show ?thesis using assms
    by (auto simp: reply_abs_def generateQuizQuestions_text_def generateQuizQuestions_def)
next
  case (Some v)
  show ?thesis
  proof (cases "\<exists>vs. v = JArr vs")
    case True
    then obtain vs where v: "v = JArr vs" by blast
    obtain qs where qs: "those (map question_of_json vs) = Some qs"
      and r': "r' = Response (Some (Json_array qs))"
      using assms(2,3) Some v by (auto simp: reply_abs_def)
    show ?thesis using assms(1,2) Some v r' spread_reindex [OF qs]
      by (simp add: generateQuizQuestions_text_def generateQuizQuestions_def)
  next
    case False
    then have "r' = Response (Some Json_non_array)"
      and "generateQuizQuestions_text apiKey requested (Text_response (Some body)) = Inl Map_not_a_function"
      using assms Some by (auto simp: reply_abs_def generateQuizQuestions_text_def split: json.splits)
    then show ?thesis using assms(1) by (simp add: generateQuizQuestions_def)
  qed
qed

subsection \<open>Properties\<close>



text \<open>
  Nothing checks that the reply is an array of questions: the text
  \<open>[1,{}]\<close> is accepted as two objects holding only an id, which no question
  reading accepts, while \<open>null\<close> fails in \<open>data.map\<close>.
\<close>

lemma provider_accepts_non_questions:
  "generateQuizQuestions_text (Some ''k'') 20 (Text_response (Some ''[1,{}]'')) =
     Inr [JObj [(''id'', JNum 1)], JObj [(''id'', JNum 2)]] \<and>
   question_of_json (JObj [(''id'', JNum 1)]) = None \<and>
   reply_abs (Text_response (Some ''[1,{}]'')) = None \<and>
   generateQuizQuestions_text (Some ''k'') 20 (Text_response (Some ''null'')) = Inl Map_not_a_function"
proof -
  have "json_parse ''[1,{}]'' = Some (JArr [JNum 1, JObj []])" "json_parse ''null'' = Some JNull"
    by code_simp+
  then show ?thesis
    by (simp add: generateQuizQuestions_text_def reply_abs_def question_of_json_def js_truthy_str_def
        spread_with_id_def own_props_def json_field_def)
qed

end
