(* ===== verification/Gemini_Schema.thy ===== *)
theory Gemini_Schema
  imports Gemini_Text
begin

text \<open>
  The request \<open>generateQuizQuestions\<close> of \<open>src/services/gemini.ts\<close> sends
  (lines 51--76): the model, the prompt naming the requested count, the JSON MIME type
  and the \<open>responseSchema\<close>, an array of objects with five required, typed
  properties.  \<open>conforms\<close> is what it means for a parsed reply to match such a
  schema (an \<open>INTEGER\<close> is a JSON number without fraction, the only numbers of
  \<open>json\<close>; \<open>description\<close>s are kept but constrain nothing).  The service
  promises replies that conform to the schema; the lemmas show that under this promise
  the reply is always read as an array of questions, and that the schema admits
  questions with any number of options and any correct index.
\<close>

datatype schema =
    S_string "string option"
  | S_integer "string option"
  | S_array schema "string option"
  | S_object "(string \<times> schema) list" "string list"

fun conforms :: "schema \<Rightarrow> json \<Rightarrow> bool" where
  "conforms (S_string d) v = (case v of JStr _ \<Rightarrow> True | _ \<Rightarrow> False)"
| "conforms (S_integer d) v = (case v of JNum _ \<Rightarrow> True | _ \<Rightarrow> False)"
| "conforms (S_array t d) v = (case v of JArr vs \<Rightarrow> list_all (conforms t) vs | _ \<Rightarrow> False)"
| "conforms (S_object props req) v =
     (case v of
        JObj kvs \<Rightarrow>
          list_all (\<lambda>k. json_field kvs k \<noteq> None) req \<and>
          list_all (\<lambda>(k, t). case json_field kvs k of None \<Rightarrow> True | Some x \<Rightarrow> conforms t x) props
      | _ \<Rightarrow> False)"

definition quiz_item_schema :: schema where
  "quiz_item_schema =
       S_object
          [(''id'', S_integer None),
           (''text'', S_string (Some ''The question text in Traditional Chinese'')),
           (''options'', S_array (S_string None) (Some ''List of 4 possible answers in Traditional Chinese'')),
           (''correctAnswerIndex'', S_integer (Some ''Index of the correct answer (0-3)'')),
           (''explanation'', S_string (Some ''Brief explanation of why the answer is correct in Traditional Chinese''))]
          [''id'', ''text'', ''options'', ''correctAnswerIndex'', ''explanation'']"

definition quiz_schema :: schema where
  "quiz_schema = S_array quiz_item_schema None"

text \<open>
  The request of \<open>genAI.models.generateContent\<close>; \<open>count\<close> (here \<open>qcount\<close>) enters only the
  prompt text.  The system instruction (lines 20--43, prose in Traditional Chinese) is
  not reproduced.
\<close>

record GeminiRequest =
  req_model :: string
  req_contents :: string
  req_mime :: string
  req_schema :: schema

definition quiz_request :: "nat \<Rightarrow> GeminiRequest" where
  "quiz_request qcount =
     \<lparr>req_model = ''gemini-3-flash-preview'',
      req_contents = ''Generate '' @ nat_digits qcount @
        '' difficult and practical AI knowledge questions for managers in Traditional Chinese (Taiwan). Focus strictly on Terminology, Tool Usage, and Industry Info.'',
      req_mime = ''application/json'', req_schema = quiz_schema\<rparr>"

subsection \<open>Lemmas\<close>

lemma json_parse_Nil [simp]: "json_parse [] = None"
  by code_simp

lemma conforms_question:
  assumes "conforms quiz_item_schema v"
  shows "question_of_json v \<noteq> None"
proof -
  obtain kvs where v: "v = JObj kvs" using assms by (cases v) (simp_all add: quiz_item_schema_def)
  obtain i t os c e where f: "json_field kvs ''id'' = Some (JNum i)" "json_field kvs ''text'' = Some (JStr t)"
    "json_field kvs ''options'' = Some (JArr os)" "json_field kvs ''correctAnswerIndex'' = Some (JNum c)"
    "json_field kvs ''explanation'' = Some (JStr e)" and os: "list_all (conforms (S_string None)) os"
    using assms by (auto simp: v quiz_item_schema_def split: option.splits json.splits)
  have "those (map json_string os) \<noteq> None"
    using os by (induction os) (auto simp: json_string_def split: json.splits)
  then show ?thesis by (auto simp: question_of_json_def v f)
qed

lemma conforms_quiz_schema:
  "conforms quiz_schema v \<Longrightarrow> \<exists>vs qs. v = JArr vs \<and> those (map question_of_json vs) = Some qs"
proof -
  assume c: "conforms quiz_schema v"
  then obtain vs where v: "v = JArr vs" by (cases v) (simp_all add: quiz_schema_def)
  have "\<forall>x\<in>set vs. question_of_json x \<noteq> None"
    using c conforms_question by (auto simp: v quiz_schema_def list_all_iff)
  then have "those (map question_of_json vs) \<noteq> None"
    by (induction vs) (auto split: option.splits)
  then show ?thesis using v by blast
qed

text \<open>A reply that conforms to the schema: one question with no options and index 7.\<close>

definition optionless_reply :: json where
  "optionless_reply =
     JArr [JObj [(''id'', JNum 5), (''text'', JStr ''Q''), (''options'', JArr []),
                 (''correctAnswerIndex'', JNum 7), (''explanation'', JStr ''E'')]]"

lemma schema_reply_sound:
  assumes "json_parse body = Some v" and "conforms (req_schema (quiz_request n)) v"
  shows "\<exists>qs. reply_abs (Text_response (Some body)) = Some (Response (Some (Json_array qs))) \<and>
             map_sum id (map question_of_json) (generateQuizQuestions_text key n (Text_response (Some body))) =
               (if js_truthy_str key then Inr (map Some (reindex qs)) else Inl Missing_api_key)"
proof -
  have "conforms quiz_schema v" using assms(2) by (simp add: quiz_request_def)
  then obtain vs qs where v: "v = JArr vs" and qs: "those (map question_of_json vs) = Some qs"
    using conforms_quiz_schema by blast
  have ne: "body \<noteq> []" using assms(1) by auto
  have "reply_abs (Text_response (Some body)) = Some (Response (Some (Json_array qs)))"
    using assms(1) ne qs by (simp add: reply_abs_def v)
  moreover have "map_sum id (map question_of_json) (generateQuizQuestions_text key n (Text_response (Some body))) =
                   (if js_truthy_str key then Inr (map Some (reindex qs)) else Inl Missing_api_key)"
    using assms(1) ne spread_reindex [OF qs] by (simp add: generateQuizQuestions_text_def v)
  ultimately show ?thesis by blast
qed

lemma schema_admits_questions:
  "conforms (req_schema (quiz_request n)) (JArr (map json_of_question qs))"
proof -
  have "conforms quiz_item_schema (json_of_question q)" for q
    by (simp add: quiz_item_schema_def json_of_question_def json_field_def list_all_iff)
  then show ?thesis by (simp add: quiz_request_def quiz_schema_def list_all_iff)
qed

subsection \<open>Properties\<close>

text \<open>
  C34: the schema contract, and what it leaves open.  Whenever the service keeps its
  promise, that is the reply text parses to a value conforming to the
  \<open>responseSchema\<close> of the request, the text reply stands for an array of
  questions, and \<open>generateQuizQuestions\<close> on the text returns exactly those
  questions renumbered 1..n (or fails for a missing key).  And every array of questions,
  with any number of options (none included) and any correct index, conforms: the schema
  bounds neither, although its descriptions ask for 4 options and an index in 0..3.
\<close>

theorem schema_reply_refines:
  "(json_parse body = Some v \<and> conforms (req_schema (quiz_request n)) v \<longrightarrow>
      (\<exists>qs. reply_abs (Text_response (Some body)) = Some (Response (Some (Json_array qs))) \<and>
            map_sum id (map question_of_json) (generateQuizQuestions_text key n (Text_response (Some body))) =
              (if js_truthy_str key then Inr (map Some (reindex qs)) else Inl Missing_api_key))) \<and>
   (\<forall>qs. conforms (req_schema (quiz_request n)) (JArr (map json_of_question qs)))"
  using schema_reply_sound schema_admits_questions by blast

theorem schema_reply_refines_witness:
  "json_parse (json_stringify optionless_reply) = Some optionless_reply \<and>
   conforms (req_schema (quiz_request 20)) optionless_reply \<and>
   reply_abs (Text_response (Some (json_stringify optionless_reply))) =
     Some (Response (Some (Json_array [\<lparr>question_id = 5, question_text = ''Q'', options = [],
                                        correctAnswerIndex = 7, explanation = ''E''\<rparr>]))) \<and>
   map_sum id (map question_of_json)
     (generateQuizQuestions_text (Some ''k'') 20 (Text_response (Some (json_stringify optionless_reply)))) =
     Inr [Some \<lparr>question_id = 1, question_text = ''Q'', options = [], correctAnswerIndex = 7, explanation = ''E''\<rparr>]"
proof -
  have h1: "json_parse (json_stringify optionless_reply) = Some optionless_reply" by (rule json_roundtrip)
  have e: "optionless_reply =
     JArr (map json_of_question [\<lparr>question_id = 5, question_text = ''Q'', options = [],
                                   correctAnswerIndex = 7, explanation = ''E''\<rparr>])"
    by (simp add: optionless_reply_def json_of_question_def)
  have h2: "conforms (req_schema (quiz_request 20)) optionless_reply"
    unfolding e using conjunct2 [OF schema_reply_refines [of "[]" JNull 20 None]] by (rule spec)
  have r: "reply_abs (Text_response (Some (json_stringify optionless_reply))) =
     Some (Response (Some (Json_array [\<lparr>question_id = 5, question_text = ''Q'', options = [],
                                        correctAnswerIndex = 7, explanation = ''E''\<rparr>])))"
    using h1 json_parse_Nil by (auto simp: reply_abs_def optionless_reply_def question_of_json_def json_field_def
        simp del: json_stringify.simps)
  show ?thesis
    using schema_reply_refines [of "json_stringify optionless_reply" optionless_reply 20 "Some ''k''"] h1 h2 r
    by (simp add: js_truthy_str_def reindex_def)
qed

end
