(* ===== verification/Welcome_Form.thy ===== *)
theory Welcome_Form
  imports App
begin

text \<open>
  The name form of \<open>WelcomeScreen\<close> in \<open>src/App.tsx\<close> (lines 11--57) and its
  mounting by \<open>App\<close> (lines 345--351).  The form keeps its own state, the text
  of the name field (\<open>useState('')\<close>), and exists only while the welcome screen is
  rendered: leaving the screen unmounts it, and coming back mounts a fresh one with an
  empty field.  The start button is disabled while the trimmed name is empty, the field
  is \<open>required\<close>, and \<open>handleSubmit\<close> calls \<open>onStart\<close> (the App's
  \<open>handleStart\<close>) with the trimmed name only when it is not empty.  The App model
  abstracts all of this as the one event \<open>Submit_name\<close>; \<open>session_step\<close> runs
  the form and the App together, and the simulation lemma shows the abstraction exact.
\<close>

record WelcomeForm =
  form_name :: string

definition welcome_form_init :: WelcomeForm where
  "welcome_form_init = \<lparr>form_name = []\<rparr>"

text \<open>\<open>disabled={!name.trim()}\<close> and the \<open>required\<close> text input.\<close>

definition start_disabled :: "string \<Rightarrow> bool" where
  "start_disabled nm \<longleftrightarrow> js_trim nm = []"

definition input_required_ok :: "string \<Rightarrow> bool" where
  "input_required_ok nm \<longleftrightarrow> nm \<noteq> []"

text \<open>\<open>handleSubmit\<close>: the argument of the \<open>onStart\<close> call it makes, if any.\<close>

definition welcome_onSubmit :: "string \<Rightarrow> string option" where
  "welcome_onSubmit nm = (if js_trim nm \<noteq> [] then Some (js_trim nm) else None)"

text \<open>
  Typing replaces the field's value (\<open>onChange\<close>).  A click on the submit button
  and Enter in the field (implicit submission through that button) submit the form when
  the button is enabled and the required field is filled; the result is the state and
  the \<open>onStart\<close> call made.
\<close>

datatype FormEvent = Type_name string | Click_start | Press_enter

definition form_event :: "WelcomeForm \<Rightarrow> FormEvent \<Rightarrow> WelcomeForm \<times> string option" where
  "form_event f e =
     (case e of
        Type_name v \<Rightarrow> (f\<lparr>form_name := v\<rparr>, None)
      | _ \<Rightarrow> (f, if \<not> start_disabled (form_name f) \<and> input_required_ok (form_name f)
                 then welcome_onSubmit (form_name f) else None))"

subsection \<open>The form inside the session\<close>

record Session =
  app :: AppModel
  welcome_form :: "WelcomeForm option"

text \<open>
  \<open>{appState === AppState.WELCOME && <WelcomeScreen .../>}\<close>: the form stays
  mounted with its state while the welcome screen shows, and is mounted fresh otherwise.
\<close>

definition mount_form :: "AppModel \<Rightarrow> WelcomeForm option \<Rightarrow> WelcomeForm option" where
  "mount_form a f =
     (if appState a = WELCOME then (case f of None \<Rightarrow> Some welcome_form_init | Some g \<Rightarrow> Some g) else None)"

definition session_init :: "(string \<rightharpoonup> string) option \<Rightarrow> local_storage \<Rightarrow> Session" where
  "session_init env st = \<lparr>app = app_init env st, welcome_form = mount_form (app_init env st) None\<rparr>"

text \<open>
  Events on the page: input to the form, or any other App event.  A name reaches the
  App only through the form, so \<open>Submit_name\<close> is not a page event of its own.
\<close>

datatype UiEvent = Form_input FormEvent | App_input AppEvent

definition session_step :: "Session \<Rightarrow> UiEvent \<Rightarrow> Session" where
  "session_step s e =
     (case e of
        Form_input fe \<Rightarrow>
          (case welcome_form s of
             None \<Rightarrow> s
           | Some f \<Rightarrow>
               (let (f', call) = form_event f fe;
                    a' = (case call of None \<Rightarrow> app s | Some n \<Rightarrow> handleStart n (app s))
                in \<lparr>app = a', welcome_form = mount_form a' (Some f')\<rparr>))
      | App_input (Submit_name _) \<Rightarrow> s
      | App_input ae \<Rightarrow>
          (let a' = app_step (app s) ae in \<lparr>app = a', welcome_form = mount_form a' (welcome_form s)\<rparr>))"

text \<open>The App event a page event stands for, if any.\<close>

definition ui_abs :: "Session \<Rightarrow> UiEvent \<Rightarrow> AppEvent option" where
  "ui_abs s e =
     (case e of
        Form_input (Type_name _) \<Rightarrow> None
      | Form_input _ \<Rightarrow> map_option (\<lambda>f. Submit_name (form_name f)) (welcome_form s)
      | App_input (Submit_name _) \<Rightarrow> None
      | App_input ae \<Rightarrow> Some ae)"

definition session_inv :: "Session \<Rightarrow> bool" where
  "session_inv s \<longleftrightarrow> (welcome_form s \<noteq> None \<longleftrightarrow> appState (app s) = WELCOME)"

text \<open>Runs of page events, and the App events a run stands for.\<close>

definition session_run :: "Session \<Rightarrow> UiEvent list \<Rightarrow> Session" where
  "session_run s es = foldl session_step s es"

fun abs_run :: "Session \<Rightarrow> UiEvent list \<Rightarrow> AppEvent list" where
  "abs_run s [] = []"
| "abs_run s (e # es) = (case ui_abs s e of None \<Rightarrow> [] | Some e' \<Rightarrow> [e']) @ abs_run (session_step s e) es"

subsection \<open>Lemmas\<close>

lemma js_trim_Nil [simp]: "js_trim [] = []"
  by (simp add: js_trim_def)

lemma submit_call:
  "(\<forall>v. e \<noteq> Type_name v) \<Longrightarrow>
   snd (form_event f e) = welcome_onSubmit (form_name f)"
  by (cases e) (auto simp: form_event_def start_disabled_def input_required_ok_def welcome_onSubmit_def)

lemma mount_form_inv [simp]: "session_inv \<lparr>app = a, welcome_form = mount_form a f\<rparr>"
  by (simp add: session_inv_def mount_form_def split: option.splits)

lemma welcome_renders: "appState a = WELCOME \<Longrightarrow> app_renders a"
  by (simp add: app_renders_def)

subsection \<open>Properties\<close>

lemma session_step_sim:
  assumes "session_inv s"
  shows "app (session_step s e) =
           (case ui_abs s e of None \<Rightarrow> app s | Some e' \<Rightarrow> app_step (app s) e') \<and>
         session_inv (session_step s e)"
proof (cases e)
  case (Form_input fe)
  show ?thesis
  proof (cases "welcome_form s")
    case None
    then show ?thesis using Form_input assms
      by (cases fe) (simp_all add: session_step_def ui_abs_def)
  next
    case (Some f)
    then have w: "appState (app s) = WELCOME" using assms by (simp add: session_inv_def)
    show ?thesis
    proof (cases "\<exists>v. fe = Type_name v")
      case True
      then show ?thesis using Form_input Some
        by (auto simp: session_step_def ui_abs_def form_event_def Let_def)
    next
      case False
      then have c: "snd (form_event f fe) = welcome_onSubmit (form_name f)" by (simp add: submit_call)
      have "app (session_step s e) =
              (case welcome_onSubmit (form_name f) of None \<Rightarrow> app s | Some n \<Rightarrow> handleStart n (app s))"
        using Form_input Some c by (simp add: session_step_def split_beta Let_def)
      moreover have "ui_abs s e = Some (Submit_name (form_name f))"
        using Form_input Some False by (cases fe) (simp_all add: ui_abs_def)
      ultimately show ?thesis using Form_input Some w
        by (simp add: session_step_def split_beta Let_def app_step_def welcome_renders handleSubmit_def
            welcome_onSubmit_def)
    qed
  qed
next
  case (App_input ae)
  then show ?thesis using assms
    by (cases ae) (simp_all add: session_step_def ui_abs_def Let_def)
qed

text \<open>
  C30: simulation: from any session state in which the form is mounted exactly on the
  welcome screen, every run of page events (typing, clicking start, pressing Enter, any
  other App event) moves the App state exactly as the run of abstract App events it
  stands for (clicking start or pressing Enter is \<open>Submit_name\<close> with the field's
  text, typing is no App event), and the form is again mounted exactly on the welcome
  screen.
\<close>

theorem session_run_refines:
  assumes "session_inv s"
  shows "app (session_run s es) = app_run (app s) (abs_run s es) \<and> session_inv (session_run s es)"
  using assms
proof (induction es arbitrary: s)
  case Nil
  then show ?case by (simp add: session_run_def app_run_def)
next
  case (Cons e es)
  have step: "app (session_step s e) = (case ui_abs s e of None \<Rightarrow> app s | Some e' \<Rightarrow> app_step (app s) e')"
    and inv: "session_inv (session_step s e)"
    using session_step_sim [OF Cons.prems] by simp_all
  show ?case
    using Cons.IH [OF inv] step
    by (cases "ui_abs s e") (simp_all add: session_run_def app_run_def)
qed

theorem session_run_refines_witness:
  "let es = [Form_input (Type_name ''  Amy  ''), Form_input Press_enter]
   in session_inv (session_init None Map.empty) \<and>
      abs_run (session_init None Map.empty) es = [Submit_name ''  Amy  ''] \<and>
      app (session_run (session_init None Map.empty) es) =
        app_run (app_init None Map.empty) [Submit_name ''  Amy  ''] \<and>
      userName (app (session_run (session_init None Map.empty) es)) = ''Amy'' \<and>
      welcome_form (session_run (session_init None Map.empty) es) = None"
proof -
  let ?es = "[Form_input (Type_name ''  Amy  ''), Form_input Press_enter]"
  have h: "session_inv (session_init None Map.empty)"
    by (simp add: session_init_def)
  have a: "abs_run (session_init None Map.empty) ?es = [Submit_name ''  Amy  '']"
    by (simp add: session_step_def session_init_def mount_form_def app_init_def form_event_def
        welcome_form_init_def ui_abs_def)
  have r: "app_run (app_init None Map.empty) [Submit_name ''  Amy  ''] =
             (app_init None Map.empty)\<lparr>userName := ''Amy'', appState := LOADING, pending := True\<rparr>"
    by (simp add: app_run_def app_step_def app_renders_def app_init_def handleSubmit_def handleStart_def
        js_trim_def js_whitespace_def)
  have i: "session_inv (session_run (session_init None Map.empty) ?es)"
    using session_run_refines [OF h, of ?es] by simp
  have "app (session_run (session_init None Map.empty) ?es) =
          app_run (app_init None Map.empty) [Submit_name ''  Amy  '']"
    using session_run_refines [OF h, of ?es] a by (simp add: session_init_def)
  then show ?thesis using h a r i by (simp add: Let_def session_inv_def)
qed

end
