(* ===== verification/Screens.thy ===== *)
theory Screens
  imports App
begin

text \<open>
  What the welcome and result screens of \<open>src/App.tsx\<close> show, as functions of the
  session state: the top-10 table of \<open>WelcomeScreen\<close> (lines 58--93, rendered only
  when the leaderboard is not empty) and the verdict, the top-5 rows and their
  highlighting of \<open>ResultScreen\<close> (lines 231--290).  The result screen decides
  which rows to highlight by reading the clock at render time (\<open>Date.now()\<close>, here
  the parameter \<open>clock\<close>, in milliseconds like the timestamps saveScore stores).
\<close>

record WelcomeRow =
  wrow_rank :: nat
  wrow_name :: string
  wrow_score :: int

definition welcome_table :: "LeaderboardEntry list \<Rightarrow> WelcomeRow list option" where
  "welcome_table lb =
     (if 0 < length lb
      then Some (map (\<lambda>(idx, e). \<lparr>wrow_rank = idx + 1, wrow_name = name e, wrow_score = score e\<rparr>)
                  (enumerate 0 (take 10 lb)))
      else None)"

datatype Badge = Gold | Silver | Bronze | Plain

definition rank_badge :: "nat \<Rightarrow> Badge" where
  "rank_badge idx =
     (if idx = 0 then Gold else if idx = 1 then Silver else if idx = 2 then Bronze else Plain)"

datatype Verdict = Verdict_expert | Verdict_basics | Verdict_keep_trying

definition result_verdict :: "int \<Rightarrow> Verdict" where
  "result_verdict sc =
     (if 80 \<le> sc then Verdict_expert else if 60 \<le> sc then Verdict_basics else Verdict_keep_trying)"

definition isHighScore :: "LeaderboardEntry list \<Rightarrow> int \<Rightarrow> int \<Rightarrow> bool" where
  "isHighScore lb sc clock = list_ex (\<lambda>l. score l = sc \<and> clock - timestamp l < 1000) lb"

record ResultRow =
  row_rank :: nat
  row_name :: string
  row_score :: int
  row_badge :: Badge
  row_highlight :: bool

definition result_rows :: "LeaderboardEntry list \<Rightarrow> int \<Rightarrow> int \<Rightarrow> ResultRow list" where
  "result_rows lb sc clock =
     map (\<lambda>(idx, e). \<lparr>row_rank = idx + 1, row_name = name e, row_score = score e,
                      row_badge = rank_badge idx,
                      row_highlight = (isHighScore lb sc clock \<and> score e = sc)\<rparr>)
       (enumerate 0 (take 5 lb))"

text \<open>The screens as \<open>App\<close> renders them from its state (lines 345--365).\<close>

definition welcome_view :: "AppModel \<Rightarrow> WelcomeRow list option" where
  "welcome_view s = welcome_table (leaderboard s)"

definition result_view :: "AppModel \<Rightarrow> int \<Rightarrow> Verdict \<times> ResultRow list" where
  "result_view s clock =
     (result_verdict (currentScore s), result_rows (leaderboard s) (currentScore s) clock)"

subsection \<open>Rows of the two tables\<close>

lemma length_result_rows: "length (result_rows lb sc clock) = min 5 (length lb)"
  by (simp add: result_rows_def)

lemma nth_result_rows:
  "i < min 5 (length lb) \<Longrightarrow>
   result_rows lb sc clock ! i =
     \<lparr>row_rank = i + 1, row_name = name (lb ! i), row_score = score (lb ! i),
      row_badge = rank_badge i, row_highlight = (isHighScore lb sc clock \<and> score (lb ! i) = sc)\<rparr>"
  by (simp add: result_rows_def nth_enumerate_eq)

lemma isHighScore_iff:
  "isHighScore lb sc clock \<longleftrightarrow> (\<exists>l\<in>set lb. score l = sc \<and> clock - timestamp l < 1000)"
  by (simp add: isHighScore_def list_ex_iff)

lemma nth_welcome_table:
  "0 < length lb \<Longrightarrow> i < min 10 (length lb) \<Longrightarrow>
   welcome_table lb = Some rows \<Longrightarrow>
   length rows = min 10 (length lb) \<and>
   rows ! i = \<lparr>wrow_rank = i + 1, wrow_name = name (lb ! i), wrow_score = score (lb ! i)\<rparr>"
  by (auto simp: welcome_table_def nth_enumerate_eq)

lemma handleQuizFinish_view:
  "result_view (handleQuizFinish sc uuid now s) clock =
     (result_verdict sc, result_rows (fst (saveScore (storage s) (userName s) sc uuid now)) sc clock)"
  by (simp add: result_view_def handleQuizFinish_def split_beta)

text \<open>
  C35: when the finished session's score ranks among the top five (fewer than five
  stored entries score at least as high), the result screen rendered within a second
  of saving shows the player's row at that rank, with the player's name and score,
  highlighted.
\<close>

theorem finish_highlights_new_entry:
  assumes "length (filter (\<lambda>y. sc \<le> score y) (getLeaderboard (storage s))) < 5"
    and "clock - now < 1000"
  shows "let i = length (filter (\<lambda>y. sc \<le> score y) (getLeaderboard (storage s)));
             (v, rows) = result_view (handleQuizFinish sc uuid now s) clock
         in v = result_verdict sc \<and> i < length rows \<and>
            rows ! i = \<lparr>row_rank = i + 1, row_name = userName s, row_score = sc,
                        row_badge = rank_badge i, row_highlight = True\<rparr>"
proof -
  let ?i = "length (filter (\<lambda>y. sc \<le> score y) (getLeaderboard (storage s)))"
  let ?sorted = "sort_key (\<lambda>e. - score e) (getLeaderboard (storage s))"
  let ?A = "takeWhile (\<lambda>y. sc \<le> score y) ?sorted"
  let ?e = "\<lparr>entry_id = uuid, name = userName s, score = sc, timestamp = now\<rparr>"
  let ?lb = "fst (saveScore (storage s) (userName s) sc uuid now)"
  have lb: "?lb = take 100 (?A @ ?e # dropWhile (\<lambda>y. sc \<le> score y) ?sorted)"
    by (rule saveScore_insert)
  have A: "length ?A = ?i" by (rule takeWhile_score_length)
  have len: "?i < length ?lb" using lb A assms(1) by simp
  have at: "?lb ! ?i = ?e" using lb A assms(1) by (simp add: nth_append)
  have "?e \<in> set ?lb" using len at by (metis nth_mem)
  then have hi: "isHighScore ?lb sc clock"
    unfolding isHighScore_iff using assms(2) by (intro bexI [of _ ?e]) simp_all
  have "?i < min 5 (length ?lb)" using len assms(1) by simp
  then show ?thesis
    using nth_result_rows [of ?i ?lb sc clock] at hi
    by (simp add: handleQuizFinish_view length_result_rows)
qed

theorem finish_highlights_new_entry_witness:
  "length (filter (\<lambda>y. 80 \<le> score y) (getLeaderboard (storage (app_init sample_env Map.empty)))) < 5 \<and>
   (5500::int) - 5000 < 1000 \<and>
   row_highlight (snd (result_view (handleQuizFinish 80 ''u1'' 5000 (app_init sample_env Map.empty)) 5500) ! 0)"
proof -
  have h1: "length (filter (\<lambda>y. 80 \<le> score y) (getLeaderboard (storage (app_init sample_env Map.empty)))) < 5"
    by (simp add: app_init_def getLeaderboard_def)
  have h2: "(5500::int) - 5000 < 1000" by simp
  show ?thesis
    using finish_highlights_new_entry [OF h1 h2, of "''u1''"] h1
    by (simp add: Let_def split_beta app_init_def getLeaderboard_def)
qed

text \<open>
  C36: the highlight is a heuristic that does not single out the new entry: an older
  entry that merely has the same score is highlighted as well.  Here Bob scored 80
  long ago, Amy finishes with 80 at 5000 ms, and the result screen rendered at once
  highlights both rows.
\<close>

theorem highlight_marks_older_tie:
  "result_view
     (handleQuizFinish 80 ''u2'' 5000
        ((app_init sample_env
            [STORAGE_KEY \<mapsto> Json_entries [\<lparr>entry_id = ''u1'', name = ''Bob'', score = 80, timestamp = 0\<rparr>]])
           \<lparr>userName := ''Amy''\<rparr>))
     5000 =
   (Verdict_expert,
    [\<lparr>row_rank = 1, row_name = ''Bob'', row_score = 80, row_badge = Gold, row_highlight = True\<rparr>,
     \<lparr>row_rank = 2, row_name = ''Amy'', row_score = 80, row_badge = Silver, row_highlight = True\<rparr>])"
  by (simp add: handleQuizFinish_view app_init_def saveScore_def getLeaderboard_def js_sort_def
      score_cmp_def result_rows_def isHighScore_def rank_badge_def result_verdict_def Let_def)

text \<open>
  C37: on a leaderboard in descending score order, the welcome screen's table lists the
  first ten entries under the ranks 1, 2, ...; no entry left out of the table scores
  higher than any entry in it.
\<close>

theorem welcome_table_top10:
  assumes "sorted_desc lb" and "welcome_table lb = Some rows"
  shows "map wrow_name rows = map name (take 10 lb) \<and>
         map wrow_rank rows = [1..<length rows + 1] \<and>
         (\<forall>r\<in>set rows. \<forall>e\<in>set (drop 10 lb). score e \<le> wrow_score r)"
proof -
  have rows: "rows = map (\<lambda>(idx, e). \<lparr>wrow_rank = idx + 1, wrow_name = name e, wrow_score = score e\<rparr>)
                       (enumerate 0 (take 10 lb))"
    using assms(2) by (simp add: welcome_table_def split: if_splits)
  have "map wrow_name rows = map name (take 10 lb)"
    by (rule nth_equalityI) (simp_all add: rows nth_enumerate_eq)
  moreover have "map wrow_rank rows = [1..<length rows + 1]"
    by (rule nth_equalityI) (simp_all add: rows nth_enumerate_eq del: upt_Suc)
  moreover have "score e \<le> wrow_score r" if "r \<in> set rows" and "e \<in> set (drop 10 lb)" for r e
  proof -
    obtain i where i: "i < length rows" "r = rows ! i" using \<open>r \<in> set rows\<close> by (metis in_set_conv_nth)
    obtain j where j: "j < length (drop 10 lb)" "e = drop 10 lb ! j"
      using \<open>e \<in> set (drop 10 lb)\<close> by (metis in_set_conv_nth)
    have "i < 10" "i < length lb" using i(1) by (simp_all add: rows)
    then have "- score (lb ! i) \<le> - score (lb ! (10 + j))"
      using assms(1) j(1) sorted_nth_mono [of "map (\<lambda>e. - score e) lb" i "10 + j"]
      by (simp add: sorted_desc_def)
    then show ?thesis using i j \<open>i < 10\<close> \<open>i < length lb\<close> by (simp add: rows nth_enumerate_eq)
  qed
  ultimately show ?thesis by blast
qed

theorem welcome_table_top10_witness:
  "sorted_desc [\<lparr>entry_id = ''u1'', name = ''Bob'', score = 90, timestamp = 0\<rparr>] \<and>
   welcome_table [\<lparr>entry_id = ''u1'', name = ''Bob'', score = 90, timestamp = 0\<rparr>] =
     Some [\<lparr>wrow_rank = 1, wrow_name = ''Bob'', wrow_score = 90\<rparr>] \<and>
   map wrow_rank [\<lparr>wrow_rank = 1, wrow_name = ''Bob'', wrow_score = 90\<rparr>] = [1]"
proof -
  let ?lb = "[\<lparr>entry_id = ''u1'', name = ''Bob'', score = 90, timestamp = 0\<rparr>]"
  let ?rows = "[\<lparr>wrow_rank = 1, wrow_name = ''Bob'', wrow_score = (90::int)\<rparr>]"
  have h1: "sorted_desc ?lb" by (simp add: sorted_desc_def)
  have h2: "welcome_table ?lb = Some ?rows" by (simp add: welcome_table_def)
  show ?thesis using welcome_table_top10 [OF h1 h2] h1 h2 by simp
qed

end
