(* ===== verification/Quiz_View.thy ===== *)
theory Quiz_View
  imports Quiz
begin

text \<open>
  What the quiz screen of \<open>src/App.tsx\<close> shows (lines 108--109 and 132--212): the
  progress bar, the position and running score, the question, one button per option
  with the style \<open>getOptionStyle\<close> gives it and its check or cross icon, and, once
  the question is answered, the feedback with the explanation and the next button with
  its label.  The render reads \<open>questions[currentIndex]\<close>; when that is undefined
  it throws, and \<open>quiz_view\<close> is \<open>None\<close>.
\<close>

datatype OptionStyle = Style_open | Style_correct | Style_wrong | Style_dimmed

definition getOptionStyle :: "Question \<Rightarrow> QuizScreenState \<Rightarrow> nat \<Rightarrow> OptionStyle" where
  "getOptionStyle q s index =
     (if \<not> isAnswered s then Style_open
      else if int index = correctAnswerIndex q then Style_correct
      else if selectedOption s = Some index \<and> int index \<noteq> correctAnswerIndex q then Style_wrong
      else Style_dimmed)"

text \<open>\<open>selectedOption === currentQuestion.correctAnswerIndex\<close>: \<open>null\<close> equals no number.\<close>

definition selected_correct :: "Question \<Rightarrow> QuizScreenState \<Rightarrow> bool" where
  "selected_correct q s = (case selectedOption s of None \<Rightarrow> False | Some i \<Rightarrow> int i = correctAnswerIndex q)"

record OptionButton =
  opt_label :: string
  opt_style :: OptionStyle
  opt_enabled :: bool
  opt_check :: bool
  opt_cross :: bool

datatype Feedback = Feedback_correct | Feedback_explanation

datatype NextLabel = Label_next_question | Label_see_results

record QuizView =
  progress :: real
  position :: nat
  total :: nat
  shown_score :: int
  prompt :: string
  buttons :: "OptionButton list"
  feedback :: "(Feedback \<times> string) option"
  next_label :: "NextLabel option"

definition option_button :: "Question \<Rightarrow> QuizScreenState \<Rightarrow> nat \<Rightarrow> string \<Rightarrow> OptionButton" where
  "option_button q s idx opt =
     \<lparr>opt_label = opt, opt_style = getOptionStyle q s idx, opt_enabled = (\<not> isAnswered s),
      opt_check = (isAnswered s \<and> int idx = correctAnswerIndex q),
      opt_cross = (isAnswered s \<and> selectedOption s = Some idx \<and> int idx \<noteq> correctAnswerIndex q)\<rparr>"

definition quiz_view :: "Question list \<Rightarrow> QuizScreenState \<Rightarrow> QuizView option" where
  "quiz_view qs s =
     (case js_index qs (currentIndex s) of
        None \<Rightarrow> None
      | Some q \<Rightarrow> Some
          \<lparr>progress = real (currentIndex s + 1) / real (length qs) * 100,
           position = currentIndex s + 1, total = length qs,
           shown_score = js_round (quiz_score s),
           prompt = question_text q,
           buttons = map (\<lambda>(idx, opt). option_button q s idx opt) (enumerate 0 (options q)),
           feedback = (if isAnswered s
                       then Some (if selected_correct q s then Feedback_correct else Feedback_explanation,
                                  explanation q)
                       else None),
           next_label = (if isAnswered s
                         then Some (if int (currentIndex s) = int (length qs) - 1
                                    then Label_see_results else Label_next_question)
                         else None)\<rparr>)"

subsection \<open>Lemmas\<close>

lemma quiz_view_None_iff: "quiz_view qs s = None \<longleftrightarrow> \<not> quiz_renders qs s"
  by (simp add: quiz_view_def quiz_renders_def js_index_def)

lemma quiz_view_Some:
  "currentIndex s < length qs \<Longrightarrow>
   \<exists>v. quiz_view qs s = Some v \<and> buttons v = map (\<lambda>(idx, opt). option_button (qs ! currentIndex s) s idx opt)
                                                (enumerate 0 (options (qs ! currentIndex s)))"
  by (simp add: quiz_view_def js_index_Some)

lemma map_enumerate_nth:
  "map (\<lambda>(idx, opt). f idx opt) (enumerate 0 xs) = map (\<lambda>j. f j (xs ! j)) [0..<length xs]"
  by (rule nth_equalityI) (simp_all add: nth_enumerate_eq)

lemma click_state:
  assumes "option_enabled qs s i"
  shows "quiz_event qs s (Click_option i) =
           Continue (s\<lparr>selectedOption := Some i, isAnswered := True,
                      quiz_score := (if int i = correctAnswerIndex (qs ! currentIndex s)
                                     then quiz_score s + 100 / real (length qs) else quiz_score s)\<rparr>)"
  using assms by (simp add: quiz_event_def option_enabled_click)

subsection \<open>Properties\<close>

text \<open>
  C39: the screen tells the truth about the answer just given: clicking an enabled
  option raises the score by one question's points exactly when it is the correct one,
  and the screen then shows "correct" with the explanation exactly in that case (the
  explanation alone otherwise), marks the correct option green, the clicked one red if
  it is wrong, dims the others, and disables every option.
\<close>

theorem answered_view_matches_score:
  assumes "quiz_inv qs s" and "option_enabled qs s i"
  shows "let q = qs ! currentIndex s; correct = (int i = correctAnswerIndex q)
         in \<exists>s' v. quiz_event qs s (Click_option i) = Continue s' \<and>
              quiz_score s' = quiz_score s + (if correct then 100 / real (length qs) else 0) \<and>
              quiz_view qs s' = Some v \<and>
              feedback v = Some (if correct then Feedback_correct else Feedback_explanation, explanation q) \<and>
              map opt_style (buttons v) =
                map (\<lambda>j. if int j = correctAnswerIndex q then Style_correct
                         else if j = i then Style_wrong else Style_dimmed) [0..<length (options q)] \<and>
              list_all (\<lambda>b. \<not> opt_enabled b) (buttons v)"
proof -
  let ?q = "qs ! currentIndex s"
  let ?s' = "s\<lparr>selectedOption := Some i, isAnswered := True,
                quiz_score := (if int i = correctAnswerIndex ?q
                               then quiz_score s + 100 / real (length qs) else quiz_score s)\<rparr>"
  have k: "currentIndex s < length qs" using assms(1) by (simp add: quiz_inv_def)
  obtain v where v: "quiz_view qs ?s' = Some v"
    and b: "buttons v = map (\<lambda>(idx, opt). option_button ?q ?s' idx opt) (enumerate 0 (options ?q))"
    using quiz_view_Some [of ?s' qs] k by auto
  have fb: "feedback v = Some (if int i = correctAnswerIndex ?q then Feedback_correct else Feedback_explanation,
                               explanation ?q)"
    using v k by (auto simp: quiz_view_def js_index_Some selected_correct_def)
  have st: "map opt_style (buttons v) =
      map (\<lambda>j. if int j = correctAnswerIndex ?q then Style_correct else if j = i then Style_wrong else Style_dimmed)
        [0..<length (options ?q)]"
    by (simp add: b map_enumerate_nth option_button_def getOptionStyle_def)
  have en: "list_all (\<lambda>b. \<not> opt_enabled b) (buttons v)"
    by (simp add: b map_enumerate_nth list_all_iff option_button_def)
  show ?thesis
    using click_state [OF assms(2)] v fb st en by (simp add: Let_def)
qed

theorem answered_view_matches_score_witness:
  "let q = \<lparr>question_id = 1, question_text = ''Q'', options = [''a'', ''b'', ''c'', ''d''],
            correctAnswerIndex = 2, explanation = ''E''\<rparr>
   in quiz_inv [q] quiz_init \<and> option_enabled [q] quiz_init 1 \<and>
      (\<exists>s' v. quiz_event [q] quiz_init (Click_option 1) = Continue s' \<and> quiz_score s' = 0 \<and>
         quiz_view [q] s' = Some v \<and> feedback v = Some (Feedback_explanation, ''E'') \<and>
         map opt_style (buttons v) = [Style_dimmed, Style_wrong, Style_correct, Style_dimmed])"
proof -
  let ?q = "\<lparr>question_id = 1, question_text = ''Q'', options = [''a'', ''b'', ''c'', ''d''],
             correctAnswerIndex = 2, explanation = ''E''\<rparr>"
  have h1: "quiz_inv [?q] quiz_init" by (simp add: quiz_inv_init)
  have h2: "option_enabled [?q] quiz_init 1" by (simp add: option_enabled_def quiz_init_def js_index_def)
  obtain s' v where "quiz_event [?q] quiz_init (Click_option 1) = Continue s'" "quiz_score s' = 0"
    "quiz_view [?q] s' = Some v" "feedback v = Some (Feedback_explanation, ''E'')"
    "map opt_style (buttons v) = [Style_dimmed, Style_wrong, Style_correct, Style_dimmed]"
    using answered_view_matches_score [OF h1 h2] by (auto simp: Let_def quiz_init_def upt_rec)
  then show ?thesis using h1 h2 by (auto simp: Let_def)
qed

text \<open>
  C40: on a mounted quiz screen the progress bar is filled to a share in (0, 100]; the
  feedback and the next button appear exactly once the question is answered, and the
  button reads "See Results" exactly when clicking it ends the quiz, with the rounded
  score the screen shows.
\<close>

theorem next_label_truthful:
  assumes "quiz_inv qs s"
  shows "\<exists>v. quiz_view qs s = Some v \<and> 0 < progress v \<and> progress v \<le> 100 \<and>
             (next_label v = None \<longleftrightarrow> \<not> isAnswered s) \<and> (feedback v = None \<longleftrightarrow> \<not> isAnswered s) \<and>
             (isAnswered s \<longrightarrow>
                (next_label v = Some Label_see_results \<longleftrightarrow> handleNext qs s = Finish (shown_score v)))"
proof -
  let ?k = "currentIndex s" and ?n = "length qs"
  have k: "?k < ?n" using assms by (simp add: quiz_inv_def)
  then have "real (?k + 1) \<le> real ?n" "0 < real ?n" by linarith+
  then have p: "0 < real (?k + 1) / real ?n * 100" "real (?k + 1) / real ?n * 100 \<le> 100"
    by (simp_all add: pos_divide_le_eq)
  have l: "(int ?k = int ?n - 1) \<longleftrightarrow> \<not> int ?k < int ?n - 1" using k by linarith
  have "qs \<noteq> []" using k by auto
  then show ?thesis using k p l
    by (auto simp: quiz_view_def js_index_Some handleNext_def)
qed

theorem next_label_truthful_witness:
  "let q = \<lparr>question_id = 1, question_text = ''Q'', options = [''a'', ''b''],
            correctAnswerIndex = 0, explanation = ''E''\<rparr>;
       s = quiz_init\<lparr>selectedOption := Some 0, isAnswered := True, quiz_score := 100\<rparr>
   in quiz_inv [q] s \<and> handleNext [q] s = Finish 100 \<and>
      (\<exists>v. quiz_view [q] s = Some v \<and> progress v = 100 \<and> next_label v = Some Label_see_results)"
proof -
  let ?q = "\<lparr>question_id = 1, question_text = ''Q'', options = [''a'', ''b''],
             correctAnswerIndex = 0, explanation = ''E''\<rparr>"
  let ?s = "quiz_init\<lparr>selectedOption := Some 0, isAnswered := True, quiz_score := 100\<rparr>"
  have h: "quiz_inv [?q] ?s" by (simp add: quiz_inv_def quiz_init_def exI [of _ 1])
  obtain v where v: "quiz_view [?q] ?s = Some v"
    "next_label v = Some Label_see_results \<longleftrightarrow> handleNext [?q] ?s = Finish (shown_score v)"
    using next_label_truthful [OF h] by (auto simp: quiz_init_def)
  have r: "js_round 100 = 100" by (simp add: js_round_def)
  show ?thesis using h v r
    by (auto simp: Let_def quiz_view_def js_index_def handleNext_def quiz_init_def)
qed

end
