(* ===== verification/Page_View.thy ===== *)
theory Page_View
  imports Screens Quiz_View
begin

text \<open>
  The whole page: the render of \<open>App\<close> (\<open>src/App.tsx\<close> lines 343--391) inside
  \<open>Layout\<close> (\<open>src/components/Layout.tsx\<close>).  \<open>Layout\<close> draws a fixed frame,
  the header with the title, the scrolling content area holding its children and the
  footer; its only input is the children.  The children are five conditional parts, one
  per \<open>AppState\<close>: the welcome screen (its leaderboard table, \<open>Screens\<close>), the
  static \<open>LoadingScreen\<close> (lines 220--229), the quiz screen (\<open>Quiz_View\<close>), the
  result screen with the score, verdict and rows (lines 232--290, \<open>Screens\<close>) and the
  error panel with its message (lines 366--371).  A part whose render throws (the quiz
  screen without a current question) unmounts the whole tree: \<open>app_view\<close> is then
  \<open>None\<close>.  \<open>clock\<close> is \<open>Date.now()\<close> at render time.
\<close>

datatype Screen =
    Welcome_screen "WelcomeRow list option"
  | Loading_screen
  | Quiz_screen QuizView
  | Result_screen int Verdict "ResultRow list"
  | Error_screen "UiMessage option"

datatype PageView = Layout "Screen list"

text \<open>\<open>LoadingScreen\<close> has no props and no state: it always renders the same spinner.\<close>

definition LoadingScreen :: Screen where
  "LoadingScreen = Loading_screen"

definition result_screen :: "AppModel \<Rightarrow> int \<Rightarrow> Screen" where
  "result_screen s clock = (case result_view s clock of (v, rows) \<Rightarrow> Result_screen (currentScore s) v rows)"

definition app_view :: "AppModel \<Rightarrow> int \<Rightarrow> PageView option" where
  "app_view s clock =
     map_option
       (\<lambda>quiz_part. Layout
          ((if appState s = WELCOME then [Welcome_screen (welcome_view s)] else []) @
           (if appState s = LOADING then [LoadingScreen] else []) @
           quiz_part @
           (if appState s = RESULT then [result_screen s clock] else []) @
           (if appState s = ERROR then [Error_screen (errorMsg s)] else [])))
       (if appState s = QUIZ then map_option (\<lambda>v. [Quiz_screen v]) (quiz_view (questions s) (quiz s))
        else Some [])"

text \<open>The screen state a rendered screen belongs to.\<close>

definition screen_state :: "Screen \<Rightarrow> AppState" where
  "screen_state sc =
     (case sc of
        Welcome_screen _ \<Rightarrow> WELCOME | Loading_screen \<Rightarrow> LOADING | Quiz_screen _ \<Rightarrow> QUIZ
      | Result_screen _ _ _ \<Rightarrow> RESULT | Error_screen _ \<Rightarrow> ERROR)"

subsection \<open>Lemmas\<close>

lemma app_view_None_iff: "app_view s clock = None \<longleftrightarrow> \<not> app_renders s"
  by (simp add: app_view_def app_renders_def quiz_view_None_iff split: AppState.splits)

lemma app_view_single:
  assumes "app_renders s"
  shows "\<exists>sc. app_view s clock = Some (Layout [sc]) \<and> screen_state sc = appState s"
proof (cases "appState s")
  case QUIZ
  then obtain v where "quiz_view (questions s) (quiz s) = Some v"
    using assms quiz_view_None_iff by (fastforce simp: app_renders_def)
  then show ?thesis using QUIZ by (simp add: app_view_def screen_state_def)
qed (simp_all add: app_view_def screen_state_def result_screen_def LoadingScreen_def split: prod.splits)

lemma reach_nonempty_renders:
  assumes "reach nonempty_batches s"
  shows "app_renders s"
proof (cases "appState s = QUIZ")
  case True
  have "questions s \<noteq> []" using reach_nonempty_quiz [OF assms] True by (simp add: quiz_has_questions_iff)
  moreover have "app_inv s" using assms by (rule reach_app_inv)
  ultimately have "quiz_inv (questions s) (quiz s)" using True by (simp add: app_inv_def)
  then show ?thesis using True by (simp add: app_renders_def quiz_inv_renders)
qed (simp add: app_renders_def split: AppState.splits)

subsection \<open>Properties\<close>

text \<open>
  C25: the page always shows exactly the screen of the current state: it throws exactly
  when the App model says the render throws, otherwise the layout holds exactly one
  screen, the one of \<open>appState\<close>; and in every state reachable when no batch is
  empty, the page renders.
\<close>

theorem page_shows_current_screen:
  "(app_view s clock = None \<longleftrightarrow> \<not> app_renders s) \<and>
   (app_renders s \<longrightarrow> (\<exists>sc. app_view s clock = Some (Layout [sc]) \<and> screen_state sc = appState s)) \<and>
   (reach nonempty_batches s \<longrightarrow> app_view s clock \<noteq> None)"
  using app_view_None_iff app_view_single reach_nonempty_renders by blast

theorem page_shows_current_screen_witness:
  "app_renders (app_init None Map.empty) \<and> reach nonempty_batches (app_init None Map.empty) \<and>
   app_view (app_init None Map.empty) 0 = Some (Layout [Welcome_screen None])"
proof -
  have h1: "app_renders (app_init None Map.empty)" by (simp add: app_renders_def app_init_def)
  have h2: "reach nonempty_batches (app_init None Map.empty)" by (rule reach.init)
  obtain sc where "app_view (app_init None Map.empty) 0 = Some (Layout [sc])"
    "screen_state sc = WELCOME"
    using page_shows_current_screen [of "app_init None Map.empty" 0] h1 h2 by (auto simp: app_init_def)
  moreover have "app_view (app_init None Map.empty) 0 = Some (Layout [Welcome_screen None])"
    by (simp add: app_view_def app_init_def welcome_view_def welcome_table_def getLeaderboard_def)
  ultimately show ?thesis using h1 h2 by simp
qed

end
