(* ===== verification/Spec2Isabelle.thy ===== *)
theory Spec2Isabelle
  imports Liveness Storage_Text Gemini_Schema Welcome_Form Page_View
begin

text \<open>
  \<^bold>\<open>A verification library for the AI knowledge quiz (src/).\<close>

  \<^bold>\<open>The program.\<close>  A React single-page application.  \<open>src/App.tsx\<close> holds the
  \<open>App\<close> component, a five-screen session machine (WELCOME, LOADING, QUIZ,
  RESULT, ERROR, the \<open>AppState\<close> enum of \<open>src/types.ts\<close>), and the screens it
  renders: \<open>WelcomeScreen\<close> (name form, top-10 leaderboard, reset button),
  \<open>LoadingScreen\<close>, \<open>QuizScreen\<close> (one question at a time, running score) and
  \<open>ResultScreen\<close>.  \<open>App\<close> calls two services: \<open>src/services/gemini.ts\<close>
  (\<open>generateQuizQuestions\<close>, one asynchronous request to the Gemini API, ids
  renumbered on receipt) and \<open>src/services/storage.ts\<close> (\<open>getLeaderboard\<close>,
  \<open>saveScore\<close>, \<open>resetLeaderboard\<close> over one \<open>localStorage\<close> key).
  \<open>src/components/Layout.tsx\<close> is the frame around every screen.

  \<^bold>\<open>Theories and what they model.\<close>
  \<^item> \<open>Prelude\<close>: the collections \<open>handler_defs\<close> (unfolding rules of every
    handler, used to evaluate concrete runs) and \<open>app_inv_defs\<close>; lemmas on stable
    sorting (\<open>sort_key\<close> of a list with one element appended) and on truncation.
  \<^item> \<open>JS_Runtime\<close>: the JavaScript built-ins the code relies on, by their
    ECMAScript meaning: \<open>js_index\<close> (array read, \<open>undefined\<close> past the end),
    \<open>js_round\<close> (\<open>Math.round\<close>), \<open>js_trim\<close> (\<open>String.prototype.trim\<close>,
    white space of the 8-bit range, no-break space included), \<open>js_sort\<close> (\<open>Array.prototype.sort\<close>, stable, proved equal to
    \<open>sort_key\<close> for a numeric-difference comparator).
  \<^item> \<open>Types\<close>: \<open>types.ts\<close> as a datatype and three records; \<open>question_wf\<close> is
    the question invariant the design states (4 options, index in 0..3).  \<open>AppState\<close>
    is a linear order by the screens' order in a successful session (error last), so
    that "the screens are visited in order" is \<open>sorted\<close> of a trace.
  \<^item> \<open>Storage\<close>: \<open>storage.ts\<close>.  \<open>localStorage\<close> is a map from keys to stored
    values, a stored value being what \<open>JSON.parse\<close> makes of the text
    (\<open>Json_entries\<close>, or \<open>Unparsable\<close>); \<open>crypto.randomUUID()\<close> and
    \<open>Date.now()\<close> are arguments of \<open>saveScore\<close>.  Lemmas: the result is sorted, bounded
    and a sub-multiset of the stored entries plus the new one, equals an insertion into the stable order, is stable, truncates exactly one
    lowest entry when full, keeps the new entry exactly when it ranks in the top 100, is
    what a later load reads; reset empties the board.
  \<^item> \<open>Json\<close>: \<open>JSON.stringify\<close> and \<open>JSON.parse\<close> from ECMA-262 and ECMA-404,
    for the values the program stores.  The lexer \<open>lex\<close> is a \<open>function\<close>. Its
    termination proof is that every token consumes input. The parser \<open>parse_run\<close>
    is a stack machine over the tokens. Lemma: \<open>json_parse (json_stringify v) = Some v\<close>
    for every value, escapes of quotes, backslashes and control characters included.
  \<^item> \<open>Storage_Text\<close>: \<open>storage.ts\<close> on the stored text.
    \<open>getLeaderboard_js\<close> returns \<open>JSON.parse\<close> of it unchecked, and
    \<open>saveScore_text\<close> stores \<open>JSON.stringify(updated)\<close>.  \<open>abs_storage\<close> maps a
    text store to the entry-level store of \<open>Storage\<close>.  Lemmas: what saveScore
    writes reads back as the board it returned. On stores in the form the program writes
    (\<open>text_ok\<close>, kept by every write), the text-level operations refine the
    entry-level ones, so every \<open>Storage\<close> lemma holds of the real stored text. A
    stored \<open>null\<close> is returned as the leaderboard, and saveScore's spread then throws.
  \<^item> \<open>Gemini_Text\<close>: \<open>gemini.ts\<close> on the reply text.
    \<open>generateQuizQuestions_text\<close> runs \<open>JSON.parse\<close> on \<open>response.text\<close>, then
    \<open>data.map\<close> with the spread \<open>{...q, id: index + 1}\<close> (\<open>spread_with_id\<close>).
    \<open>reply_abs\<close> reads a text reply as the abstract \<open>GeminiReply\<close>, where its array
    holds questions.  Lemmas: the text-level function refines \<open>generateQuizQuestions\<close>.
    A reply such as \<open>[1,{}]\<close> is accepted as id-only objects that are not questions.
  \<^item> \<open>Gemini_Schema\<close>: the request \<open>generateQuizQuestions\<close> sends
    (\<open>quiz_request\<close>: model, prompt with the requested count, JSON MIME type) and its
    \<open>responseSchema\<close> as a value of the datatype \<open>schema\<close>, with \<open>conforms\<close>
    giving a schema its meaning on parsed JSON (a \<open>fun\<close> by nested recursion through
    the property list).  Lemma: when the service keeps the schema contract, the reply
    text always stands for an array of questions and the text-level function returns them
    renumbered.  The schema bounds neither the number of options nor the correct index,
    which its descriptions and the system instruction ask for.
  \<^item> \<open>Gemini\<close>: \<open>gemini.ts\<close>.  The key read at module load (\<open>getApiKey\<close>) and
    \<open>generateQuizQuestions\<close>, with the upstream call an input (\<open>GeminiReply\<close>:
    request failure, no text, unparsable text, a non-array, or an array of questions) and
    every \<open>throw\<close> a \<open>GenError\<close>.  Lemmas: renumbering 1..n with all other fields
    kept, exactly which replies fail (the missing key first), and that nothing validates
    the batch.
  \<^item> \<open>Quiz\<close>: \<open>QuizScreen\<close>.  Its four \<open>useState\<close> hooks as a record,
    \<open>handleOptionClick\<close> (an \<open>error + state\<close> result: reading the current question
    past the end throws) and \<open>handleNext\<close>, the button guards (\<open>disabled\<close> once
    answered, next button only when answered) in \<open>quiz_event\<close>, and runs of events
    (\<open>quiz_run\<close>).  The abstract specification \<open>quiz_spec\<close>: the rounded count of
    correct answers times \<open>100/n\<close>.  Lemmas: a run answering every question refines
    \<open>quiz_spec\<close> when the batch size divides 100; 20 questions give \<open>5 K\<close>; the first answer is binding; an
    invariant (score a whole number of per-question points, at most one per answered
    question) holds along runs and bounds the final score to 0..100.  The question loop
    terminates: when every remaining question offers an option, \<open>n - k\<close> rounds of
    answer-and-next finish the quiz, and no fewer do (\<open>n\<close> questions, current index
    \<open>k\<close>).
  \<^item> \<open>App\<close>: the \<open>App\<close> component.  Its six hooks, the mounted quiz screen's state,
    the outstanding provider call (\<open>pending\<close>: \<open>handleStart\<close> is split at its
    \<open>await\<close> into \<open>handleStart\<close> and \<open>handleStartDone\<close>), \<open>localStorage\<close> and
    the API key form the record \<open>AppModel\<close>; \<open>app_step\<close> applies one
    \<open>AppEvent\<close> (a click on a rendered control, or the provider call settling);
    \<open>reach\<close> is the inductive set of states reachable from any start by events that
    satisfy a predicate.  Lemmas: the invariant \<open>app_inv\<close> (screen leaderboard =
    stored leaderboard, a call is outstanding exactly in LOADING, quiz invariant) in
    every reachable state by rule induction, one preservation lemma per handler; under
    non-empty batches the quiz screen always renders; an empty batch reaches a quiz
    screen that cannot render; the transitions of each screen.
  \<^item> \<open>Screens\<close>: what the welcome and result screens show, as functions of the
    \<open>AppModel\<close>: the top-10 table (\<open>welcome_table\<close>), the verdict, the top-5
    rows with their badges and the \<open>isHighScore\<close> highlight (\<open>result_rows\<close>),
    with \<open>Date.now()\<close> at render time a parameter.  Lemmas: the player's fresh row is
    highlighted at its rank when it makes the top five; an older entry with the same
    score is highlighted too; the welcome table shows the ten best entries in rank order.
  \<^item> \<open>Quiz_View\<close>: what \<open>QuizScreen\<close> renders (\<open>quiz_view\<close>, \<open>None\<close>
    when the render throws): progress, position and rounded score, one button per option
    with the style \<open>getOptionStyle\<close> gives it and its icons, the feedback and the
    label of the next button.  Lemmas: after a click the feedback, the score increase and
    the button colours agree; the next button reads "See Results" exactly when it ends
    the quiz, with the score the screen shows.
  \<^item> \<open>Welcome_Form\<close>: the name form of \<open>WelcomeScreen\<close> (its field state, the
    \<open>disabled\<close> and \<open>required\<close> guards, \<open>handleSubmit\<close>) and its mounting:
    \<open>session_step\<close> runs the form and \<open>App\<close> together, the form existing only on
    the welcome screen and mounted fresh, empty, on each return there.  Lemma: a
    simulation, every page event moves the App state as the \<open>AppEvent\<close> it stands
    for (\<open>ui_abs\<close>), so the App model's \<open>Submit_name\<close> is an exact abstraction
    of clicking start or pressing Enter.
  \<^item> \<open>Page_View\<close>: the whole page, \<open>Layout\<close> (\<open>src/components/Layout.tsx\<close>,
    a fixed frame around its children) around the five conditional parts of the
    \<open>App\<close> render, \<open>LoadingScreen\<close> included; \<open>app_view\<close> is \<open>None\<close> when a
    part throws.  Lemma: the page throws exactly when \<open>app_renders\<close> says so, shows
    exactly the screen of \<open>appState\<close> otherwise, and renders in every state reachable
    with non-empty batches.
  \<^item> \<open>Liveness\<close>: progress of the session machine.  Lemmas: from every reachable
    rendered state whose remaining questions each offer an option, user events alone
    lead back to WELCOME. On the loading screen, any provider reply leaves it.  A batch
    with an option-less question traps the session on a quiz screen that no event
    changes.  The question ids of every reachable state are 1..n.
  \<^item> This theory: the end-to-end session, composing all components: a session
    with a non-blank name, a configured key and a non-empty batch answered in full ends
    on RESULT with the specified score saved, having shown exactly WELCOME, LOADING,
    QUIZ and RESULT, in this order.

  \<^bold>\<open>Modelling choices.\<close>  JavaScript numbers that the code fills with integers
  (scores, timestamps, indices) are \<open>int\<close> or \<open>nat\<close>; the running quiz score is a
  \<open>real\<close>, the exact sum of the \<open>100 / n\<close> increments.  The code adds them in IEEE
  doubles, which is the same sum when \<open>n\<close> divides 100 (each increment is then an
  integer) but can round differently otherwise: 24 questions with 15 correct answers
  finish with 62 in the code and 63 in exact arithmetic.  The theorems that state the
  final score therefore assume that \<open>n\<close> divides 100, as the 20 questions the
  application asks for do.  The quiz invariant's score clause (a whole number of
  per-question points) is a statement about the exact sum.  Strings are HOL strings of 8-bit characters; the Traditional Chinese
  literals (prompt, error message) are not reproduced: the error message is the
  constructor \<open>Msg_generation_failed\<close>.  React's re-rendering is modelled by the
  guards of \<open>app_step\<close> (an event of a control that is not rendered has no effect)
  and by \<open>app_renders\<close> (a render that throws unmounts the application).  No loop of
  the program is unbounded, so no fuel is needed: runs are structural recursion over
  event lists. \<open>JSON.parse\<close> terminates by the measure "length of the remaining
  text".

  \<^bold>\<open>Not modelled.\<close>  What is left carries no behaviour that can be stated
  faithfully at this level.  The visual content is not reproduced: class strings, icons,
  the spinner, and the Traditional Chinese texts (title, footer, prompts, messages, and
  the system instruction of \<open>gemini.ts\<close> lines 20--43).  The choices among them
  are modelled as datatypes (\<open>OptionStyle\<close>, \<open>Badge\<close>, \<open>Feedback\<close>,
  \<open>Verdict\<close>, \<open>NextLabel\<close>, \<open>Screen\<close>).
  The Gemini SDK and the network are not modelled: their outcome is the input
  \<open>GeminiReply\<close> or \<open>TextReply\<close>, and their promise is the schema contract
  stated as a hypothesis.
  The session machine takes the provider's reply at the level of
  \<open>GeminiReply\<close>, which \<open>Gemini_Text\<close> and \<open>Gemini_Schema\<close> justify for
  replies that stand for an array of questions.  What the quiz screen does with reply
  objects that are not questions is not modelled.
  \<open>saveScore\<close> and the welcome screen are not modelled on stored text that parses
  to something other than an array of entries.  There the comparator compares
  \<open>NaN\<close>, for which ECMAScript leaves the sort order implementation-defined, and
  \<open>leaderboard.length > 0\<close> needs \<open>ToNumber\<close> of arbitrary values.
  \<open>Storage_Text\<close> shows that the program itself never writes such text.
  Floating-point accumulation of the quiz score is not modelled: the score is the exact
  real sum, which is the code's double sum for batch sizes dividing 100 (see above).
  Also not modelled: JSON numbers with a fraction or exponent, characters above 8 bits,
  and concurrent writes from other tabs.
\<close>

lemma quiz_run_reindexed:
  assumes "answers_valid qs ans" and "qs \<noteq> []"
  shows "quiz_run (reindex qs) quiz_init (play ans) = Finish (quiz_spec qs ans)"
proof -
  have v: "answers_valid (reindex qs) ans" using assms(1) by (simp add: answers_valid_reindex)
  have "ans \<noteq> []" and "0 + length ans = length (reindex qs)"
    and "list_all2 (\<lambda>q a. a < length (options q)) (drop 0 (reindex qs)) ans"
    using v assms(2) by (auto simp: answers_valid_def)
  then have "quiz_run (reindex qs) quiz_init (play ans) = Finish (quiz_spec (reindex qs) ans)"
    by (subst quiz_run_play_from [of quiz_init 0]) (simp_all add: quiz_init_def quiz_spec_def)
  then show ?thesis by (simp add: quiz_spec_reindex)
qed

lemma trace_quiz_to_result:
  assumes "appState s = QUIZ" and "appState (app_run s evs) = RESULT"
    and "\<forall>x\<in>set (app_trace s evs). appState x \<in> {QUIZ, RESULT}"
  shows "set (map appState (app_trace s evs)) = {QUIZ, RESULT}"
proof -
  have "QUIZ \<in> appState ` set (app_trace s evs)"
    using app_trace_hd [of s evs] assms(1) by (metis hd_in_set image_eqI list.distinct(1) app_trace.elims)
  moreover have "RESULT \<in> appState ` set (app_trace s evs)"
    using app_trace_last [of s evs] assms(2) by (metis last_in_set image_eqI list.distinct(1) app_trace.elims)
  ultimately show ?thesis using assms(3) by auto
qed

text \<open>
  C4: end to end, as the design's scenario describes: a non-blank name is submitted,
  the provider returns a non-empty batch, every question is answered with an offered
  option and next is clicked after each.  The session ends on the result screen with
  the specified score, the trimmed name, and the leaderboard and storage that saveScore
  produces from the stored board; the screens it shows are exactly WELCOME, LOADING,
  QUIZ and RESULT, in this order, never the error screen.  The batch size divides 100,
  as the 20 questions the application asks for do: for such sizes the double-precision
  score of the code equals the exact score of the model (see \<open>quiz_run_refines_spec\<close>).
\<close>

theorem end_to_end_session:
  assumes "js_trim raw \<noteq> []" and "js_truthy_str (getApiKey env)"
    and "answers_valid qs ans" and "qs \<noteq> []" and "length qs dvd 100"
  shows "let es = Submit_name raw # Provider_settled (Response (Some (Json_array qs)))
                  # map (\<lambda>ev. Quiz_input ev uuid now) (play ans);
             s = app_run (app_init env st) es
         in appState s = RESULT \<and> currentScore s = quiz_spec qs ans \<and> userName s = js_trim raw \<and>
            leaderboard s = fst (saveScore st (js_trim raw) (quiz_spec qs ans) uuid now) \<and>
            storage s = snd (saveScore st (js_trim raw) (quiz_spec qs ans) uuid now) \<and>
            set (map appState (app_trace (app_init env st) es)) = {WELCOME, LOADING, QUIZ, RESULT} \<and>
            sorted (map appState (app_trace (app_init env st) es))"
proof -
  let ?s0 = "app_init env st"
  let ?s1 = "app_step ?s0 (Submit_name raw)"
  let ?s2 = "app_step ?s1 (Provider_settled (Response (Some (Json_array qs))))"
  let ?qs = "reindex qs"
  let ?evs = "map (\<lambda>ev. Quiz_input ev uuid now) (play ans)"
  let ?es = "Submit_name raw # Provider_settled (Response (Some (Json_array qs))) # ?evs"
  have s1: "?s1 = ?s0\<lparr>userName := js_trim raw, appState := LOADING, pending := True\<rparr>"
    using assms(1) by (simp add: app_step_def app_renders_def app_init_def handleSubmit_def handleStart_def)
  have s2: "?s2 = ?s1\<lparr>questions := ?qs, appState := QUIZ, quiz := quiz_init, pending := False\<rparr>"
    using assms(2) s1
    by (simp add: app_step_def app_renders_def handleStartDone_def generateQuizQuestions_def app_init_def)
  have ne: "?qs \<noteq> []" using assms(4) by simp
  have q2: "appState ?s2 = QUIZ" "quiz_inv (questions ?s2) (quiz ?s2)"
    "quiz_run (questions ?s2) (quiz ?s2) (play ans) = Finish (quiz_spec qs ans)"
    using s2 quiz_run_reindexed [OF assms(3,4)] quiz_inv_init [OF ne] by simp_all
  from quiz_phase [OF q2, of uuid now]
  obtain q where fin: "app_run ?s2 ?evs = handleQuizFinish (quiz_spec qs ans) uuid now (?s2\<lparr>quiz := q\<rparr>)"
    and tr: "\<forall>x\<in>set (app_trace ?s2 ?evs). appState x \<in> {QUIZ, RESULT}"
    and srt: "sorted (map appState (app_trace ?s2 ?evs))"
    by blast
  have st2: "storage ?s2 = st" "userName ?s2 = js_trim raw" using s1 s2 by (simp_all add: app_init_def)
  have run_eq: "app_run ?s0 ?es = app_run ?s2 ?evs" by (simp add: app_run_Cons)
  have res: "appState (app_run ?s2 ?evs) = RESULT" using fin by (simp add: handleQuizFinish_def split_beta)
  have set2: "set (map appState (app_trace ?s2 ?evs)) = {QUIZ, RESULT}"
    using trace_quiz_to_result [OF q2(1) res tr] .
  have tr_eq: "map appState (app_trace ?s0 ?es) = WELCOME # LOADING # map appState (app_trace ?s2 ?evs)"
    using s1 by (simp add: app_init_def)
  have "sorted (map appState (app_trace ?s0 ?es))"
    using tr_eq srt set2 by (auto simp: less_eq_AppState_def)
  moreover have "set (map appState (app_trace ?s0 ?es)) = {WELCOME, LOADING, QUIZ, RESULT}"
    using tr_eq set2 by auto
  ultimately show ?thesis using run_eq fin st2 by (simp add: Let_def handleQuizFinish_def split_beta)
qed

theorem end_to_end_session_witness:
  "(let es = Submit_name ''  Amy  '' # Provider_settled (Response (Some (Json_array (replicate 20 sample_question))))
             # map (\<lambda>ev. Quiz_input ev ''u1'' 7) (play (replicate 20 2));
        s = app_run (app_init sample_env Map.empty) es
    in appState s = RESULT \<and> currentScore s = quiz_spec (replicate 20 sample_question) (replicate 20 2) \<and>
       userName s = js_trim ''  Amy  '' \<and>
       leaderboard s = fst (saveScore Map.empty (js_trim ''  Amy  '') (quiz_spec (replicate 20 sample_question) (replicate 20 2)) ''u1'' 7) \<and>
       storage s = snd (saveScore Map.empty (js_trim ''  Amy  '') (quiz_spec (replicate 20 sample_question) (replicate 20 2)) ''u1'' 7) \<and>
       set (map appState (app_trace (app_init sample_env Map.empty) es)) = {WELCOME, LOADING, QUIZ, RESULT} \<and>
       sorted (map appState (app_trace (app_init sample_env Map.empty) es))) \<and>
   js_trim ''  Amy  '' = ''Amy'' \<and>
   quiz_spec (replicate 20 sample_question) (replicate 20 2) = 100 \<and>
   fst (saveScore Map.empty ''Amy'' 100 ''u1'' 7) = [\<lparr>entry_id = ''u1'', name = ''Amy'', score = 100, timestamp = 7\<rparr>]"
proof -
  have h1: "js_trim ''  Amy  '' \<noteq> []" by (simp add: js_trim_def js_whitespace_def)
  have h2: "js_truthy_str (getApiKey sample_env)" by (simp add: sample_env_def getApiKey_def js_truthy_str_def)
  have h3: "answers_valid (replicate 20 sample_question) (replicate 20 2)"
    by (simp add: answers_valid_def sample_question_def list_all2_iff set_zip)
  have h4: "replicate 20 sample_question \<noteq> []" by simp
  have h5: "length (replicate 20 sample_question) dvd 100" by simp
  note A = end_to_end_session [OF h1 h2 h3 h4 h5, where st = Map.empty and uuid = "''u1''" and now = 7]
  have B: "js_trim ''  Amy  '' = ''Amy''" by (simp add: js_trim_def js_whitespace_def)
  have "correct_count (replicate 20 sample_question) (replicate 20 2) = 20"
    by (simp add: correct_count_def sample_question_def)
  then have C: "quiz_spec (replicate 20 sample_question) (replicate 20 2) = 100"
    using js_round_of_int [of 100] by (simp add: quiz_spec_def)
  have D: "fst (saveScore Map.empty ''Amy'' 100 ''u1'' 7) = [\<lparr>entry_id = ''u1'', name = ''Amy'', score = 100, timestamp = 7\<rparr>]"
    by (simp add: saveScore_def getLeaderboard_def js_sort_def Let_def)
  from A B C D show ?thesis by blast
qed

end
